(* ===== verification/Prelude.thy ===== *)
theory Prelude
  imports Main "HOL-Library.Word"
begin

unbundle bit_operations_syntax

text \<open>
  Shared ground of the development: the machine integer types of \<^verbatim>\<open>cpu/types.h\<close>, the ways a
  kernel operation can fail to return normally, and the generic lemmas on words, lists and
  results that the component theories use.
\<close>

section \<open>Machine integers\<close>

text \<open>\<^verbatim>\<open>cpu/types.h\<close>: \<open>u8\<close>, \<open>u16\<close>, \<open>u32\<close> and \<open>u64\<close> are words of their width, so that
  every addition and shift wraps as in the C code.\<close>

type_synonym u8 = "8 word"
type_synonym u16 = "16 word"
type_synonym u32 = "32 word"
type_synonym u64 = "64 word"

text \<open>\<^verbatim>\<open>low_16\<close> and \<^verbatim>\<open>high_16\<close> of \<^verbatim>\<open>cpu/types.h\<close>.\<close>

definition low_16 :: "u32 \<Rightarrow> u16" where
  "low_16 address = ucast (address AND 0xFFFF)"

definition high_16 :: "u32 \<Rightarrow> u16" where
  "high_16 address = ucast (drop_bit 16 address AND 0xFFFF)"

section \<open>Failing operations\<close>

text \<open>
  How a kernel operation can end other than by returning:
  \<^item> \<open>Panic\<close>: a call of \<^verbatim>\<open>panic\<close> (\<^verbatim>\<open>kernel/kernel.c\<close>), which prints, disables the interrupts and
    halts the processor: nothing after the call runs;
  \<^item> \<open>DivideError\<close>: an integer division by zero, the processor's exception 0;
  \<^item> \<open>OutOfBounds\<close>: an access outside an array, undefined in C;
  \<^item> \<open>BadPointer\<close>: a pointer dereferenced that is NULL or does not lead to an object of the
    type the code takes it for;
  \<^item> \<open>Sleeps\<close>: the calling thread would be put to sleep on a lock that another one holds;
  \<^item> \<open>Diverges\<close>: a loop of the code that does not end.
\<close>

datatype kerror = Panic string | DivideError | OutOfBounds | BadPointer | Sleeps | Diverges

type_synonym 'a result = "kerror + 'a"

text \<open>Sequencing: the rest runs only when the first part returned.\<close>

definition res_bind :: "'a result \<Rightarrow> ('a \<Rightarrow> 'b result) \<Rightarrow> 'b result" where
  "res_bind m f = (case m of Inl e \<Rightarrow> Inl e | Inr x \<Rightarrow> f x)"

text \<open>A loop that does not end is a failure of the operation that runs it.\<close>

definition returns :: "'a option \<Rightarrow> 'a result" where
  "returns m = (case m of None \<Rightarrow> Inl Diverges | Some x \<Rightarrow> Inr x)"

text \<open>An array read with its bound.\<close>

definition arr_get :: "'a list \<Rightarrow> nat \<Rightarrow> 'a result" where
  "arr_get xs i = (if i < length xs then Inr (xs ! i) else Inl OutOfBounds)"

text \<open>An array write with its bound.\<close>

definition arr_set :: "'a list \<Rightarrow> nat \<Rightarrow> 'a \<Rightarrow> 'a list result" where
  "arr_set xs i x = (if i < length xs then Inr (xs[i := x]) else Inl OutOfBounds)"

lemma res_bind_simps [simp]:
  "res_bind (Inl e) f = Inl e"
  "res_bind (Inr x) f = f x"
  by (simp_all add: res_bind_def)

lemma res_bind_cong [fundef_cong]:
  "m = m' \<Longrightarrow> (\<And>x. m' = Inr x \<Longrightarrow> f x = g x) \<Longrightarrow> res_bind m f = res_bind m' g"
  by (simp add: res_bind_def split: sum.split)

lemma res_bind_Inr_iff: "res_bind m f = Inr y \<longleftrightarrow> (\<exists>x. m = Inr x \<and> f x = Inr y)"
  by (cases m) simp_all

lemma returns_simps [simp]:
  "returns None = Inl Diverges"
  "returns (Some x) = Inr x"
  by (simp_all add: returns_def)

lemma arr_get_ok [simp]: "i < length xs \<Longrightarrow> arr_get xs i = Inr (xs ! i)"
  by (simp add: arr_get_def)

lemma arr_get_Inr_iff: "arr_get xs i = Inr x \<longleftrightarrow> i < length xs \<and> x = xs ! i"
  by (auto simp: arr_get_def)

lemma arr_set_ok [simp]: "i < length xs \<Longrightarrow> arr_set xs i x = Inr (xs[i := x])"
  by (simp add: arr_set_def)

lemma arr_set_Inr_iff: "arr_set xs i x = Inr ys \<longleftrightarrow> i < length xs \<and> ys = xs[i := x]"
  by (auto simp: arr_set_def)

lemma unat_u32: "n < 2 ^ 32 \<Longrightarrow> unat (word_of_nat n :: u32) = n"
  by (simp add: unat_of_nat take_bit_eq_mod)

lemma unat_u32_less: "unat (x :: u32) < 4294967296"
  using unsigned_less[of x, where 'a = nat] by simp

section \<open>Page offsets\<close>

text \<open>The masks that split an address into its page and its offset.\<close>

lemma and_FFF: "(x :: u32) AND 0xFFF = take_bit 12 x"
  by (simp add: take_bit_eq_mask mask_eq_exp_minus_1)

lemma unat_and_FFF: "unat ((x :: u32) AND 0xFFF) = unat x mod 4096"
  unfolding and_FFF by (simp add: unat_mod_distrib take_bit_eq_mod)

lemma and_FFFFF000: "(x :: u32) AND 0xFFFFF000 = push_bit 12 (drop_bit 12 x)"
proof -
  have e: "(0xFFFFF000 :: u32) = NOT (mask 12)" by (simp add: mask_eq_exp_minus_1)
  show ?thesis unfolding e by (rule bit_word_eqI) (auto simp: bit_simps)
qed

lemma and_mask_split: "(x AND 0xFFF) + (x AND 0xFFFFF000) = (x :: u32)"
  unfolding and_FFF and_FFFFF000 using bits_ident[of 12 x] by (simp add: add.commute)

lemma unat_and_FFFFF000: "unat ((x :: u32) AND 0xFFFFF000) = unat x - unat x mod 4096"
proof -
  have "x AND 0xFFFFF000 = x - (x AND 0xFFF)"
    using and_mask_split[of x] by (simp add: eq_diff_eq add.commute)
  moreover have "x AND 0xFFF \<le> x" by (simp add: word_le_nat_alt unat_and_FFF)
  ultimately show ?thesis using unat_and_FFF[of x] by (simp add: word_le_nat_alt unat_sub_if')
qed

lemma round_page_mod: "(n + 4096 - n mod 4096) mod 4096 = (0::nat)" "(n - n mod 4096) mod 4096 = 0"
  by (metis add.commute add_diff_assoc minus_mod_eq_mult_div mod_less_eq_dividend
      mod_mult_self1_is_0 mod_add_self1)+

end
