(* ===== verification/Lists.thy ===== *)
theory Lists
  imports Prelude
begin

text \<open>
  \<^verbatim>\<open>lib/list.h\<close>: the circular doubly linked lists that every queue of the kernel is made of.
  A list node is embedded in the object it links, so the model keeps the pointers themselves: a
  heap maps each node to its \<^verbatim>\<open>next\<close> and \<^verbatim>\<open>prev\<close>. A component chooses its type of
  nodes; a constructor of that type names the object a node is embedded in, and \<^verbatim>\<open>list_entry\<close>
  is the inverse of the constructor.

  The second half relates the pointers to sequences: \<open>ring\<close> for one list, \<open>rings\<close> for all the
  lists of a component, and the locale \<open>list_family\<close> for what a client relies on.
\<close>

section \<open>The operations\<close>

record 'n list_heap =
  nxt :: "'n \<Rightarrow> 'n"
  prv :: "'n \<Rightarrow> 'n"

definition LIST_INIT :: "'n \<Rightarrow> 'n list_heap \<Rightarrow> 'n list_heap" where
  "LIST_INIT l h =
     (let h = h\<lparr>nxt := (nxt h)(l := l)\<rparr>
      in h\<lparr>prv := (prv h)(l := l)\<rparr>)"

definition list_add_head :: "'n \<Rightarrow> 'n \<Rightarrow> 'n list_heap \<Rightarrow> 'n list_heap" where
  "list_add_head first new h =
     (let second = nxt h first;
          h = h\<lparr>prv := (prv h)(second := new)\<rparr>;
          h = h\<lparr>nxt := (nxt h)(new := second)\<rparr>;
          h = h\<lparr>prv := (prv h)(new := first)\<rparr>
      in h\<lparr>nxt := (nxt h)(first := new)\<rparr>)"

definition list_add_tail :: "'n \<Rightarrow> 'n \<Rightarrow> 'n list_heap \<Rightarrow> 'n list_heap" where
  "list_add_tail first new h =
     (let last = prv h first;
          h = h\<lparr>nxt := (nxt h)(last := new)\<rparr>;
          h = h\<lparr>nxt := (nxt h)(new := first)\<rparr>;
          h = h\<lparr>prv := (prv h)(new := last)\<rparr>
      in h\<lparr>prv := (prv h)(first := new)\<rparr>)"

text \<open>The removed node keeps its own pointers.\<close>

definition list_remove :: "'n \<Rightarrow> 'n list_heap \<Rightarrow> 'n list_heap" where
  "list_remove deleteme h =
     (let prev = prv h deleteme;
          next = nxt h deleteme;
          h = h\<lparr>nxt := (nxt h)(prev := next)\<rparr>
      in h\<lparr>prv := (prv h)(next := prev)\<rparr>)"

text \<open>
  The loops \<^verbatim>\<open>list_for_each\<close> and \<^verbatim>\<open>list_for_each_safe\<close>. The body gets the cursor and the
  state and tells whether it leaves the loop; \<open>nx\<close> reads a \<^verbatim>\<open>next\<close> pointer out of the state.
  \<^verbatim>\<open>list_for_each\<close> reads the cursor's \<^verbatim>\<open>next\<close> after the body has run, the safe
  variant one step ahead. A walk that never comes back to the head is \<open>None\<close>.
\<close>

partial_function (option) for_each_from ::
  "('s \<Rightarrow> 'n \<Rightarrow> 'n) \<Rightarrow> ('n \<Rightarrow> 's \<Rightarrow> 's \<times> bool) \<Rightarrow> 'n \<Rightarrow> 'n \<Rightarrow> 's \<Rightarrow> 's option" where
  "for_each_from nx body head pos s =
     (if pos = head then Some s
      else (let r = body pos s
            in if snd r then Some (fst r)
               else for_each_from nx body head (nx (fst r) pos) (fst r)))"

definition list_for_each ::
  "('s \<Rightarrow> 'n \<Rightarrow> 'n) \<Rightarrow> ('n \<Rightarrow> 's \<Rightarrow> 's \<times> bool) \<Rightarrow> 'n \<Rightarrow> 's \<Rightarrow> 's option" where
  "list_for_each nx body head s = for_each_from nx body head (nx s head) s"

partial_function (option) for_each_safe_from ::
  "('s \<Rightarrow> 'n \<Rightarrow> 'n) \<Rightarrow> ('n \<Rightarrow> 's \<Rightarrow> 's \<times> bool) \<Rightarrow> 'n \<Rightarrow> 'n \<Rightarrow> 'n \<Rightarrow> 's \<Rightarrow> 's option"
where
  "for_each_safe_from nx body head pos n s =
     (if pos = head then Some s
      else (let r = body pos s
            in if snd r then Some (fst r)
               else for_each_safe_from nx body head n (nx (fst r) n) (fst r)))"

definition list_for_each_safe ::
  "('s \<Rightarrow> 'n \<Rightarrow> 'n) \<Rightarrow> ('n \<Rightarrow> 's \<Rightarrow> 's \<times> bool) \<Rightarrow> 'n \<Rightarrow> 's \<Rightarrow> 's option" where
  "list_for_each_safe nx body head s = for_each_safe_from nx body head (nx s head) (nx s (nx s head)) s"

definition list_length :: "'n list_heap \<Rightarrow> 'n option \<Rightarrow> int option" where
  "list_length h lst =
     (case lst of
        None \<Rightarrow> Some 0
      | Some head \<Rightarrow> list_for_each (\<lambda>_. nxt h) (\<lambda>_ i. (i + 1, False)) head 0)"

section \<open>One list: the pointers as a sequence\<close>

fun links :: "'n list_heap \<Rightarrow> 'n list \<Rightarrow> bool" where
  "links h (a # b # xs) = (nxt h a = b \<and> prv h b = a \<and> links h (b # xs))"
| "links h _ = True"

definition ring :: "'n list_heap \<Rightarrow> 'n \<Rightarrow> 'n list \<Rightarrow> bool" where
  "ring h head xs \<longleftrightarrow> distinct (head # xs) \<and> links h (head # xs @ [head])"

lemma links_append:
  "links h (xs @ a # ys) \<longleftrightarrow> links h (xs @ [a]) \<and> links h (a # ys)"
  by (induction h xs rule: links.induct) (auto split: list.splits)

lemma links_frame:
  "links h xs \<Longrightarrow> (\<And>x. x \<in> set xs \<Longrightarrow> nxt h' x = nxt h x \<and> prv h' x = prv h x) \<Longrightarrow> links h' xs"
  by (induction h xs rule: links.induct) auto

lemma links_frame_nxt:
  "links h (xs @ [b]) \<Longrightarrow> (\<And>x. x \<in> set xs \<Longrightarrow> nxt h' x = nxt h x) \<Longrightarrow>
   (\<And>x. x \<in> set (tl (xs @ [b])) \<Longrightarrow> prv h' x = prv h x) \<Longrightarrow> links h' (xs @ [b])"
proof (induction xs)
  case (Cons a xs)
  then show ?case by (cases xs) auto
qed simp

lemma ring_frame:
  "ring h head xs \<Longrightarrow> (\<And>x. x \<in> set (head # xs) \<Longrightarrow> nxt h' x = nxt h x \<and> prv h' x = prv h x) \<Longrightarrow>
   ring h' head xs"
  unfolding ring_def by (auto intro: links_frame)

lemma ring_next: "ring h head xs \<Longrightarrow> nxt h head = (case xs of [] \<Rightarrow> head | x # _ \<Rightarrow> x)"
  by (cases xs) (auto simp: ring_def)

lemma ring_prev: "ring h head xs \<Longrightarrow> prv h head = (if xs = [] then head else last xs)"
proof (cases xs rule: rev_cases)
  case (snoc ys y)
  assume "ring h head xs"
  with snoc have "links h ((head # ys) @ y # [head])" by (simp add: ring_def)
  then have "links h [y, head]" using links_append by metis
  with snoc show ?thesis by simp
qed (simp add: ring_def)

lemma ring_empty_iff: "ring h head xs \<Longrightarrow> nxt h head = head \<longleftrightarrow> xs = []"
  by (cases xs) (auto simp: ring_def)

lemma ring_init: "ring (LIST_INIT l h) l []"
  by (simp add: ring_def LIST_INIT_def)

lemma ring_add_head:
  assumes r: "ring h head xs" and new: "x \<notin> set (head # xs)"
  shows "ring (list_add_head head x h) head (x # xs)"
proof (cases xs)
  case Nil
  with r new show ?thesis by (auto simp: ring_def list_add_head_def Let_def)
next
  case (Cons y ys)
  with r have l: "links h ((y # ys) @ [head])" and hy: "nxt h head = y" and "y \<noteq> head" "distinct (head # xs)"
    by (auto simp: ring_def)
  have "links (list_add_head head x h) ((y # ys) @ [head])"
    using new \<open>y \<noteq> head\<close> \<open>distinct (head # xs)\<close> Cons hy
    by (intro links_frame_nxt[OF l]) (auto simp: list_add_head_def Let_def)
  with Cons hy new \<open>distinct (head # xs)\<close> show ?thesis
    by (auto simp: ring_def list_add_head_def Let_def)
qed

lemma ring_add_tail:
  assumes r: "ring h head xs" and new: "x \<notin> set (head # xs)"
  shows "ring (list_add_tail head x h) head (xs @ [x])"
proof (cases xs rule: rev_cases)
  case Nil
  with r new show ?thesis by (auto simp: ring_def list_add_tail_def Let_def)
next
  case (snoc ys y)
  with r have d: "distinct (head # xs)" and "y \<noteq> head" and l: "links h ((head # ys) @ [y])"
    using links_append[of h "head # ys" y "[head]"] by (auto simp: ring_def)
  have hp: "prv h head = y" using ring_prev[OF r] snoc by simp
  have "links (list_add_tail head x h) ((head # ys) @ [y])"
    using new d snoc hp by (intro links_frame_nxt[OF l]) (auto simp: list_add_tail_def Let_def)
  moreover have "links (list_add_tail head x h) [y, x, head]"
    using new d snoc hp by (auto simp: list_add_tail_def Let_def)
  ultimately show ?thesis
    using links_append[of "list_add_tail head x h" "head # ys" y "[x, head]"] d new snoc
    by (auto simp: ring_def)
qed

lemma ring_remove:
  assumes r: "ring h head xs" and mem: "x \<in> set xs"
  shows "ring (list_remove x h) head (remove1 x xs)"
proof -
  from mem obtain ys zs where xs: "xs = ys @ x # zs" by (auto simp: in_set_conv_decomp)
  with r have d: "distinct (head # ys @ x # zs)" by (simp add: ring_def)
  obtain a as where a: "head # ys = as @ [a]" by (metis list.distinct(1) rev_exhaust)
  obtain b bs where b: "zs @ [head] = b # bs" by (metis Nil_is_append_conv list.exhaust list.distinct(1))
  have xs': "head # xs @ [head] = as @ a # x # b # bs" using xs a b by (metis append.assoc append_Cons append_Nil)
  have d': "distinct (as @ [a])" "set (as @ [a]) = set (head # ys)"
    using d a by (metis Cons_eq_appendI distinct_append, metis)
  have l: "links h (as @ [a])" "links h [a, x]" "links h [x, b]" "links h (b # bs)"
    using r xs' links_append[of h as a "x # b # bs"] by (auto simp: ring_def)
  let ?h = "list_remove x h"
  have upd: "nxt ?h = (nxt h)(a := b)" "prv ?h = (prv h)(b := a)"
    using l by (simp_all add: list_remove_def Let_def)
  have bnot: "b \<notin> set (tl (as @ [a]))" and anot: "a \<notin> set (butlast (b # bs))"
  proof -
    have "tl (as @ [a]) = ys" using a by (metis list.sel(3))
    moreover have "b = head \<or> b \<in> set zs" using b by (cases zs) auto
    ultimately show "b \<notin> set (tl (as @ [a]))" using d by auto
    have "butlast (b # bs) = zs" using b by (metis butlast_snoc)
    moreover have "a = head \<or> a \<in> set ys" using a by (cases ys rule: rev_cases) auto
    ultimately show "a \<notin> set (butlast (b # bs))" using d by auto
  qed
  have "links ?h (as @ [a])"
    using d' bnot upd by (intro links_frame_nxt[OF l(1)]) auto
  moreover have "links ?h (b # bs)"
  proof (cases bs rule: rev_cases)
    case (snoc cs c)
    have "b \<notin> set bs" using b d snoc by (cases zs) auto
    have "links ?h ((b # cs) @ [c])"
      by (rule links_frame_nxt) (use l(4) anot upd \<open>b \<notin> set bs\<close> snoc in auto)
    then show ?thesis by (simp add: snoc)
  qed simp
  moreover have "links ?h [a, b]" using upd by simp
  ultimately have "links ?h (as @ a # b # bs)" using links_append[of ?h as a "b # bs"] by simp
  moreover have "head # remove1 x xs @ [head] = as @ a # b # bs"
    using d xs a b by (simp add: remove1_append)
  ultimately show ?thesis using r mem by (auto simp: ring_def distinct_remove1)
qed

text \<open>A node that is initialised and not linked anywhere: removing it changes nothing.\<close>

lemma list_remove_unlinked:
  "nxt h x = x \<Longrightarrow> prv h x = x \<Longrightarrow> list_remove x h = h"
  by (simp add: list_remove_def Let_def fun_upd_idem)

section \<open>The loops over a list\<close>

text \<open>The loop as a fold over the sequence, left when the body says so.\<close>

fun fold_until :: "('n \<Rightarrow> 's \<Rightarrow> 's \<times> bool) \<Rightarrow> 'n list \<Rightarrow> 's \<Rightarrow> 's" where
  "fold_until body [] s = s"
| "fold_until body (x # xs) s =
     (if snd (body x s) then fst (body x s) else fold_until body xs (fst (body x s)))"

text \<open>
  A loop agrees with the fold when an invariant \<open>I\<close>, indexed by the nodes still to come, keeps
  the \<^verbatim>\<open>next\<close> pointers that the loop has yet to read.
\<close>

lemma for_each_from_fold:
  assumes "I xs s"
    and "\<And>y ys s. I (y # ys) s \<Longrightarrow> y \<noteq> head \<and> (snd (body y s) \<or>
           (nx (fst (body y s)) y = hd (ys @ [head]) \<and> I ys (fst (body y s))))"
  shows "for_each_from nx body head (hd (xs @ [head])) s = Some (fold_until body xs s)"
  using assms(1)
proof (induction xs arbitrary: s)
  case Nil
  then show ?case by (simp add: for_each_from.simps)
next
  case (Cons y ys)
  from assms(2)[OF Cons.prems] Cons.IH[of "fst (body y s)"] show ?case
    by (subst for_each_from.simps) (auto simp: Let_def)
qed

lemma list_for_each_fold:
  assumes "nx s head = hd (xs @ [head])" and "I xs s"
    and "\<And>y ys s. I (y # ys) s \<Longrightarrow> y \<noteq> head \<and> (snd (body y s) \<or>
           (nx (fst (body y s)) y = hd (ys @ [head]) \<and> I ys (fst (body y s))))"
  shows "list_for_each nx body head s = Some (fold_until body xs s)"
  unfolding list_for_each_def assms(1) by (rule for_each_from_fold[of I]) (use assms in auto)

lemma for_each_safe_from_fold:
  assumes "I xs s" and "xs \<noteq> [] \<Longrightarrow> n = hd (tl xs @ [head])"
    and "\<And>y ys s. I (y # ys) s \<Longrightarrow>
           y \<noteq> head \<and> nx s y = hd (ys @ [head]) \<and> (snd (body y s) \<or> I ys (fst (body y s)))"
  shows "for_each_safe_from nx body head (hd (xs @ [head])) n s = Some (fold_until body xs s)"
  using assms(1,2)
proof (induction xs arbitrary: s n)
  case Nil
  then show ?case by (simp add: for_each_safe_from.simps)
next
  case (Cons y ys)
  show ?case
  proof (cases "snd (body y s)")
    case True
    with assms(3)[OF Cons.prems(1)] show ?thesis
      by (subst for_each_safe_from.simps) (auto simp: Let_def)
  next
    case False
    with assms(3)[OF Cons.prems(1)] have I: "I ys (fst (body y s))" by blast
    have "nx (fst (body y s)) n = hd (tl ys @ [head])" if "ys \<noteq> []"
    proof -
      from that obtain z zs where "ys = z # zs" by (cases ys) auto
      with I assms(3)[of z zs "fst (body y s)"] Cons.prems(2) show ?thesis by simp
    qed
    from Cons.IH[OF I this] False Cons.prems(2) assms(3)[OF Cons.prems(1)] show ?thesis
      by (subst for_each_safe_from.simps) (auto simp: Let_def)
  qed
qed

lemma list_for_each_safe_fold:
  assumes "nx s head = hd (xs @ [head])" and "I xs s"
    and "\<And>y ys s. I (y # ys) s \<Longrightarrow>
           y \<noteq> head \<and> nx s y = hd (ys @ [head]) \<and> (snd (body y s) \<or> I ys (fst (body y s)))"
  shows "list_for_each_safe nx body head s = Some (fold_until body xs s)"
  unfolding list_for_each_safe_def assms(1)
proof (rule for_each_safe_from_fold[of I])
  assume "xs \<noteq> []"
  then obtain y ys where "xs = y # ys" by (cases xs) auto
  with assms(2,3) show "nx s (hd (xs @ [head])) = hd (tl xs @ [head])" by auto
qed (use assms in auto)

lemma ring_nxt_chain:
  "links h (a # xs @ [b]) \<Longrightarrow> nxt h a = hd (xs @ [b])"
  by (cases xs) auto

text \<open>The loop whose body leaves the pointers alone.\<close>

lemma list_for_each_ring:
  assumes r: "ring h head xs" and nx: "\<And>s. nx s = nxt h"
  shows "list_for_each nx body head s = Some (fold_until body xs s)"
proof (rule list_for_each_fold[where I = "\<lambda>ys _. distinct (head # ys) \<and> links h (ys @ [head])"])
  show "nx s head = hd (xs @ [head])"
    using r ring_nxt_chain[of h head xs head] by (simp add: ring_def nx)
  show "distinct (head # xs) \<and> links h (xs @ [head])"
    using r by (cases xs) (auto simp: ring_def)
next
  fix y ys s'
  assume I: "distinct (head # y # ys) \<and> links h ((y # ys) @ [head])"
  then show "y \<noteq> head \<and> (snd (body y s') \<or> (nx (fst (body y s')) y = hd (ys @ [head]) \<and>
      distinct (head # ys) \<and> links h (ys @ [head])))"
    by (cases ys) (auto simp: nx)
qed

lemma list_length_ring:
  assumes "ring h head xs"
  shows "list_length h (Some head) = Some (int (length xs))"
proof -
  have "fold_until (\<lambda>_ i. (i + 1, False)) ys i = i + int (length ys)" for ys :: "'a list" and i :: int
    by (induction ys arbitrary: i) auto
  then show ?thesis
    unfolding list_length_def using list_for_each_ring[OF assms, of "\<lambda>_::int. nxt h"] by simp
qed

section \<open>All the lists of a component\<close>

text \<open>
  \<open>rings h Hs ls\<close>: the heads \<open>Hs\<close> carry the sequences \<open>ls\<close>, and no node is on two lists.
\<close>

definition linked :: "'n set \<Rightarrow> ('n \<Rightarrow> 'n list) \<Rightarrow> 'n set" where
  "linked Hs ls = Hs \<union> (\<Union>a\<in>Hs. set (ls a))"

lemma linked_upd:
  assumes "b \<in> Hs" "set ys = insert x (set (ls b))"
  shows "linked Hs (ls(b := ys)) = Hs \<union> insert x (\<Union>c\<in>Hs. set (ls c))"
proof -
  have "(\<Union>c\<in>Hs. set ((ls(b := ys)) c)) = set ys \<union> (\<Union>c\<in>Hs - {b}. set (ls c))"
    using assms(1) by (auto split: if_splits)
  also have "\<dots> = insert x (\<Union>c\<in>Hs. set (ls c))"
    using assms by auto
  finally show ?thesis by (simp only: linked_def)
qed

definition rings :: "'n list_heap \<Rightarrow> 'n set \<Rightarrow> ('n \<Rightarrow> 'n list) \<Rightarrow> bool" where
  "rings h Hs ls \<longleftrightarrow>
     (\<forall>a\<in>Hs. ring h a (ls a)) \<and>
     (\<forall>a\<in>Hs. \<forall>b\<in>Hs. a \<noteq> b \<longrightarrow> set (a # ls a) \<inter> set (b # ls b) = {})"

lemma rings_ring: "rings h Hs ls \<Longrightarrow> a \<in> Hs \<Longrightarrow> ring h a (ls a)"
  by (simp add: rings_def)

lemma rings_disjoint:
  "rings h Hs ls \<Longrightarrow> a \<in> Hs \<Longrightarrow> b \<in> Hs \<Longrightarrow> a \<noteq> b \<Longrightarrow> set (a # ls a) \<inter> set (b # ls b) = {}"
  by (simp add: rings_def)

lemma rings_mem_unique:
  "rings h Hs ls \<Longrightarrow> a \<in> Hs \<Longrightarrow> b \<in> Hs \<Longrightarrow> x \<in> set (ls a) \<Longrightarrow> x \<in> set (ls b) \<Longrightarrow> a = b"
  using rings_disjoint[of h Hs ls a b] by auto

lemma rings_not_head: "rings h Hs ls \<Longrightarrow> a \<in> Hs \<Longrightarrow> x \<in> set (ls a) \<Longrightarrow> x \<notin> Hs"
  using rings_disjoint[of h Hs ls a x] rings_ring[of h Hs ls a] by (auto simp: ring_def)

lemma rings_distinct: "rings h Hs ls \<Longrightarrow> a \<in> Hs \<Longrightarrow> distinct (ls a)"
  by (auto simp: rings_def ring_def)

text \<open>An operation on the list at \<open>a\<close> that touches only the nodes of that list and \<open>x\<close>.\<close>

lemma rings_update:
  assumes "rings h Hs ls" and "a \<in> Hs" and "ring h' a ys"
    and "\<And>y. y \<notin> set (a # ls a) \<Longrightarrow> y \<noteq> x \<Longrightarrow> nxt h' y = nxt h y \<and> prv h' y = prv h y"
    and "set ys \<subseteq> insert x (set (ls a))"
    and "\<And>b. b \<in> Hs \<Longrightarrow> b \<noteq> a \<Longrightarrow> x \<notin> set (b # ls b)"
  shows "rings h' Hs (ls(a := ys))"
  unfolding rings_def
proof (intro conjI ballI impI)
  fix b assume b: "b \<in> Hs"
  show "ring h' b ((ls(a := ys)) b)"
  proof (cases "b = a")
    case False
    have "ring h' b (ls b)"
    proof (rule ring_frame[OF rings_ring[OF assms(1) b]])
      fix y assume "y \<in> set (b # ls b)"
      then have "y \<notin> set (a # ls a)" "y \<noteq> x"
        using rings_disjoint[OF assms(1) b assms(2) False] assms(6)[OF b False] by blast+
      then show "nxt h' y = nxt h y \<and> prv h' y = prv h y" by (rule assms(4))
    qed
    with False show ?thesis by simp
  qed (use assms(3) in simp)
next
  have new: "set (a # ys) \<inter> set (c # ls c) = {}" if "c \<in> Hs" "c \<noteq> a" for c
    using rings_disjoint[OF assms(1,2) that(1)] that(2) assms(5) assms(6)[OF that] by auto
  fix b c assume "b \<in> Hs" "c \<in> Hs" "b \<noteq> c"
  then show "set (b # (ls(a := ys)) b) \<inter> set (c # (ls(a := ys)) c) = {}"
    using new[of b] new[of c] rings_disjoint[OF assms(1) \<open>b \<in> Hs\<close> \<open>c \<in> Hs\<close>]
    by (cases "b = a"; cases "c = a") auto
qed

lemma ring_neighbours:
  assumes "ring h a xs" "x \<in> set (a # xs)"
  shows "nxt h x \<in> set (a # xs)" "prv h x \<in> set (a # xs)"
proof -
  have *: "links h ys \<Longrightarrow> y \<in> set (butlast ys) \<Longrightarrow> nxt h y \<in> set ys" for ys y
    by (induction h ys rule: links.induct) (auto split: if_splits)
  have **: "links h ys \<Longrightarrow> y \<in> set (tl ys) \<Longrightarrow> prv h y \<in> set ys" for ys y
    by (induction h ys rule: links.induct) (auto split: if_splits)
  have l: "links h (a # xs @ [a])" using assms(1) by (simp add: ring_def)
  from *[OF l, of x] **[OF l, of x] assms(2)
  show "nxt h x \<in> set (a # xs)" "prv h x \<in> set (a # xs)"
    by (auto simp: butlast_append)
qed

lemma rings_add_head:
  assumes "rings h Hs ls" "a \<in> Hs" "x \<notin> linked Hs ls"
  shows "rings (list_add_head a x h) Hs (ls(a := x # ls a))"
proof -
  note r = rings_ring[OF assms(1,2)]
  show ?thesis
  proof (rule rings_update[where x = x, OF assms(1,2)])
    show "ring (list_add_head a x h) a (x # ls a)"
      using assms by (intro ring_add_head[OF r]) (auto simp: linked_def)
  qed (use ring_neighbours[OF r, of a] assms in
        \<open>auto simp: list_add_head_def Let_def linked_def\<close>)
qed

lemma rings_add_tail:
  assumes "rings h Hs ls" "a \<in> Hs" "x \<notin> linked Hs ls"
  shows "rings (list_add_tail a x h) Hs (ls(a := ls a @ [x]))"
proof -
  note r = rings_ring[OF assms(1,2)]
  show ?thesis
  proof (rule rings_update[where x = x, OF assms(1,2)])
    show "ring (list_add_tail a x h) a (ls a @ [x])"
      using assms by (intro ring_add_tail[OF r]) (auto simp: linked_def)
  qed (use ring_neighbours[OF r, of a] assms in
        \<open>auto simp: list_add_tail_def Let_def linked_def\<close>)
qed

lemma rings_remove:
  assumes "rings h Hs ls" "a \<in> Hs" "x \<in> set (ls a)"
  shows "rings (list_remove x h) Hs (ls(a := remove1 x (ls a)))"
proof -
  note r = rings_ring[OF assms(1,2)]
  show ?thesis
  proof (rule rings_update[where x = x, OF assms(1,2)])
    show "ring (list_remove x h) a (remove1 x (ls a))"
      by (rule ring_remove[OF r assms(3)])
    show "x \<notin> set (b # ls b)" if "b \<in> Hs" "b \<noteq> a" for b
      using rings_disjoint[OF assms(1,2) that(1)] that(2) assms(3) by auto
    show "set (remove1 x (ls a)) \<subseteq> insert x (set (ls a))"
      by (auto dest: notin_set_remove1[rotated])
  qed (use ring_neighbours[OF r, of x] assms in
        \<open>auto simp: list_remove_def Let_def\<close>)
qed

lemma rings_init:
  assumes "rings h Hs ls" "l \<notin> linked Hs ls"
  shows "rings (LIST_INIT l h) (insert l Hs) (ls(l := []))"
  unfolding rings_def
proof (intro conjI ballI impI)
  fix b assume b: "b \<in> insert l Hs"
  show "ring (LIST_INIT l h) b ((ls(l := [])) b)"
  proof (cases "b = l")
    case False
    with b have "ring h b (ls b)" "l \<notin> set (b # ls b)"
      using rings_ring[OF assms(1)] assms(2) by (auto simp: linked_def)
    then have "ring (LIST_INIT l h) b (ls b)"
      by (elim ring_frame) (auto simp: LIST_INIT_def)
    with False show ?thesis by simp
  qed (simp add: ring_init)
next
  fix b c assume "b \<in> insert l Hs" "c \<in> insert l Hs" "b \<noteq> c"
  then show "set (b # (ls(l := [])) b) \<inter> set (c # (ls(l := [])) c) = {}"
    using assms rings_disjoint[OF assms(1), of b c] by (auto simp: linked_def)
qed

lemma rings_empty: "rings h {} ls"
  by (simp add: rings_def)

section \<open>What the clients rely on\<close>

text \<open>
  The interface of \<^verbatim>\<open>lib/list.h\<close> for a client with several lists: \<open>rep h Hs ls\<close> relates the
  store \<open>h\<close> to the sequence of every head in \<open>Hs\<close>, and each operation acts on the sequences
  as its name says. The lemmas are about the one thing every client does: taking an object off
  the list it is on and putting it on another one.
\<close>

locale list_family =
  fixes rep :: "'h \<Rightarrow> 'n set \<Rightarrow> ('n \<Rightarrow> 'n list) \<Rightarrow> bool"
    and init :: "'n \<Rightarrow> 'h \<Rightarrow> 'h"
    and add_head :: "'n \<Rightarrow> 'n \<Rightarrow> 'h \<Rightarrow> 'h"
    and add_tail :: "'n \<Rightarrow> 'n \<Rightarrow> 'h \<Rightarrow> 'h"
    and remove :: "'n \<Rightarrow> 'h \<Rightarrow> 'h"
  assumes rep_init: "rep h Hs ls \<Longrightarrow> l \<notin> linked Hs ls \<Longrightarrow> rep (init l h) (insert l Hs) (ls(l := []))"
    and rep_add_head: "rep h Hs ls \<Longrightarrow> a \<in> Hs \<Longrightarrow> x \<notin> linked Hs ls \<Longrightarrow>
          rep (add_head a x h) Hs (ls(a := x # ls a))"
    and rep_add_tail: "rep h Hs ls \<Longrightarrow> a \<in> Hs \<Longrightarrow> x \<notin> linked Hs ls \<Longrightarrow>
          rep (add_tail a x h) Hs (ls(a := ls a @ [x]))"
    and rep_remove: "rep h Hs ls \<Longrightarrow> a \<in> Hs \<Longrightarrow> x \<in> set (ls a) \<Longrightarrow>
          rep (remove x h) Hs (ls(a := remove1 x (ls a)))"
    and rep_distinct: "rep h Hs ls \<Longrightarrow> a \<in> Hs \<Longrightarrow> distinct (ls a)"
    and rep_not_head: "rep h Hs ls \<Longrightarrow> a \<in> Hs \<Longrightarrow> x \<in> set (ls a) \<Longrightarrow> x \<notin> Hs"
    and rep_unique: "rep h Hs ls \<Longrightarrow> a \<in> Hs \<Longrightarrow> b \<in> Hs \<Longrightarrow> x \<in> set (ls a) \<Longrightarrow>
          x \<in> set (ls b) \<Longrightarrow> a = b"
begin

lemma removed_unlinked:
  assumes "rep h Hs ls" "a \<in> Hs" "x \<in> set (ls a)"
  shows "x \<notin> linked Hs (ls(a := remove1 x (ls a)))"
proof -
  have "x \<notin> set ((ls(a := remove1 x (ls a))) b)" if "b \<in> Hs" for b
    using rep_unique[OF assms(1) that assms(2) _ assms(3)] rep_distinct[OF assms(1,2)]
    by (cases "b = a") auto
  with rep_not_head[OF assms] show ?thesis by (auto simp: linked_def simp del: fun_upd_apply)
qed

lemma move_head:
  assumes "rep h Hs ls" "a \<in> Hs" "b \<in> Hs" "x \<in> set (ls a)"
  shows "rep (add_head b x (remove x h)) Hs
           ((ls(a := remove1 x (ls a)))(b := x # (ls(a := remove1 x (ls a))) b))"
  using rep_add_head[OF rep_remove[OF assms(1,2,4)] assms(3) removed_unlinked[OF assms(1,2,4)]] .

lemma move_tail:
  assumes "rep h Hs ls" "a \<in> Hs" "b \<in> Hs" "x \<in> set (ls a)"
  shows "rep (add_tail b x (remove x h)) Hs
           ((ls(a := remove1 x (ls a)))(b := (ls(a := remove1 x (ls a))) b @ [x]))"
  using rep_add_tail[OF rep_remove[OF assms(1,2,4)] assms(3) removed_unlinked[OF assms(1,2,4)]] .

lemma linked_move:
  assumes "rep h Hs ls" "a \<in> Hs" "b \<in> Hs" "x \<in> set (ls a)"
  shows "linked Hs ((ls(a := remove1 x (ls a)))(b := x # (ls(a := remove1 x (ls a))) b)) = linked Hs ls"
    and "linked Hs ((ls(a := remove1 x (ls a)))(b := (ls(a := remove1 x (ls a))) b @ [x])) = linked Hs ls"
proof -
  let ?l = "ls(a := remove1 x (ls a))"
  have eq: "insert x (\<Union>c\<in>Hs. set (?l c)) = (\<Union>c\<in>Hs. set (ls c))"
    using assms(2,4) rep_distinct[OF assms(1,2)] by (auto split: if_splits)
  have "linked Hs (?l(b := x # ?l b)) = Hs \<union> insert x (\<Union>c\<in>Hs. set (?l c))"
    and "linked Hs (?l(b := ?l b @ [x])) = Hs \<union> insert x (\<Union>c\<in>Hs. set (?l c))"
    by (rule linked_upd[OF assms(3)], simp)+
  then show "linked Hs (?l(b := x # ?l b)) = linked Hs ls"
    and "linked Hs (?l(b := ?l b @ [x])) = linked Hs ls"
    unfolding eq by (simp_all only: linked_def)
qed

end

interpretation lists: list_family rings LIST_INIT list_add_head list_add_tail list_remove
  by unfold_locales
    (simp_all add: rings_init rings_add_head rings_add_tail rings_remove rings_distinct
      rings_not_head rings_mem_unique)

end
