(* ===== verification/Memory.thy ===== *)
theory Memory
  imports Prelude
begin

text \<open>
  The routines of \<^verbatim>\<open>mem/mem.c\<close> on raw memory: \<^verbatim>\<open>memcopy\<close> and \<^verbatim>\<open>memset\<close> on a byte store,
  and \<^verbatim>\<open>boot_alloc\<close>, the allocator that moves one pointer and serves until the page allocator
  is up; the address conversions \<^verbatim>\<open>PA\<close> and \<^verbatim>\<open>VA\<close> of \<^verbatim>\<open>kernel/kernel.h\<close>.
\<close>

section \<open>Addresses\<close>

definition KERNEL_VIRTUAL_ADDRESS_BASE :: u32 where
  "KERNEL_VIRTUAL_ADDRESS_BASE = 0xC0000000"

definition PA :: "u32 \<Rightarrow> u32" where
  "PA x = x - KERNEL_VIRTUAL_ADDRESS_BASE"

definition VA :: "u32 \<Rightarrow> u32" where
  "VA x = x + KERNEL_VIRTUAL_ADDRESS_BASE"

definition is_kernel_addr :: "u32 \<Rightarrow> bool" where
  "is_kernel_addr addr \<longleftrightarrow> addr \<ge> KERNEL_VIRTUAL_ADDRESS_BASE"

lemma PA_VA [simp]: "PA (VA x) = x" and VA_PA [simp]: "VA (PA x) = x"
  by (simp_all add: PA_def VA_def)

lemma VA_eq_iff [simp]: "VA x = VA y \<longleftrightarrow> x = y"
  by (simp add: VA_def)

lemma unat_VA:
  assumes "unat x < 0x40000000"
  shows "unat (VA x) = unat x + 0xC0000000"
  using assms by (simp add: VA_def KERNEL_VIRTUAL_ADDRESS_BASE_def unat_word_ariths)

lemma is_kernel_addr_VA: "unat x < 0x40000000 \<Longrightarrow> is_kernel_addr (VA x)"
  using unat_VA[of x]
  by (simp add: is_kernel_addr_def KERNEL_VIRTUAL_ADDRESS_BASE_def word_le_nat_alt)

section \<open>memcopy and memset\<close>

text \<open>
  Byte stores map an address to its byte. \<^verbatim>\<open>memcopy\<close> copies upwards, one byte at a time, so
  a source that is overwritten on the way is read as it is by then.
\<close>

type_synonym bytes = "u32 \<Rightarrow> u8"

fun memcopy_loop :: "nat \<Rightarrow> u32 \<Rightarrow> u32 \<Rightarrow> u32 \<Rightarrow> bytes \<Rightarrow> bytes" where
  "memcopy_loop 0 i source dest m = m"
| "memcopy_loop (Suc n) i source dest m =
     memcopy_loop n (i + 1) source dest (m(dest + i := m (source + i)))"

definition memcopy :: "u32 \<Rightarrow> u32 \<Rightarrow> u32 \<Rightarrow> bytes \<Rightarrow> bytes" where
  "memcopy source dest nbytes m = memcopy_loop (unat nbytes) 0 source dest m"

fun memset_loop :: "nat \<Rightarrow> u32 \<Rightarrow> u8 \<Rightarrow> bytes \<Rightarrow> bytes" where
  "memset_loop 0 temp val m = m"
| "memset_loop (Suc len) temp val m = memset_loop len (temp + 1) val (m(temp := val))"

definition memset :: "u32 \<Rightarrow> u8 \<Rightarrow> u32 \<Rightarrow> bytes \<Rightarrow> bytes" where
  "memset dest val len m = memset_loop (unat len) dest val m"

section \<open>boot_alloc\<close>

text \<open>The result is the pointer handed out and the new \<^verbatim>\<open>free_mem_addr\<close>.\<close>

definition boot_alloc :: "u32 \<Rightarrow> u8 \<Rightarrow> u32 \<Rightarrow> u32 \<times> u32" where
  "boot_alloc sz align free_mem_addr =
     (let isAligned = free_mem_addr AND 0x00000FFF;
          free_mem_addr =
            (if align = 1 \<and> isAligned \<noteq> 0
             then (free_mem_addr AND 0xFFFFF000) + 0x1000 else free_mem_addr);
          ret = free_mem_addr
      in (ret, free_mem_addr + sz))"

end
