(* ===== verification/Buddy.thy ===== *)
theory Buddy
  imports Lists Memory
begin

text \<open>
  \<^verbatim>\<open>mem/buddy.c\<close> and \<^verbatim>\<open>mem/buddy.h\<close>: the buddy page allocator. A descriptor has one block record for
  every page of its region and, for each order up to \<open>MAX_ORDER\<close>, a free list of the blocks of
  \<open>2 ^ order\<close> pages. The block with index \<open>i\<close> is \<open>&all_buddies[i]\<close>; page numbers and orders
  are natural numbers, which the invariant bounds far below the width of their C types. An index
  outside the array is \<open>OutOfBounds\<close>.
\<close>

section \<open>Data\<close>

definition MAX_ORDER :: nat where
  "MAX_ORDER = 10"

definition PAGES_PER_BLOCK :: "nat \<Rightarrow> nat" where
  "PAGES_PER_BLOCK order = 2 ^ order"

text \<open>The nodes of the free lists: the heads \<open>free_lists[o]\<close> and the \<open>free_list\<close> members of
  the blocks.\<close>

datatype bnode = FreeList nat | Block nat

record buddy_block =
  b_order :: nat
  b_free :: bool
  b_pfn :: nat

record buddy_mem_desc =
  pfn_offset :: nat
  tot_pages :: nat
  all_buddies :: "buddy_block list"
  free_lists :: "bnode list_heap"

abbreviation blk :: "buddy_mem_desc \<Rightarrow> nat \<Rightarrow> buddy_block" where
  "blk d i \<equiv> all_buddies d ! i"

definition set_block :: "nat \<Rightarrow> (buddy_block \<Rightarrow> buddy_block) \<Rightarrow> buddy_mem_desc \<Rightarrow> buddy_mem_desc" where
  "set_block i f d = d\<lparr>all_buddies := (all_buddies d)[i := f (all_buddies d ! i)]\<rparr>"

definition on_lists ::
  "(bnode list_heap \<Rightarrow> bnode list_heap) \<Rightarrow> buddy_mem_desc \<Rightarrow> buddy_mem_desc" where
  "on_lists f d = d\<lparr>free_lists := f (free_lists d)\<rparr>"

section \<open>Operations\<close>

text \<open>
  \<^verbatim>\<open>init_buddy_new\<close>: one record is 20 bytes (\<^verbatim>\<open>order\<close>, \<^verbatim>\<open>free\<close>, two bytes of padding, \<^verbatim>\<open>pfn\<close>,
  the two list pointers and \<^verbatim>\<open>my_buddy\<close>). The result carries the new \<^verbatim>\<open>free_mem_addr\<close>.
\<close>

definition sizeof_BuddyBlockNew :: nat where
  "sizeof_BuddyBlockNew = 20"

definition init_block :: "nat \<Rightarrow> buddy_mem_desc \<Rightarrow> buddy_mem_desc" where
  "init_block i d =
     set_block i (\<lambda>b. b\<lparr>b_order := 0, b_pfn := i\<rparr>)
       (on_lists (LIST_INIT (Block i)) (set_block i (\<lambda>b. b\<lparr>b_free := False\<rparr>) d))"

definition init_top_block :: "nat \<Rightarrow> buddy_mem_desc \<Rightarrow> buddy_mem_desc" where
  "init_top_block i d =
     set_block i (\<lambda>b. b\<lparr>b_order := MAX_ORDER\<rparr>)
       (on_lists (list_add_tail (FreeList MAX_ORDER) (Block i))
         (set_block i (\<lambda>b. b\<lparr>b_free := True\<rparr>) d))"

definition init_buddy_new ::
  "nat \<Rightarrow> nat \<Rightarrow> buddy_mem_desc \<Rightarrow> u32 \<Rightarrow> (buddy_mem_desc \<times> u32) result" where
  "init_buddy_new num_pages pfn_off d free_mem_addr =
     (let rounded_down_pages =
            (num_pages div PAGES_PER_BLOCK MAX_ORDER) * PAGES_PER_BLOCK MAX_ORDER
      in if rounded_down_pages = 0 then Inl (Panic ''Memory chunk is < 4MiB'')
         else
           let (_, free_mem_addr) =
                 boot_alloc (word_of_nat (rounded_down_pages * sizeof_BuddyBlockNew)) 1 free_mem_addr;
               d = d\<lparr>all_buddies := replicate rounded_down_pages (buddy_block.make 0 False 0),
                     pfn_offset := pfn_off, tot_pages := rounded_down_pages\<rparr>;
               d = fold (\<lambda>i. on_lists (LIST_INIT (FreeList i))) [0..<MAX_ORDER + 1] d;
               d = fold init_block [0..<rounded_down_pages] d;
               d = fold (\<lambda>k. init_top_block (k * PAGES_PER_BLOCK MAX_ORDER))
                     [0..<rounded_down_pages div PAGES_PER_BLOCK MAX_ORDER] d
           in Inr (d, free_mem_addr))"

text \<open>
  \<^verbatim>\<open>get_buddy_new\<close>: the first block of the free list of the order, or else a block of the next
  order, split in two. A block is given by its index.
\<close>

function get_buddy_new :: "nat \<Rightarrow> buddy_mem_desc \<Rightarrow> (nat \<times> buddy_mem_desc) result" where
  "get_buddy_new order d =
     (if order > MAX_ORDER then Inl (Panic ''Invalid order to alloc'')
      else
        let l = nxt (free_lists d) (FreeList order)
        in if l \<noteq> FreeList order then
             (case l of
                FreeList _ \<Rightarrow> Inl BadPointer
              | Block found \<Rightarrow>
                  res_bind (arr_get (all_buddies d) found) (\<lambda>_.
                    Inr (found,
                      on_lists (list_remove (Block found))
                        (set_block found (\<lambda>b. b\<lparr>b_free := False\<rparr>) d))))
           else if order = MAX_ORDER then Inl (Panic ''No more buddy blocks available'')
           else
             res_bind (get_buddy_new (order + 1) d) (\<lambda>r.
               let (found, d) = r;
                   d = set_block found (\<lambda>b. b\<lparr>b_order := order\<rparr>) d
               in res_bind (arr_get (all_buddies d) found) (\<lambda>f.
                    let my_buddy = b_pfn f + PAGES_PER_BLOCK (order + 1) div 2
                    in res_bind (arr_get (all_buddies d) my_buddy) (\<lambda>_.
                         let d = set_block my_buddy (\<lambda>b. b\<lparr>b_free := True\<rparr>) d;
                             d = set_block my_buddy (\<lambda>b. b\<lparr>b_order := order\<rparr>) d;
                             d = on_lists (list_add_head (FreeList order) (Block my_buddy)) d
                         in Inr (found, set_block found (\<lambda>b. b\<lparr>b_free := False\<rparr>) d)))))"
  by pat_completeness auto
termination by (relation "measure (\<lambda>(order, _). MAX_ORDER + 1 - order)") auto

declare get_buddy_new.simps [simp del]

definition calc_my_buddy_new_pfn :: "buddy_block \<Rightarrow> nat \<Rightarrow> nat" where
  "calc_my_buddy_new_pfn b order =
     (if (b_pfn b div PAGES_PER_BLOCK order) mod 2 = 0
      then b_pfn b + PAGES_PER_BLOCK order
      else b_pfn b - PAGES_PER_BLOCK order)"

definition calc_free_buddy :: "nat \<Rightarrow> buddy_mem_desc \<Rightarrow> nat option result" where
  "calc_free_buddy i d =
     res_bind (arr_get (all_buddies d) i) (\<lambda>b.
       if b_order b \<ge> MAX_ORDER then Inr None
       else
         let buddy_pfn = calc_my_buddy_new_pfn b (b_order b)
         in res_bind (arr_get (all_buddies d) buddy_pfn) (\<lambda>found_buddy.
              if b_pfn found_buddy \<noteq> buddy_pfn then Inl (Panic ''Buddy has mismatching PFN!'')
              else if b_free found_buddy \<and> b_order found_buddy = b_order b
                   then Inr (Some buddy_pfn) else Inr None))"

lemma calc_free_buddy_Some:
  "calc_free_buddy i d = Inr (Some j) \<Longrightarrow>
     i < length (all_buddies d) \<and> j < length (all_buddies d) \<and> b_order (blk d i) < MAX_ORDER"
  by (auto simp: calc_free_buddy_def res_bind_Inr_iff arr_get_Inr_iff Let_def split: if_splits)

text \<open>\<^verbatim>\<open>free_buddy_new\<close>: merges with the buddy as long as that one is free and whole.\<close>

function free_buddy_new :: "nat \<Rightarrow> buddy_mem_desc \<Rightarrow> buddy_mem_desc result" where
  "free_buddy_new i d =
     res_bind (arr_get (all_buddies d) i) (\<lambda>b.
       if b_order b > MAX_ORDER then Inl (Panic ''Max order exceeded in free!'')
       else if b_free b then Inl (Panic ''Trying to free a free buddy'')
       else
         res_bind (calc_free_buddy i d) (\<lambda>list_my_buddy.
           case list_my_buddy of
             Some j \<Rightarrow>
               let upper_order = b_order b + 1;
                   base_bigger_block = (if b_pfn b > b_pfn (blk d j) then j else i);
                   d = set_block i (\<lambda>b. b\<lparr>b_free := False\<rparr>) d;
                   d = set_block j (\<lambda>b. b\<lparr>b_free := False\<rparr>) d;
                   d = on_lists (list_remove (Block j)) d;
                   d = set_block base_bigger_block (\<lambda>b. b\<lparr>b_order := upper_order\<rparr>) d;
                   d = set_block base_bigger_block (\<lambda>b. b\<lparr>b_free := False\<rparr>) d
               in free_buddy_new base_bigger_block d
           | None \<Rightarrow>
               let d = set_block i (\<lambda>b. b\<lparr>b_free := True\<rparr>) d
               in Inr (on_lists (list_add_head (FreeList (b_order b)) (Block i)) d)))"
  by pat_completeness auto
termination
proof (relation "measure (\<lambda>(i, d). MAX_ORDER + 1 - b_order (blk d i))", goal_cases)
  case (2 i d b m j)
  then show ?case
    by (auto simp: arr_get_Inr_iff set_block_def on_lists_def nth_list_update
        dest!: calc_free_buddy_Some)
qed simp

declare free_buddy_new.simps [simp del]

text \<open>The physical address of a block, and the block of a physical address (32-bit arithmetic).\<close>

definition PAGE_SIZE :: u32 where
  "PAGE_SIZE = 4096"

definition calc_buddy_phys :: "nat \<Rightarrow> buddy_mem_desc \<Rightarrow> u32 result" where
  "calc_buddy_phys i d =
     res_bind (arr_get (all_buddies d) i) (\<lambda>b.
       Inr ((word_of_nat (pfn_offset d) + word_of_nat (b_pfn b)) * PAGE_SIZE))"

definition buddy_new_from_phys :: "u32 \<Rightarrow> buddy_mem_desc \<Rightarrow> nat" where
  "buddy_new_from_phys phys d =
     (let pfn = phys div PAGE_SIZE
      in unat (pfn - word_of_nat (pfn_offset d)))"

end
