(* ===== verification/Pages.thy ===== *)
theory Pages
  imports Buddy
begin

text \<open>
  The page allocators of \<^verbatim>\<open>mem/mem.c\<close>, on top of the buddy descriptors: the kernel region
  (\<^verbatim>\<open>kalloc_page\<close>, \<^verbatim>\<open>kalloc_nosleep\<close>, \<^verbatim>\<open>kfree_page\<close>), the fast region (\<^verbatim>\<open>fmalloc\<close>,
  \<^verbatim>\<open>ffree\<close>), and \<^verbatim>\<open>init_memory_alloc\<close>. Addresses and byte counters are 32-bit words.
  A lock is its state word; \<^verbatim>\<open>get_lock\<close> on a lock that another thread holds is \<open>Sleeps\<close>.
\<close>

section \<open>State\<close>

record kmem =
  kernel_buddy_new :: buddy_mem_desc
  fast_buddy_new :: buddy_mem_desc
  normal_buddy_new :: buddy_mem_desc
  free_mem_addr :: u32
  total_kernel_pages :: u32
  total_fast_pages :: u32
  total_normal_pages :: u32
  total_used_memory :: u32
  total_fused_memory :: u32
  total_kused_memory :: u32
  kmem_lock :: u32

text \<open>\<^verbatim>\<open>lock/lock.h\<close>; the exchange instruction of \<^verbatim>\<open>_test_spin_lock\<close>: the old state, and the
  lock taken.\<close>

definition LOCK_FREE :: u32 where "LOCK_FREE = 0"
definition LOCK_LOCKED :: u32 where "LOCK_LOCKED = 1"

definition test_spin_lock :: "u32 \<Rightarrow> u32 \<times> u32" where
  "test_spin_lock lock_state = (lock_state, 1)"

definition take_lock :: "u32 \<Rightarrow> u32 result" where
  "take_lock lock_state =
     (let (old, new) = test_spin_lock lock_state
      in if old = LOCK_LOCKED then Inl Sleeps else Inr new)"

section \<open>Operations\<close>

function calc_page_order_loop :: "u32 \<Rightarrow> nat \<Rightarrow> u32" where
  "calc_page_order_loop pages order =
     (if order \<le> MAX_ORDER then
        (if pages \<le> word_of_nat (PAGES_PER_BLOCK order) then word_of_nat order
         else calc_page_order_loop pages (order + 1))
      else - 1)"
  by pat_completeness auto
termination by (relation "measure (\<lambda>(_, order). MAX_ORDER + 1 - order)") auto

declare calc_page_order_loop.simps [simp del]

definition calc_page_order :: "u32 \<Rightarrow> u32" where
  "calc_page_order byte_size =
     (let pages = byte_size div PAGE_SIZE + (if byte_size mod PAGE_SIZE > 0 then 1 else 0)
      in calc_page_order_loop pages 0)"

definition block_bytes :: "nat \<Rightarrow> buddy_mem_desc \<Rightarrow> u32 result" where
  "block_bytes p d =
     res_bind (arr_get (all_buddies d) p) (\<lambda>b.
       Inr (word_of_nat (PAGES_PER_BLOCK (b_order b)) * PAGE_SIZE))"

definition kalloc_nosleep :: "nat \<Rightarrow> kmem \<Rightarrow> (u32 \<times> kmem) result" where
  "kalloc_nosleep order s =
     res_bind (get_buddy_new order (kernel_buddy_new s)) (\<lambda>(p, d).
     res_bind (calc_buddy_phys p d) (\<lambda>phys.
     res_bind (block_bytes p d) (\<lambda>allocated.
       Inr (VA phys,
         s\<lparr>kernel_buddy_new := d,
           total_kused_memory := total_kused_memory s + allocated,
           total_used_memory := total_used_memory s + allocated\<rparr>))))"

definition kalloc_page :: "nat \<Rightarrow> kmem \<Rightarrow> (u32 \<times> kmem) result" where
  "kalloc_page order s =
     res_bind (take_lock (kmem_lock s)) (\<lambda>l.
     let s = s\<lparr>kmem_lock := l\<rparr> in
     res_bind (get_buddy_new order (kernel_buddy_new s)) (\<lambda>(p, d).
     res_bind (calc_buddy_phys p d) (\<lambda>phys.
     res_bind (block_bytes p d) (\<lambda>allocated.
       let s = s\<lparr>kernel_buddy_new := d,
                 total_kused_memory := total_kused_memory s + allocated,
                 total_used_memory := total_used_memory s + allocated\<rparr>
       in Inr (VA phys, s\<lparr>kmem_lock := LOCK_FREE\<rparr>)))))"

definition kfree_page :: "u32 \<Rightarrow> kmem \<Rightarrow> kmem result" where
  "kfree_page ptr s =
     (if ptr = 0 then Inr s
      else
        let phys = PA ptr in
        res_bind (take_lock (kmem_lock s)) (\<lambda>l.
        let s = s\<lparr>kmem_lock := l\<rparr>;
            free_me = buddy_new_from_phys phys (kernel_buddy_new s) in
        res_bind (block_bytes free_me (kernel_buddy_new s)) (\<lambda>freed_size.
        res_bind (free_buddy_new free_me (kernel_buddy_new s)) (\<lambda>d.
          let s = s\<lparr>kernel_buddy_new := d,
                    total_kused_memory := total_kused_memory s - freed_size,
                    total_used_memory := total_used_memory s - freed_size\<rparr>
          in Inr (s\<lparr>kmem_lock := LOCK_FREE\<rparr>)))))"

definition fmalloc :: "u32 \<Rightarrow> kmem \<Rightarrow> (u32 \<times> kmem) result" where
  "fmalloc sz s =
     (let order = calc_page_order sz in
      res_bind (get_buddy_new (unat order) (fast_buddy_new s)) (\<lambda>(p, d).
      res_bind (calc_buddy_phys p d) (\<lambda>phys.
      res_bind (block_bytes p d) (\<lambda>allocated.
        Inr (VA phys,
          s\<lparr>fast_buddy_new := d,
            total_fused_memory := total_fused_memory s + allocated,
            total_used_memory := total_used_memory s + allocated\<rparr>)))))"

definition ffree :: "u32 \<Rightarrow> kmem \<Rightarrow> kmem result" where
  "ffree p s =
     (if p = 0 then Inr s
      else
        let phys = PA p;
            free_me = buddy_new_from_phys phys (fast_buddy_new s) in
        res_bind (block_bytes free_me (fast_buddy_new s)) (\<lambda>freed.
        res_bind (free_buddy_new free_me (fast_buddy_new s)) (\<lambda>d.
          Inr (s\<lparr>fast_buddy_new := d,
                total_fused_memory := total_fused_memory s - freed,
                total_used_memory := total_used_memory s - freed\<rparr>))))"

text \<open>
  \<^verbatim>\<open>init_memory_alloc\<close>: an eighth of the pages each for the kernel and the fast region, the rest
  is normal; then the first blocks of 4 MiB, up to the boot allocations, are taken for good.
\<close>

definition KERNEL_RATIO :: u32 where "KERNEL_RATIO = 8"
definition FAST_MEM_RATIO :: u32 where "FAST_MEM_RATIO = 8"

fun reserve :: "nat \<Rightarrow> kmem \<Rightarrow> kmem result" where
  "reserve 0 s = Inr s"
| "reserve (Suc n) s = res_bind (kalloc_nosleep 10 s) (\<lambda>(_, s). reserve n s)"

definition init_memory_alloc :: "u32 \<Rightarrow> kmem \<Rightarrow> kmem result" where
  "init_memory_alloc boot_total_pages s =
     (let kp = boot_total_pages div KERNEL_RATIO;
          fp = boot_total_pages div FAST_MEM_RATIO;
          np = boot_total_pages - kp - fp;
          s = s\<lparr>total_kernel_pages := kp, total_fast_pages := fp, total_normal_pages := np\<rparr> in
      res_bind (init_buddy_new (unat kp) 0 (kernel_buddy_new s) (free_mem_addr s)) (\<lambda>(d, a).
      let s = s\<lparr>kernel_buddy_new := d, free_mem_addr := a\<rparr> in
      res_bind (init_buddy_new (unat fp) (unat (kp + 1)) (fast_buddy_new s) (free_mem_addr s)) (\<lambda>(d, a).
      let s = s\<lparr>fast_buddy_new := d, free_mem_addr := a\<rparr> in
      res_bind (init_buddy_new (unat np) (unat (kp + fp + 2)) (normal_buddy_new s) (free_mem_addr s)) (\<lambda>(d, a).
      let s = s\<lparr>normal_buddy_new := d, free_mem_addr := a\<rparr>;
          firstNUsedPages = PA (free_mem_addr s) div PAGE_SIZE + 1;
          four_megs_pages = firstNUsedPages div word_of_nat (PAGES_PER_BLOCK 10)
      in reserve (unat (four_megs_pages + 1)) s))))"

end
