(* ===== verification/Slab.thy ===== *)
theory Slab
  imports Pages
begin

text \<open>
  \<^verbatim>\<open>mem/slab.c\<close>, and \<^verbatim>\<open>kmalloc\<close> and \<^verbatim>\<open>kfree\<close> of \<^verbatim>\<open>mem/mem.c\<close>: the allocator of small
  objects. A slab is one page with a header (36 bytes) and buffers, each with a header of 8 bytes.
  The headers are read and written through typed views of the memory: \<open>slabs a\<close> and \<open>bufs b\<close> are
  what the memory at an address reads as; the invariant proves that the headers the code writes do
  not overlap. \<open>tick_count\<close> is the 64-bit counter of the timer.
\<close>

section \<open>State\<close>

datatype snode = CacheFree | CacheUsed | CacheEmpty | SlabHead u32

record slab =
  s_size :: u32
  s_pinned :: bool
  s_last_used :: u32
  s_fingerprint :: u32
  s_tot :: u32
  s_alloc :: u32
  s_first_free :: u32

record buf =
  b_slab :: u32
  b_next_free :: u32

record kheap =
  pages :: kmem
  cache :: "snode list_heap"
  slabs :: "u32 \<Rightarrow> slab"
  bufs :: "u32 \<Rightarrow> buf"
  slab_lock :: u32
  tick_count :: u64

definition sizeof_Slab :: u32 where "sizeof_Slab = 36"
definition sizeof_Buf :: u32 where "sizeof_Buf = 8"
definition MAX_SLAB_SIZE :: u32 where "MAX_SLAB_SIZE = 512"
definition SLAB_FINGERPRINT :: u32 where "SLAB_FINGERPRINT = 0xDEADBEEF"

definition upd_slab :: "u32 \<Rightarrow> (slab \<Rightarrow> slab) \<Rightarrow> kheap \<Rightarrow> kheap" where
  "upd_slab a f s = s\<lparr>slabs := (slabs s)(a := f (slabs s a))\<rparr>"

definition upd_buf :: "u32 \<Rightarrow> (buf \<Rightarrow> buf) \<Rightarrow> kheap \<Rightarrow> kheap" where
  "upd_buf b f s = s\<lparr>bufs := (bufs s)(b := f (bufs s b))\<rparr>"

definition on_cache :: "(snode list_heap \<Rightarrow> snode list_heap) \<Rightarrow> kheap \<Rightarrow> kheap" where
  "on_cache f s = s\<lparr>cache := f (cache s)\<rparr>"

section \<open>Searching the cache\<close>

text \<open>The first slab of a list whose buffers have the size asked for.\<close>

definition search_body :: "u32 \<Rightarrow> kheap \<Rightarrow> snode \<Rightarrow> u32 option result \<Rightarrow> u32 option result \<times> bool" where
  "search_body sz s p found =
     (case p of
        SlabHead a \<Rightarrow> if sz = s_size (slabs s a) then (Inr (Some a), True) else (found, False)
      | _ \<Rightarrow> (Inl BadPointer, True))"

definition search_list :: "snode \<Rightarrow> u32 \<Rightarrow> kheap \<Rightarrow> u32 option result" where
  "search_list head sz s =
     res_bind (returns (list_for_each (\<lambda>_. nxt (cache s)) (search_body sz s) head (Inr None)))
       (\<lambda>found. found)"

definition find_slab :: "u32 \<Rightarrow> kheap \<Rightarrow> u32 result" where
  "find_slab sz s =
     res_bind (search_list CacheUsed sz s) (\<lambda>found.
       case found of
         Some a \<Rightarrow> Inr a
       | None \<Rightarrow>
           res_bind (search_list CacheFree sz s) (\<lambda>found.
             case found of Some a \<Rightarrow> Inr a | None \<Rightarrow> Inr 0))"

section \<open>createSlab\<close>

text \<open>The loop that links the free buffers; \<open>n\<close> is the number of rounds left.\<close>

fun init_bufs :: "nat \<Rightarrow> u32 \<Rightarrow> u32 \<Rightarrow> u32 \<Rightarrow> u32 \<Rightarrow> kheap \<Rightarrow> kheap" where
  "init_bufs 0 i fb slab sz s = s"
| "init_bufs (Suc n) i fb slab sz s =
     (let s = upd_buf fb (\<lambda>b. b\<lparr>b_slab := slab\<rparr>) s;
          next = fb + sizeof_Buf + sz;
          s = (if i < s_tot (slabs s slab)
               then upd_buf fb (\<lambda>b. b\<lparr>b_next_free := next\<rparr>) s
               else upd_buf fb (\<lambda>b. b\<lparr>b_next_free := 0\<rparr>) s)
      in init_bufs n (i + 1) next slab sz s)"

definition createSlab :: "u32 \<Rightarrow> bool \<Rightarrow> kheap \<Rightarrow> (u32 \<times> kheap) result" where
  "createSlab sz no_sleep s =
     res_bind (if no_sleep then kalloc_nosleep 0 (pages s) else kalloc_page 0 (pages s)) (\<lambda>(slab, p).
     let s = s\<lparr>pages := p\<rparr>;
         s = upd_slab slab (\<lambda>x. x\<lparr>s_size := sz, s_alloc := 0,
               s_tot := (PAGE_SIZE - sizeof_Slab) div (sz + sizeof_Buf) - 1,
               s_fingerprint := SLAB_FINGERPRINT, s_pinned := False, s_last_used := 0\<rparr>) s;
         fb = slab + sizeof_Slab;
         s = upd_slab slab (\<lambda>x. x\<lparr>s_first_free := fb\<rparr>) s;
         s = init_bufs (unat (s_tot (slabs s slab)) + 1) 0 fb slab sz s;
         s = on_cache (LIST_INIT (SlabHead slab)) s in
     res_bind (take_lock (slab_lock s)) (\<lambda>l.
       let s = s\<lparr>slab_lock := l\<rparr>;
           s = on_cache (list_add_tail CacheFree (SlabHead slab)) s
       in Inr (slab, s\<lparr>slab_lock := LOCK_FREE\<rparr>)))"

section \<open>salloc and sfree\<close>

text \<open>The result 0 is NULL. A slab without a free buffer makes \<^verbatim>\<open>salloc\<close> return at once, with the
  lock kept.\<close>

definition salloc :: "u32 \<Rightarrow> kheap \<Rightarrow> (u32 \<times> kheap) result" where
  "salloc sz s =
     res_bind (take_lock (slab_lock s)) (\<lambda>l.
     let s = s\<lparr>slab_lock := l\<rparr> in
     res_bind (search_list CacheUsed sz s) (\<lambda>used.
     case used of
       Some a \<Rightarrow>
         let out = s_first_free (slabs s a)
         in if out = 0 then Inr (0, s)
            else
              let s = upd_slab a (\<lambda>x. x\<lparr>s_alloc := s_alloc x + 1\<rparr>) s;
                  s = upd_slab a (\<lambda>x. x\<lparr>s_first_free := b_next_free (bufs s out)\<rparr>) s;
                  s = upd_buf out (\<lambda>b. b\<lparr>b_next_free := 0\<rparr>) s;
                  s = (if s_alloc (slabs s a) \<ge> s_tot (slabs s a)
                       then
                         let s = upd_slab a (\<lambda>x. x\<lparr>s_alloc := s_tot x\<rparr>) s;
                             s = on_cache (list_remove (SlabHead a)) s
                         in on_cache (list_add_tail CacheEmpty (SlabHead a)) s
                       else s)
              in Inr (out + sizeof_Buf, s\<lparr>slab_lock := LOCK_FREE\<rparr>)
     | None \<Rightarrow>
         res_bind (search_list CacheFree sz s) (\<lambda>free.
         case free of
           Some a \<Rightarrow>
             let out = s_first_free (slabs s a)
             in if out = 0 then Inr (0, s)
                else
                  let s = upd_slab a (\<lambda>x. x\<lparr>s_alloc := s_alloc x + 1\<rparr>) s;
                      s = upd_slab a (\<lambda>x. x\<lparr>s_first_free := b_next_free (bufs s out)\<rparr>) s;
                      s = upd_buf out (\<lambda>b. b\<lparr>b_next_free := 0\<rparr>) s;
                      s = on_cache (list_remove (SlabHead a)) s;
                      s = on_cache (list_add_tail CacheUsed (SlabHead a)) s
                  in Inr (out + sizeof_Buf, s\<lparr>slab_lock := LOCK_FREE\<rparr>)
         | None \<Rightarrow> Inr (0, s\<lparr>slab_lock := LOCK_FREE\<rparr>))))"

definition sfree :: "u32 \<Rightarrow> kheap \<Rightarrow> (bool \<times> kheap) result" where
  "sfree b s =
     res_bind (take_lock (slab_lock s)) (\<lambda>l.
     let s = s\<lparr>slab_lock := l\<rparr>;
         bf = b - sizeof_Buf
     in if \<not> is_kernel_addr bf then Inr (False, s\<lparr>slab_lock := LOCK_FREE\<rparr>)
        else
          let a = b_slab (bufs s bf)
          in if \<not> is_kernel_addr a \<or> s_fingerprint (slabs s a) \<noteq> SLAB_FINGERPRINT \<or>
                s_alloc (slabs s a) \<le> 0
             then Inr (False, s\<lparr>slab_lock := LOCK_FREE\<rparr>)
             else
               let s = upd_slab a (\<lambda>x. x\<lparr>s_alloc := s_alloc x - 1\<rparr>) s;
                   s = upd_buf bf (\<lambda>y. y\<lparr>b_next_free := s_first_free (slabs s a)\<rparr>) s;
                   s = upd_slab a (\<lambda>x. x\<lparr>s_first_free := bf\<rparr>) s;
                   s = upd_slab a (\<lambda>x. x\<lparr>s_last_used := ucast (tick_count s)\<rparr>) s;
                   s = on_cache (list_remove (SlabHead a)) s;
                   s = (if s_alloc (slabs s a) = 0
                        then on_cache (list_add_tail CacheFree (SlabHead a)) s
                        else on_cache (list_add_head CacheUsed (SlabHead a)) s)
               in Inr (True, s\<lparr>slab_lock := LOCK_FREE\<rparr>))"

section \<open>kmalloc and kfree\<close>

definition kmalloc :: "u32 \<Rightarrow> kheap \<Rightarrow> (u32 \<times> kheap) result" where
  "kmalloc sz s =
     (if sz \<le> MAX_SLAB_SIZE then
        let sz = (if sz < 4 then 4 else sz) in
        res_bind (salloc sz s) (\<lambda>(out, s).
          if out \<noteq> 0 then Inr (out, s)
          else res_bind (createSlab sz False s) (\<lambda>(_, s). salloc sz s))
      else
        res_bind (kalloc_page (unat (calc_page_order sz)) (pages s)) (\<lambda>(out, p).
          Inr (out, s\<lparr>pages := p\<rparr>)))"

definition kfree :: "u32 \<Rightarrow> kheap \<Rightarrow> kheap result" where
  "kfree b s =
     res_bind (sfree b s) (\<lambda>(freed, s).
       if \<not> freed then res_bind (kfree_page b (pages s)) (\<lambda>p. Inr (s\<lparr>pages := p\<rparr>))
       else Inr s)"

section \<open>init_slab_cache\<close>

text \<open>
  \<^verbatim>\<open>make_lock_nosleep\<close> takes a page for the lock and one for its wait queue; the three locks of the
  cache are never taken. The sizes are those of \<^verbatim>\<open>Thread\<close> (164), \<^verbatim>\<open>Lock\<close> (24) and \<^verbatim>\<open>WaitQ\<close> (8)
  on the 32-bit target.
\<close>

definition make_lock_pages :: "kheap \<Rightarrow> kheap result" where
  "make_lock_pages s =
     res_bind (kalloc_nosleep 0 (pages s)) (\<lambda>(_, p).
     res_bind (kalloc_nosleep 0 p) (\<lambda>(_, p). Inr (s\<lparr>pages := p\<rparr>)))"

fun create_slabs :: "(u32 \<times> bool) list \<Rightarrow> kheap \<Rightarrow> kheap result" where
  "create_slabs [] s = Inr s"
| "create_slabs ((sz, pin) # rest) s =
     res_bind (createSlab sz True s) (\<lambda>(a, s).
       create_slabs rest (if pin then upd_slab a (\<lambda>x. x\<lparr>s_pinned := True\<rparr>) s else s))"

definition init_slab_cache :: "kheap \<Rightarrow> kheap result" where
  "init_slab_cache s =
     (let s = on_cache (LIST_INIT CacheFree) s;
          s = on_cache (LIST_INIT CacheEmpty) s;
          s = on_cache (LIST_INIT CacheUsed) s in
      res_bind (make_lock_pages s) (\<lambda>s.
      res_bind (make_lock_pages s) (\<lambda>s.
      res_bind (make_lock_pages s) (\<lambda>s.
        create_slabs [(4, False), (8, False), (16, False), (32, False), (64, False), (128, False),
          (164, True), (24, True), (8, True), (256, False), (512, False)] s))))"

end
