(* ===== verification/Paging.thy ===== *)
theory Paging
  imports Slab
begin

text \<open>
  \<^verbatim>\<open>mem/page.h\<close>, \<^verbatim>\<open>mem/paging.c\<close> and \<^verbatim>\<open>mem/vma.c\<close>: page table entries, the memory areas of a
  process, the page fault handler and the set-up of the kernel's and the processes' page
  directories. Page directories and page tables are arrays of 32-bit words in memory; \<open>words a\<close> is
  the word at the (aligned) kernel address \<open>a\<close>.
\<close>

section \<open>Page table entries\<close>

type_synonym Pte = u32

definition PD_SIZE :: nat where "PD_SIZE = 1024"
definition PT_SIZE :: nat where "PT_SIZE = 1024"
definition KERNEL_LOWEST_PDIR :: nat where "KERNEL_LOWEST_PDIR = 768"

definition setReadWrite :: "Pte \<Rightarrow> Pte" where "setReadWrite x = x OR push_bit 1 1"
definition setPfn :: "u32 \<Rightarrow> Pte \<Rightarrow> Pte" where "setPfn pfn x = (x AND 0xFFF) OR push_bit 12 pfn"
definition setPresent :: "Pte \<Rightarrow> Pte" where "setPresent x = x OR push_bit 0 1"
definition setUsermode :: "Pte \<Rightarrow> Pte" where "setUsermode x = x OR push_bit 2 1"
definition isPresent :: "Pte \<Rightarrow> bool" where "isPresent x \<longleftrightarrow> x AND 1 \<noteq> 0"
definition isUsermode :: "Pte \<Rightarrow> bool" where "isUsermode x \<longleftrightarrow> x AND 4 \<noteq> 0"

section \<open>State\<close>

text \<open>The areas of the memory descriptor at \<open>m\<close> are linked at \<open>VmAreas m\<close>; an area at \<open>a\<close> is
  linked through its node \<open>VmArea a\<close>.\<close>

datatype vnode = VmAreas u32 | VmArea u32

record vma =
  v_type :: u32
  v_start :: u32
  v_end :: u32
  v_phys_start :: u32
  v_size :: u32
  v_flags :: u32

record pgstate =
  kheap :: kheap
  words :: "u32 \<Rightarrow> u32"
  kernel_page_directory :: u32
  pdPhysical :: u32
  vmas :: "u32 \<Rightarrow> vma"
  vm_lists :: "vnode list_heap"

text \<open>What the handlers read of \<^verbatim>\<open>current_thread\<close>; \<open>None\<close> is NULL.\<close>

record pthread =
  t_page_dir :: u32
  t_mem :: u32

definition entry :: "u32 \<Rightarrow> u32 \<Rightarrow> u32" where
  "entry table i = table + 4 * i"

definition upd_word :: "u32 \<Rightarrow> (u32 \<Rightarrow> u32) \<Rightarrow> pgstate \<Rightarrow> pgstate" where
  "upd_word a f s = s\<lparr>words := (words s)(a := f (words s a))\<rparr>"

text \<open>\<^verbatim>\<open>memset\<close> of a page to 0, seen by words.\<close>

definition zero_page :: "u32 \<Rightarrow> pgstate \<Rightarrow> pgstate" where
  "zero_page p s = fold (\<lambda>i. upd_word (entry p (word_of_nat i)) (\<lambda>_. 0)) [0..<1024] s"

section \<open>Memory areas\<close>

text \<open>The loops over \<^verbatim>\<open>vm_areas\<close>: the first area that contains the address.\<close>

definition area_body :: "u32 \<Rightarrow> pgstate \<Rightarrow> vnode \<Rightarrow> u32 option result \<Rightarrow> u32 option result \<times> bool" where
  "area_body addr s l found =
     (case l of
        VmArea v \<Rightarrow>
          if addr < v_end (vmas s v) \<and> addr \<ge> v_start (vmas s v)
          then (Inr (Some v), True) else (found, False)
      | VmAreas _ \<Rightarrow> (Inl BadPointer, True))"

definition area_of :: "u32 \<Rightarrow> u32 \<Rightarrow> pgstate \<Rightarrow> u32 option result" where
  "area_of addr mem_desc s =
     res_bind (returns (list_for_each (\<lambda>_. nxt (vm_lists s)) (area_body addr s) (VmAreas mem_desc) (Inr None)))
       (\<lambda>found. found)"

definition calc_pfn :: "u32 \<Rightarrow> u32 \<Rightarrow> pgstate \<Rightarrow> u32 result" where
  "calc_pfn addr mem_desc s =
     res_bind (area_of addr mem_desc s) (\<lambda>found.
       case found of
         Some v \<Rightarrow>
           let virt_offset = addr - v_start (vmas s v);
               phys_addr = v_phys_start (vmas s v) + virt_offset
           in Inr (drop_bit 12 phys_addr)
       | None \<Rightarrow> Inr (- 1))"

definition is_valid_va :: "u32 \<Rightarrow> pthread option \<Rightarrow> pgstate \<Rightarrow> bool result" where
  "is_valid_va va t s =
     (case t of
        None \<Rightarrow> Inr True
      | Some t \<Rightarrow> res_bind (area_of va (t_mem t) s) (\<lambda>found. Inr (found \<noteq> None)))"

definition create_vmregion ::
  "u32 \<Rightarrow> u32 \<Rightarrow> u32 \<Rightarrow> u32 \<Rightarrow> u32 \<Rightarrow> pgstate \<Rightarrow> (u32 \<times> pgstate) result" where
  "create_vmregion base_address end_address phys_start flags type s =
     res_bind (kmalloc 32 (kheap s)) (\<lambda>(out_region, h).
       let s = s\<lparr>kheap := h\<rparr>;
           s = s\<lparr>vmas := (vmas s)(out_region := vma.make (type AND 0xFF) base_address end_address
                  phys_start (end_address - base_address) flags)\<rparr>;
           s = s\<lparr>vm_lists := LIST_INIT (VmArea out_region) (vm_lists s)\<rparr>
       in Inr (out_region, s))"

section \<open>The page fault handler\<close>

text \<open>
  The handler either returns (\<open>Handled\<close>) or goes to \<^verbatim>\<open>bad_area\<close>, where it kills the current
  process and reschedules. A new page table comes from \<^verbatim>\<open>fmalloc\<close>.
\<close>

datatype fault_outcome = Handled | BadArea

definition PF_P :: u32 where "PF_P = 1"
definition PF_W :: u32 where "PF_W = 2"
definition PF_U :: u32 where "PF_U = 4"

definition map_page :: "u32 \<Rightarrow> u32 \<Rightarrow> bool \<Rightarrow> pgstate \<Rightarrow> pgstate" where
  "map_page a pfn usermode s =
     (let s = upd_word a (setPfn pfn) s;
          s = upd_word a setPresent s;
          s = upd_word a setReadWrite s
      in if usermode then upd_word a setUsermode s else s)"

definition pageFaultHandler ::
  "u32 \<Rightarrow> u32 \<Rightarrow> pthread option \<Rightarrow> pgstate \<Rightarrow> (fault_outcome \<times> pgstate) result" where
  "pageFaultHandler fault_address err_code current_thread s =
     (let perm_violation = (err_code AND PF_P) \<noteq> 0;
          usermode = (err_code AND PF_U) \<noteq> 0;
          kernel_addr = is_kernel_addr fault_address;
          pd_pos = drop_bit 22 fault_address;
          pte_pos = drop_bit 12 fault_address AND 0x3FF in
      case current_thread of
        None \<Rightarrow> Inl BadPointer
      | Some t \<Rightarrow>
          res_bind (calc_pfn fault_address (t_mem t) s) (\<lambda>pfn.
          let thread_pgdir = VA (t_page_dir t) in
          if perm_violation \<or> (usermode \<and> kernel_addr) then Inr (BadArea, s)
          else
            res_bind (if usermode then is_valid_va fault_address (Some t) s else Inr True) (\<lambda>valid.
            if \<not> valid then Inr (BadArea, s)
            else if isPresent (words s (entry thread_pgdir pd_pos)) then
              let pte = VA (words s (entry thread_pgdir pd_pos) AND 0xFFFFF000)
              in if \<not> isPresent (words s (entry pte pte_pos))
                 then Inr (Handled, map_page (entry pte pte_pos) pfn usermode s)
                 else Inr (Handled, s)
            else
              res_bind (fmalloc PAGE_SIZE (pages (kheap s))) (\<lambda>(newPte, k).
                let s = s\<lparr>kheap := (kheap s)\<lparr>pages := k\<rparr>\<rparr>;
                    s = zero_page newPte s;
                    s = map_page (entry newPte pte_pos) pfn usermode s;
                    pde_phys = PA newPte;
                    pde_phys = setReadWrite pde_phys;
                    pde_phys = setPresent pde_phys;
                    pde_phys = (if usermode then setUsermode pde_phys else pde_phys);
                    s = upd_word (entry thread_pgdir pd_pos) (\<lambda>_. pde_phys) s
                in Inr (Handled,
                     if \<not> usermode
                     then upd_word (entry (kernel_page_directory s) pd_pos) (\<lambda>_. pde_phys) s
                     else s)))))"

section \<open>The page directories\<close>

definition make_kernel_pte :: "u32 \<Rightarrow> pgstate \<Rightarrow> (u32 \<times> pgstate) result" where
  "make_kernel_pte pdRow s =
     (let baseFrameNumber = pdRow * 1024 in
      res_bind (kalloc_nosleep 0 (pages (kheap s))) (\<lambda>(pte, k).
        let s = s\<lparr>kheap := (kheap s)\<lparr>pages := k\<rparr>\<rparr>;
            s = zero_page pte s;
            s = fold (\<lambda>i s.
                  let a = entry pte (word_of_nat i);
                      s = upd_word a (setPfn (baseFrameNumber + word_of_nat i)) s;
                      s = upd_word a setPresent s
                  in upd_word a setReadWrite s) [0..<PT_SIZE] s
        in Inr (pte, s)))"

definition init_user_paging :: "u32 \<Rightarrow> pgstate \<Rightarrow> pgstate" where
  "init_user_paging user_pd s =
     fold (\<lambda>i s.
       let k = words s (entry (kernel_page_directory s) (word_of_nat i))
       in if k \<noteq> 0
          then upd_word (entry user_pd (word_of_nat i)) (\<lambda>_. setReadWrite (setPresent k)) s
          else upd_word (entry user_pd (word_of_nat i)) (\<lambda>_. 0) s) [0..<PD_SIZE] s"

fun init_kernel_rows :: "nat list \<Rightarrow> pgstate \<Rightarrow> pgstate result" where
  "init_kernel_rows [] s = Inr s"
| "init_kernel_rows (i # is) s =
     (if i = 0 then
        res_bind (make_kernel_pte (word_of_nat i) s) (\<lambda>(pte, s).
          init_kernel_rows is (upd_word (entry (kernel_page_directory s) (word_of_nat i))
            (\<lambda>_. setReadWrite (setPresent (PA pte))) s))
      else if i \<ge> KERNEL_LOWEST_PDIR then
        res_bind (make_kernel_pte (word_of_nat (i - KERNEL_LOWEST_PDIR)) s) (\<lambda>(pte, s).
          init_kernel_rows is (upd_word (entry (kernel_page_directory s) (word_of_nat i))
            (\<lambda>_. setReadWrite (setPresent (PA pte))) s))
      else init_kernel_rows is s)"

definition init_kernel_paging :: "pgstate \<Rightarrow> pgstate result" where
  "init_kernel_paging s =
     res_bind (init_kernel_rows [0..<PD_SIZE] s) (\<lambda>s.
       Inr (s\<lparr>pdPhysical := PA (kernel_page_directory s)\<rparr>))"

end
