(* ===== verification/Buddy_Inv.thy ===== *)
theory Buddy_Inv
  imports Buddy
begin

text \<open>
  The correctness of the buddy allocator. \<open>tiling\<close> says that a set of blocks cuts the region into
  aligned pieces; \<open>buddy_inv d A\<close> is the invariant of a descriptor \<open>d\<close> whose allocated blocks
  are \<open>A\<close>, the ghost state that the code itself does not keep.
\<close>

section \<open>Tilings\<close>

definition covers :: "(nat \<Rightarrow> nat) \<Rightarrow> nat \<Rightarrow> nat \<Rightarrow> bool" where
  "covers ord p i \<longleftrightarrow> p \<le> i \<and> i < p + 2 ^ ord p"

definition tiling :: "nat set \<Rightarrow> (nat \<Rightarrow> nat) \<Rightarrow> nat \<Rightarrow> bool" where
  "tiling H ord n \<longleftrightarrow>
     (\<forall>p\<in>H. ord p \<le> MAX_ORDER \<and> 2 ^ ord p dvd p \<and> p + 2 ^ ord p \<le> n) \<and>
     (\<forall>i<n. \<exists>p\<in>H. covers ord p i) \<and>
     (\<forall>p\<in>H. \<forall>q\<in>H. \<forall>i. covers ord p i \<and> covers ord q i \<longrightarrow> p = q)"

lemma tilingD:
  assumes "tiling H ord n" "p \<in> H"
  shows "ord p \<le> MAX_ORDER" "2 ^ ord p dvd p" "p + 2 ^ ord p \<le> n" "p < n"
  using assms by (auto simp: tiling_def intro: less_le_trans[of p "p + 2 ^ ord p" n])

lemma tiling_overlap:
  "tiling H ord n \<Longrightarrow> p \<in> H \<Longrightarrow> q \<in> H \<Longrightarrow> covers ord p i \<Longrightarrow> covers ord q i \<Longrightarrow> p = q"
  unfolding tiling_def by blast

lemma tiling_cover:
  "tiling H ord n \<Longrightarrow> i < n \<Longrightarrow> \<exists>p\<in>H. covers ord p i"
  unfolding tiling_def by blast

lemma tilingI:
  assumes "\<And>p. p \<in> H \<Longrightarrow> ord p \<le> MAX_ORDER \<and> 2 ^ ord p dvd p \<and> p + 2 ^ ord p \<le> n"
    and "\<And>i. i < n \<Longrightarrow> \<exists>p\<in>H. covers ord p i"
    and "\<And>p q i. p \<in> H \<Longrightarrow> q \<in> H \<Longrightarrow> covers ord p i \<Longrightarrow> covers ord q i \<Longrightarrow> p = q"
  shows "tiling H ord n"
  using assms unfolding tiling_def by blast

lemma tiling_cong:
  "tiling H ord n \<Longrightarrow> (\<And>p. p \<in> H \<Longrightarrow> ord' p = ord p) \<Longrightarrow> tiling H ord' n"
  unfolding tiling_def covers_def by simp

text \<open>Splitting a block in two halves, and merging two halves back.\<close>

lemma tiling_split:
  assumes t: "tiling H ord n" and p: "p \<in> H" and o: "ord p = Suc o'"
    and ord': "ord' p = o'" "ord' (p + 2 ^ o') = o'"
      "\<And>q. q \<in> H - {p, p + 2 ^ o'} \<Longrightarrow> ord' q = ord q"
  shows "p + 2 ^ o' \<notin> H" "tiling (insert (p + 2 ^ o') H) ord' n"
proof -
  let ?b = "p + 2 ^ o'"
  have cp: "covers ord p i \<longleftrightarrow> covers ord' p i \<or> covers ord' ?b i" for i
    using o ord' by (auto simp: covers_def)
  have dj: "\<not> (covers ord' p i \<and> covers ord' ?b i)" for i
    using ord' by (auto simp: covers_def)
  show nb: "?b \<notin> H"
  proof
    assume b: "?b \<in> H"
    have "covers ord p ?b" "covers ord ?b ?b" by (auto simp: covers_def o)
    from tiling_overlap[OF t p b this] show False by simp
  qed
  have cq: "covers ord' q i = covers ord q i" if "q \<in> H - {p}" for q i
  proof -
    have "q \<noteq> ?b" using that nb by blast
    with that have "ord' q = ord q" by (intro ord'(3)) blast
    then show ?thesis by (simp add: covers_def)
  qed
  note tp = tilingD[OF t p]
  show "tiling (insert ?b H) ord' n"
  proof (rule tilingI)
    fix q assume q: "q \<in> insert ?b H"
    have al: "2 ^ o' dvd p" using tp(2) unfolding o by (auto elim: dvd_mult_right simp: mult.commute)
    consider "q = p" | "q = ?b" | "q \<in> H - {p}" using q by blast
    then show "ord' q \<le> MAX_ORDER \<and> 2 ^ ord' q dvd q \<and> q + 2 ^ ord' q \<le> n"
    proof cases
      case 3
      then have "ord' q = ord q" using ord'(3)[of q] nb by auto
      with 3 show ?thesis using tilingD[OF t, of q] by simp
    qed (use tp o ord' al in auto)
  next
    fix i assume "i < n"
    from tiling_cover[OF t this] obtain q where "q \<in> H" "covers ord q i" by blast
    then show "\<exists>q\<in>insert ?b H. covers ord' q i"
      using cp cq by (cases "q = p") blast+
  next
    fix q r i assume qr: "q \<in> insert ?b H" "r \<in> insert ?b H" "covers ord' q i" "covers ord' r i"
    have old: "\<exists>s\<in>H. covers ord s i \<and> (s = p \<longrightarrow> q = p \<or> q = ?b) \<and> (s \<noteq> p \<longrightarrow> s = q)"
      if "q \<in> insert ?b H" "covers ord' q i" for q
      using that p cp cq by (cases "q = p \<or> q = ?b") blast+
    from old[OF qr(1,3)] old[OF qr(2,4)] obtain s s' where
      s: "s \<in> H" "covers ord s i" "s = p \<longrightarrow> q = p \<or> q = ?b" "s \<noteq> p \<longrightarrow> s = q" and
      s': "s' \<in> H" "covers ord s' i" "s' = p \<longrightarrow> r = p \<or> r = ?b" "s' \<noteq> p \<longrightarrow> s' = r"
      by blast
    have "s = s'" by (rule tiling_overlap[OF t s(1) s'(1) s(2) s'(2)])
    with s s' qr(3,4) dj show "q = r" by blast
  qed
qed

lemma tiling_merge:
  assumes t: "tiling H ord n" and p: "p \<in> H" and b: "p + 2 ^ o' \<in> H"
    and o: "ord p = o'" "ord (p + 2 ^ o') = o'" "o' < MAX_ORDER" "2 ^ Suc o' dvd p"
    and ord': "ord' p = Suc o'" "\<And>q. q \<in> H - {p, p + 2 ^ o'} \<Longrightarrow> ord' q = ord q"
  shows "tiling (H - {p + 2 ^ o'}) ord' n"
proof -
  let ?b = "p + 2 ^ o'"
  have cp: "covers ord' p i \<longleftrightarrow> covers ord p i \<or> covers ord ?b i" for i
    using o ord' by (auto simp: covers_def)
  have cq: "covers ord' q i = covers ord q i" if "q \<in> H - {p, ?b}" for q i
    using ord'(2)[OF that] by (simp add: covers_def)
  show ?thesis
  proof (rule tilingI)
    fix q assume "q \<in> H - {?b}"
    then show "ord' q \<le> MAX_ORDER \<and> 2 ^ ord' q dvd q \<and> q + 2 ^ ord' q \<le> n"
      using tilingD[OF t, of q] tilingD[OF t b] o ord' by (cases "q = p") (auto simp: add.assoc)
  next
    fix i assume "i < n"
    from tiling_cover[OF t this] obtain q where "q \<in> H" "covers ord q i" by blast
    moreover have "p \<noteq> ?b" by simp
    ultimately show "\<exists>q\<in>H - {?b}. covers ord' q i"
      using cp cq p by (cases "q = p \<or> q = ?b") blast+
  next
    fix q r i assume qr: "q \<in> H - {?b}" "r \<in> H - {?b}" "covers ord' q i" "covers ord' r i"
    have old: "\<exists>s\<in>H. covers ord s i \<and> (if q = p then s = p \<or> s = ?b else s = q)"
      if "q \<in> H - {?b}" "covers ord' q i" for q
      using that p b cp cq by (cases "q = p") auto
    from old[OF qr(1,3)] old[OF qr(2,4)] obtain s s' where
      "s \<in> H" "covers ord s i" "if q = p then s = p \<or> s = ?b else s = q"
      "s' \<in> H" "covers ord s' i" "if r = p then s' = p \<or> s' = ?b else s' = r"
      by blast
    moreover from this have "s = s'" using tiling_overlap[OF t] by blast
    ultimately show "q = r" using qr(1,2) by (auto split: if_splits)
  qed
qed

section \<open>Buddies\<close>

definition buddy_of :: "nat \<Rightarrow> nat \<Rightarrow> nat" where
  "buddy_of p o' = (if (p div 2 ^ o') mod 2 = 0 then p + 2 ^ o' else p - 2 ^ o')"

lemma calc_my_buddy_new_pfn_buddy_of: "calc_my_buddy_new_pfn b o' = buddy_of (b_pfn b) o'"
  by (simp add: calc_my_buddy_new_pfn_def buddy_of_def PAGES_PER_BLOCK_def)

lemma buddy_of_cases:
  assumes "2 ^ o' dvd (p::nat)"
  obtains (lower) "2 ^ Suc o' dvd p" "buddy_of p o' = p + 2 ^ o'"
    | (upper) q where "p = q + 2 ^ o'" "2 ^ Suc o' dvd q" "buddy_of p o' = q"
proof -
  from assms obtain k where k: "p = 2 ^ o' * k" by (elim dvdE)
  then have d: "p div 2 ^ o' = k" by simp
  show thesis
  proof (cases "even k")
    case True
    then have "2 ^ Suc o' dvd p" using k by (simp add: mult_dvd_mono mult.commute)
    then show ?thesis using lower d True by (simp add: buddy_of_def even_iff_mod_2_eq_zero)
  next
    case False
    then obtain m where m: "k = 2 * m + 1" by (elim oddE)
    show ?thesis
    proof (rule upper)
      show "p = (2 ^ Suc o' * m) + 2 ^ o'" using k m by (simp add: algebra_simps)
      show "buddy_of p o' = 2 ^ Suc o' * m" using d False k m
        by (simp add: buddy_of_def even_iff_mod_2_eq_zero algebra_simps)
    qed simp
  qed
qed

lemma buddy_of_upper:
  assumes "2 ^ Suc o' dvd (q::nat)"
  shows "buddy_of (q + 2 ^ o') o' = q"
proof -
  from assms obtain k where k: "q = 2 ^ Suc o' * k" by (elim dvdE)
  then have "q + 2 ^ o' = 2 ^ o' * (2 * k + 1)" by (simp add: algebra_simps)
  then have "(q + 2 ^ o') div 2 ^ o' = 2 * k + 1" by (metis nonzero_mult_div_cancel_left power_not_zero zero_neq_numeral)
  then show ?thesis by (simp add: buddy_of_def)
qed

lemma buddy_of_lower:
  assumes "2 ^ Suc o' dvd (p::nat)"
  shows "buddy_of p o' = p + 2 ^ o'"
proof -
  from assms obtain k where "p = 2 ^ o' * (2 * k)" by (elim dvdE) (simp add: algebra_simps)
  then have "p div 2 ^ o' = 2 * k" by simp
  then show ?thesis by (simp add: buddy_of_def)
qed

lemma buddy_of_invol: "2 ^ o' dvd p \<Longrightarrow> buddy_of (buddy_of p o') o' = p"
  by (erule buddy_of_cases) (auto simp: buddy_of_upper buddy_of_lower)

lemma buddy_of_neq: "2 ^ o' dvd p \<Longrightarrow> buddy_of p o' \<noteq> p"
  by (erule buddy_of_cases) auto

lemma buddy_of_aligned: "2 ^ o' dvd p \<Longrightarrow> 2 ^ o' dvd buddy_of p o'"
  by (erule buddy_of_cases) (auto elim: power_le_dvd)

lemma buddy_of_less:
  assumes "2 ^ o' dvd p" "p < n" "2 ^ Suc o' dvd n"
  shows "buddy_of p o' < n"
  using assms(1)
proof (cases rule: buddy_of_cases)
  case lower
  from lower(1) assms(3) obtain a b where ab: "p = 2 ^ Suc o' * a" "n = 2 ^ Suc o' * b" by (elim dvdE)
  with assms(2) have "a < b" by simp
  then have "2 ^ Suc o' * Suc a \<le> 2 ^ Suc o' * b" by (intro mult_le_mono) auto
  then have "p + 2 ^ Suc o' \<le> n" using ab by simp
  moreover have "(2::nat) ^ o' < 2 ^ Suc o'" by simp
  ultimately show ?thesis using lower(2) by linarith
next
  case (upper q)
  then show ?thesis using assms(2) by simp
qed

section \<open>The invariant\<close>

definition free_set :: "buddy_mem_desc \<Rightarrow> nat set" where
  "free_set d = {p. p < tot_pages d \<and> b_free (blk d p)}"

definition order_of :: "buddy_mem_desc \<Rightarrow> nat \<Rightarrow> nat" where
  "order_of d p = b_order (blk d p)"

definition lists_inv :: "buddy_mem_desc \<Rightarrow> (bnode \<Rightarrow> bnode list) \<Rightarrow> bool" where
  "lists_inv d ls \<longleftrightarrow>
     rings (free_lists d) (FreeList ` {..MAX_ORDER}) ls \<and>
     (\<forall>o'\<le>MAX_ORDER. set (ls (FreeList o')) = Block ` {p \<in> free_set d. order_of d p = o'})"

definition coalesced :: "buddy_mem_desc \<Rightarrow> bool" where
  "coalesced d \<longleftrightarrow>
     (\<forall>p \<in> free_set d. order_of d p < MAX_ORDER \<longrightarrow>
        buddy_of p (order_of d p) \<in> free_set d \<longrightarrow>
        order_of d (buddy_of p (order_of d p)) \<noteq> order_of d p)"

definition buddy_inv :: "buddy_mem_desc \<Rightarrow> nat set \<Rightarrow> bool" where
  "buddy_inv d A \<longleftrightarrow>
     length (all_buddies d) = tot_pages d \<and> 2 ^ MAX_ORDER dvd tot_pages d \<and>
     (\<forall>i<tot_pages d. b_pfn (blk d i) = i) \<and>
     A \<inter> free_set d = {} \<and>
     tiling (A \<union> free_set d) (order_of d) (tot_pages d) \<and>
     (\<exists>ls. lists_inv d ls) \<and>
     coalesced d"

lemma buddy_invD:
  assumes "buddy_inv d A"
  shows "length (all_buddies d) = tot_pages d" "2 ^ MAX_ORDER dvd tot_pages d"
    "\<And>i. i < tot_pages d \<Longrightarrow> b_pfn (blk d i) = i" "A \<inter> free_set d = {}"
    "tiling (A \<union> free_set d) (order_of d) (tot_pages d)" "\<exists>ls. lists_inv d ls" "coalesced d"
  using assms by (simp_all add: buddy_inv_def)

text \<open>How the small steps of the code read on the views \<open>free_set\<close> and \<open>order_of\<close>.\<close>

named_theorems buddy_views

lemma views_set_block [buddy_views]:
  "tot_pages (set_block i f d) = tot_pages d"
  "pfn_offset (set_block i f d) = pfn_offset d"
  "free_lists (set_block i f d) = free_lists d"
  "length (all_buddies (set_block i f d)) = length (all_buddies d)"
  "i < length (all_buddies d) \<Longrightarrow>
     blk (set_block i f d) j = (if j = i then f (blk d i) else blk d j)"
  by (simp_all add: set_block_def)

lemma views_on_lists [buddy_views]:
  "tot_pages (on_lists g d) = tot_pages d"
  "pfn_offset (on_lists g d) = pfn_offset d"
  "all_buddies (on_lists g d) = all_buddies d"
  "free_lists (on_lists g d) = g (free_lists d)"
  by (simp_all add: on_lists_def)

lemma lists_inv_head:
  assumes "lists_inv d ls" "o' \<le> MAX_ORDER"
  shows "nxt (free_lists d) (FreeList o') =
     (case ls (FreeList o') of [] \<Rightarrow> FreeList o' | x # _ \<Rightarrow> x)"
  using assms by (intro ring_next rings_ring) (auto simp: lists_inv_def)

lemma lists_inv_linked:
  assumes "lists_inv d ls"
  shows "linked (FreeList ` {..MAX_ORDER}) ls \<subseteq>
     FreeList ` {..MAX_ORDER} \<union> Block ` {p \<in> free_set d. order_of d p \<le> MAX_ORDER}"
  using assms by (auto simp: lists_inv_def linked_def)

text \<open>Taking a free block off its list.\<close>

lemma lists_inv_take:
  assumes l: "lists_inv d ls" and i: "i \<in> free_set d" "order_of d i \<le> MAX_ORDER"
    and d': "free_lists d' = list_remove (Block i) (free_lists d)"
      "free_set d' = free_set d - {i}" "\<And>p. p \<in> free_set d' \<Longrightarrow> order_of d' p = order_of d p"
  shows "\<exists>ls'. lists_inv d' ls'"
proof -
  let ?h = "FreeList (order_of d i)"
  have r: "rings (free_lists d) (FreeList ` {..MAX_ORDER}) ls" and
    s: "\<And>o'. o' \<le> MAX_ORDER \<Longrightarrow> set (ls (FreeList o')) = Block ` {p \<in> free_set d. order_of d p = o'}"
    using l by (auto simp: lists_inv_def)
  have m: "Block i \<in> set (ls ?h)" using s[OF i(2)] i by auto
  have h: "?h \<in> FreeList ` {..MAX_ORDER}" using i(2) by simp
  let ?ls = "ls(?h := remove1 (Block i) (ls ?h))"
  have "rings (free_lists d') (FreeList ` {..MAX_ORDER}) ?ls"
    using lists.rep_remove[OF r h m] d' by simp
  moreover have "set (?ls (FreeList o')) = Block ` {p \<in> free_set d'. order_of d' p = o'}"
    if "o' \<le> MAX_ORDER" for o'
  proof -
    have "{p \<in> free_set d'. order_of d' p = o'} = {p \<in> free_set d. order_of d p = o'} - {i}"
      using d' by auto
    then have "Block ` {p \<in> free_set d'. order_of d' p = o'} =
        Block ` {p \<in> free_set d. order_of d p = o'} - {Block i}"
      by (simp add: image_set_diff inj_def)
    then show ?thesis
      using s[OF that] rings_distinct[OF r h] by (cases "o' = order_of d i") auto
  qed
  ultimately show ?thesis unfolding lists_inv_def by blast
qed

text \<open>Putting a block on the list of its order.\<close>

lemma lists_inv_put:
  assumes l: "lists_inv d ls" and i: "i \<notin> free_set d" "o' \<le> MAX_ORDER"
    and d': "free_lists d' = list_add_head (FreeList o') (Block i) (free_lists d)"
      "free_set d' = insert i (free_set d)" "order_of d' i = o'"
      "\<And>p. p \<in> free_set d \<Longrightarrow> order_of d' p = order_of d p"
  shows "\<exists>ls'. lists_inv d' ls'"
proof -
  let ?h = "FreeList o'" and ?ls = "ls(FreeList o' := Block i # ls (FreeList o'))"
  have r: "rings (free_lists d) (FreeList ` {..MAX_ORDER}) ls" and
    s: "\<And>o'. o' \<le> MAX_ORDER \<Longrightarrow> set (ls (FreeList o')) = Block ` {p \<in> free_set d. order_of d p = o'}"
    using l by (auto simp: lists_inv_def)
  have "Block i \<notin> linked (FreeList ` {..MAX_ORDER}) ls"
    using lists_inv_linked[OF l] i by auto
  then have "rings (free_lists d') (FreeList ` {..MAX_ORDER}) ?ls"
    using lists.rep_add_head[OF r, of ?h] i(2) d' by simp
  moreover have "set (?ls (FreeList q)) = Block ` {p \<in> free_set d'. order_of d' p = q}"
    if "q \<le> MAX_ORDER" for q
    using s[OF that] d' i(1) by auto
  ultimately show ?thesis unfolding lists_inv_def by blast
qed

section \<open>get_buddy_new\<close>

text \<open>The block taken from the list of its own order.\<close>

lemma buddy_inv_take:
  assumes inv: "buddy_inv d A" and i: "i \<in> free_set d"
  defines "d' \<equiv> on_lists (list_remove (Block i)) (set_block i (\<lambda>b. b\<lparr>b_free := False\<rparr>) d)"
  shows "buddy_inv d' (insert i A)" "order_of d' i = order_of d i" "free_set d' = free_set d - {i}"
    "\<And>q. q \<noteq> i \<Longrightarrow> blk d' q = blk d q" "tot_pages d' = tot_pages d" "pfn_offset d' = pfn_offset d"
proof -
  note I = buddy_invD[OF inv]
  have il: "i < length (all_buddies d)" using i I(1) by (simp add: free_set_def)
  show fs: "free_set d' = free_set d - {i}" and oo: "order_of d' i = order_of d i"
    and eq: "\<And>q. q \<noteq> i \<Longrightarrow> blk d' q = blk d q" and n: "tot_pages d' = tot_pages d"
    "pfn_offset d' = pfn_offset d"
    using il by (auto simp: d'_def free_set_def order_of_def buddy_views)
  have ord: "order_of d' = order_of d" 
  proof
    show "order_of d' q = order_of d q" for q using oo eq by (cases "q = i") (auto simp: order_of_def)
  qed
  have H: "insert i A \<union> free_set d' = A \<union> free_set d" using fs i by auto
  obtain ls where ls: "lists_inv d ls" using I(6) by blast
  have "order_of d i \<le> MAX_ORDER" using tilingD(1)[OF I(5)] i by simp
  from lists_inv_take[OF ls i this, of d'] fs ord have "\<exists>ls. lists_inv d' ls"
    by (simp add: d'_def buddy_views)
  moreover have "coalesced d'" using I(7) unfolding coalesced_def fs ord by blast
  moreover have "\<forall>p<tot_pages d. b_pfn (blk d' p) = p"
    using I(3) il by (auto simp: d'_def buddy_views)
  moreover have "insert i A \<inter> free_set d' = {}" using I(4) fs by blast
  ultimately show "buddy_inv d' (insert i A)"
    using I(1,2,5) H ord n by (simp add: buddy_inv_def) (simp add: d'_def buddy_views)
qed

text \<open>The split of an allocated block: its upper half becomes free.\<close>

definition split_block :: "nat \<Rightarrow> nat \<Rightarrow> buddy_mem_desc \<Rightarrow> buddy_mem_desc" where
  "split_block order i d =
     (let d = set_block i (\<lambda>b. b\<lparr>b_order := order\<rparr>) d;
          j = i + 2 ^ order;
          d = set_block j (\<lambda>b. b\<lparr>b_free := True\<rparr>) d;
          d = set_block j (\<lambda>b. b\<lparr>b_order := order\<rparr>) d;
          d = on_lists (list_add_head (FreeList order) (Block j)) d
      in set_block i (\<lambda>b. b\<lparr>b_free := False\<rparr>) d)"

lemma buddy_inv_split:
  assumes inv: "buddy_inv d A" and i: "i \<in> A" "order_of d i = Suc order"
  defines "j \<equiv> i + 2 ^ order" and "d' \<equiv> split_block order i d"
  shows "buddy_inv d' A" "order_of d' i = order" "j < tot_pages d" "j \<notin> A"
    "\<And>q. q \<noteq> i \<Longrightarrow> q \<noteq> j \<Longrightarrow> blk d' q = blk d q"
    "tot_pages d' = tot_pages d" "pfn_offset d' = pfn_offset d"
proof -
  note I = buddy_invD[OF inv]
  have iH: "i \<in> A \<union> free_set d" using i by simp
  note T = tilingD[OF I(5) iH]
  have "i + 2 ^ order < i + 2 ^ Suc order" by simp
  also have "\<dots> \<le> tot_pages d" using T(3) i(2) by simp
  finally show jn: "j < tot_pages d" unfolding j_def .
  have il: "i < length (all_buddies d)" "j < length (all_buddies d)" using T(4) jn I(1) by auto
  have ij: "i \<noteq> j" by (simp add: j_def)
  have ni: "\<not> b_free (blk d i)" using i I(4) T(4) by (auto simp: free_set_def)
  have all: "blk d' q = (if q = i then (blk d i)\<lparr>b_order := order, b_free := False\<rparr>
      else if q = j then (blk d j)\<lparr>b_free := True, b_order := order\<rparr> else blk d q)" for q
    using il ij by (simp add: d'_def split_block_def Let_def j_def[symmetric] buddy_views)
  show n: "tot_pages d' = tot_pages d" "pfn_offset d' = pfn_offset d"
    by (simp_all add: d'_def split_block_def Let_def buddy_views)
  have fs: "free_set d' = insert j (free_set d)"
    using ij ni jn n by (auto simp: free_set_def all)
  have ord: "order_of d' i = order" "order_of d' j = order"
    "\<And>q. q \<noteq> i \<Longrightarrow> q \<noteq> j \<Longrightarrow> order_of d' q = order_of d q"
    using ij by (simp_all add: order_of_def all)
  show "order_of d' i = order" by (rule ord(1))
  show "\<And>q. q \<noteq> i \<Longrightarrow> q \<noteq> j \<Longrightarrow> blk d' q = blk d q" by (simp add: all)
  have ord3: "order_of d' q = order_of d q" if "q \<in> (A \<union> free_set d) - {i, j}" for q
    using that ord(3) by simp
  note sp = tiling_split[OF I(5) iH i(2), folded j_def, OF ord(1,2) ord3]
  show "j \<notin> A" using sp by simp
  obtain ls where ls: "lists_inv d ls" using I(6) by blast
  have om: "order \<le> MAX_ORDER" using T(1) i(2) by simp
  have "\<exists>ls. lists_inv d' ls"
  proof (rule lists_inv_put[OF ls _ om])
    show "free_lists d' = list_add_head (FreeList order) (Block j) (free_lists d)"
      by (simp add: d'_def split_block_def Let_def j_def[symmetric] buddy_views)
    show "order_of d' p = order_of d p" if "p \<in> free_set d" for p
      using that sp(1) i(1) I(4) by (intro ord(3)) blast+
  qed (use sp fs ord in auto)
  moreover have "coalesced d'"
    unfolding coalesced_def
  proof (intro ballI impI notI)
    fix p assume p: "p \<in> free_set d'" "order_of d' p < MAX_ORDER"
      and b: "buddy_of p (order_of d' p) \<in> free_set d'"
      and same: "order_of d' (buddy_of p (order_of d' p)) = order_of d' p"
    have dv: "2 ^ Suc order dvd i" using T(2) i(2) by simp
    have iF: "i \<notin> free_set d'" using fs ij i(1) I(4) by auto
    show False
    proof (cases "p = j")
      case True
      with buddy_of_upper[OF dv] b ord(2) iF show ?thesis by (simp add: j_def)
    next
      case False
      from p(1) fs iF False have pF: "p \<in> free_set d" "p \<noteq> i" by auto
      have pF': "order_of d' p = order_of d p" by (rule ord(3)[OF pF(2) False])
      have al: "2 ^ order_of d p dvd p" using tilingD(2)[OF I(5), of p] pF by simp
      show ?thesis
      proof (cases "buddy_of p (order_of d p) = j")
        case True
        with same pF' ord(2) have "order_of d p = order" by simp
        with True al buddy_of_invol[OF al] buddy_of_upper[OF dv] pF(2) show ?thesis
          by (simp add: j_def)
      next
        case False
        with b pF' fs have bF: "buddy_of p (order_of d p) \<in> free_set d" by simp
        then have "buddy_of p (order_of d p) \<noteq> i" using fs iF by blast
        from ord(3)[OF this False] same pF'
        have "order_of d (buddy_of p (order_of d p)) = order_of d p" by simp
        with I(7) pF(1) p(2) pF' bF show ?thesis
          unfolding coalesced_def by simp
      qed
    qed
  qed
  moreover have "\<forall>p<tot_pages d. b_pfn (blk d' p) = p" using I(3) by (simp add: all)
  ultimately show "buddy_inv d' A"
    using I(1,2,4) sp fs n by (auto simp: buddy_inv_def d'_def split_block_def Let_def buddy_views)
qed

lemma get_buddy_new_spec:
  assumes "buddy_inv d A" "order \<le> MAX_ORDER"
  shows "case get_buddy_new order d of
      Inl e \<Rightarrow> e = Panic ''No more buddy blocks available'' \<and>
        (\<forall>p\<in>free_set d. order_of d p < order)
    | Inr (p, d') \<Rightarrow> p \<notin> A \<and> buddy_inv d' (insert p A) \<and> order_of d' p = order \<and>
        tot_pages d' = tot_pages d \<and> pfn_offset d' = pfn_offset d \<and> (\<forall>q\<in>A. blk d' q = blk d q) \<and>
        (\<exists>q\<in>free_set d. order \<le> order_of d q)"
  using assms
proof (induction order d rule: get_buddy_new.induct)
  case (1 order d)
  note inv = "1.prems"(1) and om = "1.prems"(2)
  note I = buddy_invD[OF inv]
  obtain ls where ls: "lists_inv d ls" using I(6) by blast
  have set_ls: "set (ls (FreeList order)) = Block ` {p \<in> free_set d. order_of d p = order}"
    using ls om by (simp add: lists_inv_def)
  show ?case
  proof (cases "ls (FreeList order)")
    case (Cons x xs)
    then obtain i where i: "x = Block i" "i \<in> free_set d" "order_of d i = order"
      using set_ls by (metis (mono_tags, lifting) imageE list.set_intros(1) mem_Collect_eq)
    have l: "nxt (free_lists d) (FreeList order) = Block i"
      using lists_inv_head[OF ls om] Cons i by simp
    have "i < length (all_buddies d)" using i I(1) by (simp add: free_set_def)
    then have g: "get_buddy_new order d = Inr (i, on_lists (list_remove (Block i))
        (set_block i (\<lambda>b. b\<lparr>b_free := False\<rparr>) d))"
      using l om by (subst get_buddy_new.simps) simp
    have "i \<notin> A" using i(2) I(4) by blast
    moreover from this have "\<forall>q\<in>A. blk (on_lists (list_remove (Block i))
        (set_block i (\<lambda>b. b\<lparr>b_free := False\<rparr>) d)) q = blk d q"
      using buddy_inv_take(4)[OF inv i(2)] by metis
    ultimately show ?thesis unfolding g sum.case prod.case
      using buddy_inv_take(1,2,5,6)[OF inv i(2)] i(2,3) by blast
  next
    case Nil
    then have none: "\<And>p. p \<in> free_set d \<Longrightarrow> order_of d p \<noteq> order" using set_ls by auto
    have l: "nxt (free_lists d) (FreeList order) = FreeList order"
      using lists_inv_head[OF ls om] Nil by simp
    show ?thesis
    proof (cases "order = MAX_ORDER")
      case True
      have "order_of d p \<le> MAX_ORDER" if "p \<in> free_set d" for p
        using tilingD(1)[OF I(5)] that by simp
      with none have "\<forall>p\<in>free_set d. order_of d p < order" using True by (metis le_neq_implies_less)
      then show ?thesis using l True by (subst get_buddy_new.simps) simp
    next
      case False
      with om have om': "order + 1 \<le> MAX_ORDER" by simp
      note IH = "1.IH"[OF _ refl _ False inv om']
      show ?thesis
      proof (cases "get_buddy_new (order + 1) d")
        case (Inl e)
        with IH l om have "e = Panic ''No more buddy blocks available''"
          "\<forall>p\<in>free_set d. order_of d p < order + 1" by simp_all
        with none have "\<forall>p\<in>free_set d. order_of d p < order" by (metis Suc_eq_plus1 less_SucE)
        with Inl l om False \<open>e = _\<close> show ?thesis by (subst get_buddy_new.simps) simp
      next
        case (Inr r)
        then obtain i d1 where r: "get_buddy_new (order + 1) d = Inr (i, d1)" by (cases r) auto
        with IH l om have i: "i \<notin> A" "buddy_inv d1 (insert i A)" "order_of d1 i = Suc order"
          and n: "tot_pages d1 = tot_pages d" "pfn_offset d1 = pfn_offset d"
          and eq: "\<forall>q\<in>A. blk d1 q = blk d q"
          and large: "\<exists>q\<in>free_set d. order + 1 \<le> order_of d q" by auto
        from large have large: "\<exists>q\<in>free_set d. order \<le> order_of d q" using add_leD1 by blast
        note I1 = buddy_invD[OF i(2)]
        note S = buddy_inv_split[OF i(2) insertI1 i(3)]
        have "i < tot_pages d1" using tilingD(4)[OF I1(5)] by blast
        then have g: "get_buddy_new order d = Inr (i, split_block order i d1)"
          using l om False r S(3) I1(1,3)
          by (subst get_buddy_new.simps)
            (simp add: split_block_def Let_def buddy_views PAGES_PER_BLOCK_def)
        have "blk (split_block order i d1) q = blk d q" if "q \<in> A" for q
          using S(5)[of q] S(4) that i(1) eq by (metis insertCI)
        then show ?thesis unfolding g sum.case prod.case using S(1,2,6,7) i(1) n large by simp
      qed
    qed
  qed
qed

section \<open>free_buddy_new\<close>

text \<open>Without a merge.\<close>

lemma buddy_inv_release:
  assumes inv: "buddy_inv d A" and i: "i \<in> A"
    and nb: "order_of d i < MAX_ORDER \<Longrightarrow> buddy_of i (order_of d i) \<in> free_set d \<Longrightarrow>
      order_of d (buddy_of i (order_of d i)) \<noteq> order_of d i"
  defines "d' \<equiv> on_lists (list_add_head (FreeList (order_of d i)) (Block i))
      (set_block i (\<lambda>b. b\<lparr>b_free := True\<rparr>) d)"
  shows "buddy_inv d' (A - {i})" "order_of d' = order_of d" "free_set d' = insert i (free_set d)"
    "\<And>q. q \<noteq> i \<Longrightarrow> blk d' q = blk d q" "tot_pages d' = tot_pages d" "pfn_offset d' = pfn_offset d"
proof -
  note I = buddy_invD[OF inv]
  note T = tilingD[OF I(5) UnI1[OF i]]
  have il: "i < length (all_buddies d)" using T(4) I(1) by simp
  have all: "blk d' q = (if q = i then (blk d i)\<lparr>b_free := True\<rparr> else blk d q)" for q
    using il by (simp add: d'_def buddy_views)
  show n: "tot_pages d' = tot_pages d" "pfn_offset d' = pfn_offset d"
    by (simp_all add: d'_def buddy_views)
  show fs: "free_set d' = insert i (free_set d)" using T(4) n by (auto simp: free_set_def all)
  show ord: "order_of d' = order_of d" by (auto simp: order_of_def all)
  show "\<And>q. q \<noteq> i \<Longrightarrow> blk d' q = blk d q" by (simp add: all)
  obtain ls where ls: "lists_inv d ls" using I(6) by blast
  have iF: "i \<notin> free_set d" using i I(4) by blast
  from lists_inv_put[OF ls iF T(1), of d'] fs ord have "\<exists>ls. lists_inv d' ls"
    by (simp add: d'_def buddy_views)
  moreover have "coalesced d'"
    unfolding coalesced_def ord fs
  proof (intro ballI impI notI)
    fix p assume p: "p \<in> insert i (free_set d)" "order_of d p < MAX_ORDER"
      "buddy_of p (order_of d p) \<in> insert i (free_set d)"
      "order_of d (buddy_of p (order_of d p)) = order_of d p"
    have al: "2 ^ order_of d p dvd p" using p(1) tilingD(2)[OF I(5), of p] i by auto
    show False
    proof (cases "p = i")
      case True
      with p nb buddy_of_neq[OF al] show ?thesis by auto
    next
      case False
      show ?thesis
      proof (cases "buddy_of p (order_of d p) = i")
        case True
        with p(4) buddy_of_invol[OF al] have "buddy_of i (order_of d i) = p" by simp
        with nb p(1,2,4) True False show ?thesis by simp
      next
        case False
        with p \<open>p \<noteq> i\<close> I(7) show ?thesis unfolding coalesced_def by blast
      qed
    qed
  qed
  moreover have "\<forall>p<tot_pages d. b_pfn (blk d' p) = p" using I(3) by (simp add: all)
  moreover have "A - {i} \<union> free_set d' = A \<union> free_set d" unfolding fs using i by blast
  moreover have "(A - {i}) \<inter> free_set d' = {}" unfolding fs using I(4) by blast
  ultimately show "buddy_inv d' (A - {i})"
    using I(1,2,5) n ord by (simp add: buddy_inv_def) (simp add: d'_def buddy_views)
qed

text \<open>One merge: the buddy leaves its list and the two blocks become one, still allocated.\<close>

definition merge_block :: "nat \<Rightarrow> nat \<Rightarrow> nat \<Rightarrow> buddy_mem_desc \<Rightarrow> buddy_mem_desc" where
  "merge_block i j base d =
     (let d' = set_block i (\<lambda>b. b\<lparr>b_free := False\<rparr>) d;
          d' = set_block j (\<lambda>b. b\<lparr>b_free := False\<rparr>) d';
          d' = on_lists (list_remove (Block j)) d';
          d' = set_block base (\<lambda>b. b\<lparr>b_order := b_order (blk d i) + 1\<rparr>) d'
      in set_block base (\<lambda>b. b\<lparr>b_free := False\<rparr>) d')"

lemma buddy_inv_merge:
  assumes inv: "buddy_inv d A" and i: "i \<in> A" "order_of d i < MAX_ORDER"
    and j: "j = buddy_of i (order_of d i)" "j \<in> free_set d" "order_of d j = order_of d i"
  defines "base \<equiv> min i j" and "d' \<equiv> merge_block i j (min i j) d"
  shows "buddy_inv d' (insert base (A - {i}))" "base \<notin> A - {i}"
    "order_of d' base = Suc (order_of d i)"
    "\<And>q. q \<in> A - {i} \<Longrightarrow> blk d' q = blk d q"
    "tot_pages d' = tot_pages d" "pfn_offset d' = pfn_offset d"
proof -
  note I = buddy_invD[OF inv]
  let ?H = "A \<union> free_set d" and ?o = "order_of d i"
  have iH: "i \<in> ?H" and jH: "j \<in> ?H" using i j by auto
  note Ti = tilingD[OF I(5) iH] and Tj = tilingD[OF I(5) jH]
  have il: "i < length (all_buddies d)" "j < length (all_buddies d)" using Ti(4) Tj(4) I(1) by auto
  have ni: "\<not> b_free (blk d i)" using i I(4) Ti(4) by (auto simp: free_set_def)
  have jA: "j \<notin> A" using j(2) I(4) by blast
  have ij: "i \<noteq> j" using i(1) jA by blast
  have bm: "base + 2 ^ ?o = max i j" "2 ^ Suc ?o dvd base"
    using Ti(2) by (cases rule: buddy_of_cases; simp add: j(1) base_def)+
  have mx: "{i, j} = {base, max i j}" "base \<noteq> max i j" using ij by (auto simp: base_def min_def max_def)
  have bl: "base < length (all_buddies d)" using il by (simp add: base_def)
  have all: "blk d' q = (if q = base then (blk d base)\<lparr>b_order := Suc ?o, b_free := False\<rparr>
      else if q = max i j then (blk d (max i j))\<lparr>b_free := False\<rparr> else blk d q)" for q
    using il ij by (simp add: d'_def merge_block_def base_def Let_def buddy_views min_def max_def order_of_def)
  show n: "tot_pages d' = tot_pages d" "pfn_offset d' = pfn_offset d"
    by (simp_all add: d'_def merge_block_def Let_def buddy_views)
  have fs: "free_set d' = free_set d - {j}"
    using ni mx n by (auto simp: free_set_def all base_def min_def max_def)
  have ord: "order_of d' base = Suc ?o" "\<And>q. q \<noteq> base \<Longrightarrow> order_of d' q = order_of d q"
    by (simp_all add: order_of_def all)
  show "order_of d' base = Suc ?o" by (rule ord(1))
  show bA: "base \<notin> A - {i}" using jA by (auto simp: base_def min_def)
  show "blk d' q = blk d q" if "q \<in> A - {i}" for q
  proof -
    have "q \<noteq> j" "q \<noteq> i" using that jA by auto
    then show ?thesis by (simp add: all base_def min_def max_def)
  qed
  have bo: "order_of d base = ?o" "order_of d (base + 2 ^ ?o) = ?o"
    using j(3) bm(1) by (auto simp: base_def min_def max_def)
  have bH: "base \<in> ?H" "base + 2 ^ ?o \<in> ?H" using iH jH bm(1) by (auto simp: base_def min_def max_def)
  have T': "tiling (?H - {max i j}) (order_of d') (tot_pages d)"
    using tiling_merge[where H = ?H and p = base and o' = ?o and ord' = "order_of d'",
        OF I(5) bH bo i(2) bm(2) ord(1)] ord(2) bm(1) by simp
  have H': "insert base (A - {i}) \<union> free_set d' = ?H - {max i j}"
    unfolding fs using mx iH jH jA i(1) j(2) I(4) by (auto simp: base_def min_def max_def)
  obtain ls where ls: "lists_inv d ls" using I(6) by blast
  have bF: "base \<notin> free_set d'" using fs i(1) I(4) by (auto simp: base_def min_def)
  have "\<exists>ls. lists_inv d' ls"
  proof (rule lists_inv_take[OF ls j(2) Tj(1)])
    show "order_of d' p = order_of d p" if "p \<in> free_set d'" for p
      using that bF by (intro ord(2)) blast
  qed (simp_all add: fs, simp add: d'_def merge_block_def Let_def buddy_views)
  moreover have "coalesced d'"
  proof -
    have eq: "order_of d' p = order_of d p" if "p \<in> free_set d'" for p
      using that bF by (intro ord(2)) blast
    show ?thesis unfolding coalesced_def
    proof (intro ballI impI)
      fix p assume p: "p \<in> free_set d'" "order_of d' p < MAX_ORDER"
        "buddy_of p (order_of d' p) \<in> free_set d'"
      with eq have "order_of d' (buddy_of p (order_of d' p)) = order_of d (buddy_of p (order_of d p))"
        by simp
      with p eq[OF p(1)] I(7) fs show "order_of d' (buddy_of p (order_of d' p)) \<noteq> order_of d' p"
        unfolding coalesced_def by auto
    qed
  qed
  moreover have "\<forall>p<tot_pages d. b_pfn (blk d' p) = p" using I(3) by (simp add: all)
  moreover have "insert base (A - {i}) \<inter> free_set d' = {}" using bF fs I(4) by blast
  ultimately show "buddy_inv d' (insert base (A - {i}))"
    using I(1,2) T' H' n by (simp add: buddy_inv_def) (simp add: d'_def merge_block_def Let_def buddy_views)
qed

lemma calc_free_buddy_inv:
  assumes inv: "buddy_inv d A" and i: "i \<in> A"
  shows "calc_free_buddy i d = Inr
     (let j = buddy_of i (order_of d i)
      in if order_of d i < MAX_ORDER \<and> j \<in> free_set d \<and> order_of d j = order_of d i
         then Some j else None)"
proof -
  note I = buddy_invD[OF inv]
  note T = tilingD[OF I(5) UnI1[OF i]]
  have "buddy_of i (order_of d i) < tot_pages d" if "order_of d i < MAX_ORDER"
  proof (rule buddy_of_less[OF T(2,4)])
    show "2 ^ Suc (order_of d i) dvd tot_pages d"
      using that I(2) by (intro dvd_trans[OF le_imp_power_dvd I(2)]) simp
  qed
  then show ?thesis
    using T(4) I(1,3)
    by (auto simp: calc_free_buddy_def calc_my_buddy_new_pfn_buddy_of order_of_def free_set_def Let_def)
qed

lemma free_buddy_new_spec:
  assumes "buddy_inv d A" "i \<in> A"
  shows "\<exists>d'. free_buddy_new i d = Inr d' \<and> buddy_inv d' (A - {i}) \<and>
     tot_pages d' = tot_pages d \<and> pfn_offset d' = pfn_offset d \<and>
     (\<forall>q\<in>A - {i}. blk d' q = blk d q)"
  using assms
proof (induction "MAX_ORDER - order_of d i" arbitrary: i d A rule: less_induct)
  case less
  note inv = less.prems(1) and i = less.prems(2)
  note I = buddy_invD[OF inv]
  note T = tilingD[OF I(5) UnI1[OF i]]
  have il: "i < length (all_buddies d)" using T(4) I(1) by simp
  have ni: "\<not> b_free (blk d i)" using i I(4) T(4) by (auto simp: free_set_def)
  let ?j = "buddy_of i (order_of d i)"
  show ?case
  proof (cases "order_of d i < MAX_ORDER \<and> ?j \<in> free_set d \<and> order_of d ?j = order_of d i")
    case True
    define j where "j = ?j"
    have c: "calc_free_buddy i d = Inr (Some j)"
      using calc_free_buddy_inv[OF inv i] True by (simp add: j_def)
    note M = buddy_inv_merge[OF inv i conjunct1[OF True] refl, folded j_def]
    have jF: "j \<in> free_set d" "order_of d j = order_of d i" using True by (simp_all add: j_def)
    then have "j < tot_pages d" by (simp add: free_set_def)
    then have m: "(if b_pfn (blk d i) > b_pfn (blk d j) then j else i) = min i j"
      using I(3) T(4) by (auto simp: min_def)
    have f: "free_buddy_new i d = free_buddy_new (if b_pfn (blk d i) > b_pfn (blk d j) then j else i)
        (merge_block i j (if b_pfn (blk d i) > b_pfn (blk d j) then j else i) d)"
      using c il ni T(1) by (subst free_buddy_new.simps) (simp add: merge_block_def Let_def order_of_def)
    let ?d = "merge_block i j (min i j) d"
    note M = M[OF jF]
    have "MAX_ORDER - order_of ?d (min i j) < MAX_ORDER - order_of d i"
      using True unfolding M(3) by arith
    from less.hyps[OF this M(1) insertI1] obtain d' where
      d': "free_buddy_new (min i j) ?d = Inr d'" "buddy_inv d' (insert (min i j) (A - {i}) - {min i j})"
        "tot_pages d' = tot_pages ?d" "pfn_offset d' = pfn_offset ?d"
        "\<forall>q\<in>insert (min i j) (A - {i}) - {min i j}. blk d' q = blk ?d q" by blast
    have "insert (min i j) (A - {i}) - {min i j} = A - {i}" using M(2) by blast
    with d' M(4-6) have "buddy_inv d' (A - {i})" "\<forall>q\<in>A - {i}. blk d' q = blk d q"
      "tot_pages d' = tot_pages d" "pfn_offset d' = pfn_offset d" by auto
    with d'(1) show ?thesis unfolding f m by blast
  next
    case False
    then have c: "calc_free_buddy i d = Inr None"
      using calc_free_buddy_inv[OF inv i] by (simp add: Let_def)
    with il ni T(1) have f: "free_buddy_new i d = Inr (on_lists (list_add_head (FreeList (order_of d i)) (Block i))
      (set_block i (\<lambda>b. b\<lparr>b_free := True\<rparr>) d))"
      by (subst free_buddy_new.simps) (simp add: order_of_def)
    from False have "order_of d i < MAX_ORDER \<Longrightarrow> ?j \<in> free_set d \<Longrightarrow> order_of d ?j \<noteq> order_of d i"
      by blast
    from buddy_inv_release[OF inv i this] show ?thesis unfolding f by auto
  qed
qed

section \<open>init_buddy_new\<close>

lemma fold_init_heads:
  "let d' = fold (\<lambda>i. on_lists (LIST_INIT (FreeList i))) [0..<m] d
   in rings (free_lists d') (FreeList ` {..<m}) (\<lambda>_. []) \<and> all_buddies d' = all_buddies d \<and>
      tot_pages d' = tot_pages d \<and> pfn_offset d' = pfn_offset d"
proof (induction m)
  case (Suc m)
  let ?d = "fold (\<lambda>i. on_lists (LIST_INIT (FreeList i))) [0..<m] d"
  from Suc have "rings (free_lists ?d) (FreeList ` {..<m}) (\<lambda>_. [])" by (simp add: Let_def)
  then have "rings (LIST_INIT (FreeList m) (free_lists ?d)) (insert (FreeList m) (FreeList ` {..<m}))
      ((\<lambda>_. [])(FreeList m := []))"
    by (rule lists.rep_init) (auto simp: linked_def)
  moreover have e: "(\<lambda>_. [])(FreeList m := []) = (\<lambda>_. [])" by auto
  moreover have i: "insert (FreeList m) (FreeList ` {..<m}) = FreeList ` {..<Suc m}"
    by (simp add: lessThan_Suc)
  ultimately have "rings (LIST_INIT (FreeList m) (free_lists ?d)) (FreeList ` {..<Suc m}) (\<lambda>_. [])"
    by (simp only: e i)
  with Suc show ?case by (simp add: Let_def buddy_views)
qed (simp add: rings_empty)

lemma rings_init_unlinked:
  assumes "rings h Hs ls" "x \<notin> linked Hs ls"
  shows "rings (LIST_INIT x h) Hs ls"
proof -
  have "ring (LIST_INIT x h) a (ls a)" if "a \<in> Hs" for a
    by (rule ring_frame[OF rings_ring[OF assms(1) that]])
      (use assms(2) that in \<open>auto simp: LIST_INIT_def linked_def\<close>)
  with assms(1) show ?thesis by (simp add: rings_def)
qed

lemma fold_init_block:
  assumes "rings (free_lists d) (FreeList ` H) (\<lambda>_. [])" "m \<le> length (all_buddies d)"
  shows "let d' = fold init_block [0..<m] d
   in rings (free_lists d') (FreeList ` H) (\<lambda>_. []) \<and>
      length (all_buddies d') = length (all_buddies d) \<and>
      (\<forall>i<m. b_order (blk d' i) = 0 \<and> \<not> b_free (blk d' i) \<and> b_pfn (blk d' i) = i) \<and>
      tot_pages d' = tot_pages d \<and> pfn_offset d' = pfn_offset d"
  using assms(2)
proof (induction m)
  case (Suc m)
  let ?d = "fold init_block [0..<m] d"
  from Suc have IH: "rings (free_lists ?d) (FreeList ` H) (\<lambda>_. [])" "m < length (all_buddies ?d)"
    "\<forall>i<m. b_order (blk ?d i) = 0 \<and> \<not> b_free (blk ?d i) \<and> b_pfn (blk ?d i) = i"
    by (simp_all add: Let_def)
  have "rings (LIST_INIT (Block m) (free_lists ?d)) (FreeList ` H) (\<lambda>_. [])"
    using IH(1) by (rule rings_init_unlinked) (auto simp: linked_def)
  moreover have "fold init_block [0..<Suc m] d = init_block m ?d" by simp
  moreover have "b_order (blk (init_block m ?d) i) = 0 \<and> \<not> b_free (blk (init_block m ?d) i) \<and>
      b_pfn (blk (init_block m ?d) i) = i" if "i < Suc m" for i
    using that IH(2,3) by (auto simp: init_block_def buddy_views less_Suc_eq)
  moreover have "free_lists (init_block m d1) = LIST_INIT (Block m) (free_lists d1)"
    "tot_pages (init_block m d1) = tot_pages d1" "pfn_offset (init_block m d1) = pfn_offset d1"
    "length (all_buddies (init_block m d1)) = length (all_buddies d1)" for d1
    by (simp_all add: init_block_def buddy_views)
  ultimately show ?case using Suc by (simp only: Let_def) simp
qed (use assms in \<open>simp add: Let_def\<close>)

definition top_lists :: "nat \<Rightarrow> nat \<Rightarrow> bnode \<Rightarrow> bnode list" where
  "top_lists c m = (\<lambda>_. [])(FreeList MAX_ORDER := map (\<lambda>k. Block (k * c)) [0..<m])"

lemma top_lists_Suc:
  "(top_lists c m)(FreeList MAX_ORDER := top_lists c m (FreeList MAX_ORDER) @ [Block (m * c)]) =
   top_lists c (Suc m)"
  by (simp add: top_lists_def)

lemma top_lists_0: "top_lists c 0 = (\<lambda>_. [])"
  by (auto simp: top_lists_def)

lemma fold_init_top:
  assumes "rings (free_lists d) (FreeList ` {..MAX_ORDER}) (\<lambda>_. [])"
    and "m * c \<le> length (all_buddies d)" "0 < c"
  shows "let d' = fold (\<lambda>k. init_top_block (k * c)) [0..<m] d
   in rings (free_lists d') (FreeList ` {..MAX_ORDER})
        (top_lists c m) \<and>
      length (all_buddies d') = length (all_buddies d) \<and>
      (\<forall>i<length (all_buddies d). blk d' i =
         (if i \<in> (\<lambda>k. k * c) ` {..<m} then (blk d i)\<lparr>b_free := True, b_order := MAX_ORDER\<rparr> else blk d i)) \<and>
      tot_pages d' = tot_pages d \<and> pfn_offset d' = pfn_offset d"
  using assms(2)
proof (induction m)
  case (Suc m)
  let ?d = "fold (\<lambda>k. init_top_block (k * c)) [0..<m] d"
  let ?ls = "top_lists c m"
  from Suc have IH: "rings (free_lists ?d) (FreeList ` {..MAX_ORDER}) ?ls"
    "length (all_buddies ?d) = length (all_buddies d)"
    "\<forall>i<length (all_buddies d). blk ?d i =
         (if i \<in> (\<lambda>k. k * c) ` {..<m} then (blk d i)\<lparr>b_free := True, b_order := MAX_ORDER\<rparr> else blk d i)"
    "tot_pages ?d = tot_pages d" "pfn_offset ?d = pfn_offset d"
    by (simp_all add: Let_def)
  have mc: "m * c < length (all_buddies d)" using Suc.prems assms(3) by simp
  have fresh: "Block (m * c) \<notin> linked (FreeList ` {..MAX_ORDER}) ?ls"
    using assms(3) by (auto simp: linked_def top_lists_def split: if_splits)
  have "rings (list_add_tail (FreeList MAX_ORDER) (Block (m * c)) (free_lists ?d)) (FreeList ` {..MAX_ORDER})
     (top_lists c (Suc m))"
    unfolding top_lists_Suc[symmetric] by (rule lists.rep_add_tail[OF IH(1) _ fresh]) simp
  moreover have "fold (\<lambda>k. init_top_block (k * c)) [0..<Suc m] d = init_top_block (m * c) ?d"
    by simp
  moreover have "blk (init_top_block (m * c) ?d) i =
      (if i \<in> (\<lambda>k. k * c) ` {..<Suc m} then (blk d i)\<lparr>b_free := True, b_order := MAX_ORDER\<rparr> else blk d i)"
    if "i < length (all_buddies d)" for i
    using that IH(2,3) mc by (auto simp: init_top_block_def buddy_views lessThan_Suc)
  moreover have "free_lists (init_top_block i d1) =
      list_add_tail (FreeList MAX_ORDER) (Block i) (free_lists d1)"
    "tot_pages (init_top_block i d1) = tot_pages d1" "pfn_offset (init_top_block i d1) = pfn_offset d1"
    "length (all_buddies (init_top_block i d1)) = length (all_buddies d1)" for i d1
    by (simp_all add: init_top_block_def buddy_views)
  ultimately show ?case using IH(2,4,5) by (simp only: Let_def) simp
qed (use assms in \<open>simp add: Let_def top_lists_0\<close>)

lemma tiling_top:
  assumes "c = 2 ^ MAX_ORDER"
  shows "tiling ((\<lambda>k. k * c) ` {..<m}) (\<lambda>_. MAX_ORDER) (m * c)"
proof (rule tilingI)
  fix p assume "p \<in> (\<lambda>k. k * c) ` {..<m}"
  then obtain k where k: "p = k * c" "k < m" by blast
  moreover from this(2) have "Suc k * c \<le> m * c" by (intro mult_le_mono1) simp
  ultimately show "MAX_ORDER \<le> MAX_ORDER \<and> 2 ^ MAX_ORDER dvd p \<and> p + 2 ^ MAX_ORDER \<le> m * c"
    using assms by simp
next
  fix i assume "i < m * c"
  then have "i div c < m" by (simp add: less_mult_imp_div_less)
  moreover have "covers (\<lambda>_. MAX_ORDER) (i div c * c) i"
    using assms by (simp add: covers_def dividend_less_div_times add.commute)
  ultimately show "\<exists>p\<in>(\<lambda>k. k * c) ` {..<m}. covers (\<lambda>_. MAX_ORDER) p i" by blast
next
  have d: "i div c = k" if "covers (\<lambda>_. MAX_ORDER) (k * c) i" for k i
    using that assms by (intro div_nat_eqI) (auto simp: covers_def algebra_simps)
  fix p q i assume "p \<in> (\<lambda>k. k * c) ` {..<m}" "q \<in> (\<lambda>k. k * c) ` {..<m}"
    "covers (\<lambda>_. MAX_ORDER) p i" "covers (\<lambda>_. MAX_ORDER) q i"
  then show "p = q" using d by auto
qed

lemma init_buddy_new_spec:
  assumes "init_buddy_new num_pages off d fma = Inr (d', fma')"
  defines "c \<equiv> 2 ^ MAX_ORDER" and "m \<equiv> num_pages div 2 ^ MAX_ORDER"
  shows "buddy_inv d' {}" "0 < m" "tot_pages d' = m * c" "pfn_offset d' = off"
    "lists_inv d' (top_lists c m)" "free_set d' = (\<lambda>k. k * c) ` {..<m}"
proof -
  have c0: "0 < c" by (simp add: c_def)
  define d0 where "d0 = d\<lparr>all_buddies := replicate (m * c) (buddy_block.make 0 False 0),
      pfn_offset := off, tot_pages := m * c\<rparr>"
  define d1 where "d1 = fold (\<lambda>i. on_lists (LIST_INIT (FreeList i))) [0..<MAX_ORDER + 1] d0"
  define d2 where "d2 = fold init_block [0..<m * c] d1"
  have *: "m * c \<noteq> 0" "d' = fold (\<lambda>k. init_top_block (k * c)) [0..<m] d2"
    using assms(1) c0
    by (auto simp: init_buddy_new_def Let_def PAGES_PER_BLOCK_def d2_def d1_def d0_def c_def m_def
        split: if_splits prod.splits)
  show "0 < m" using *(1) by simp
  have h: "FreeList ` {..<MAX_ORDER + 1} = FreeList ` {..MAX_ORDER}" by auto
  have 1: "rings (free_lists d1) (FreeList ` {..MAX_ORDER}) (\<lambda>_. [])" "length (all_buddies d1) = m * c"
    "tot_pages d1 = m * c" "pfn_offset d1 = off"
    using fold_init_heads[of "MAX_ORDER + 1" d0]
    unfolding Let_def d1_def[symmetric] h by (simp_all add: d0_def)
  have 2: "rings (free_lists d2) (FreeList ` {..MAX_ORDER}) (\<lambda>_. [])" "length (all_buddies d2) = m * c"
    "\<forall>i<m * c. b_order (blk d2 i) = 0 \<and> \<not> b_free (blk d2 i) \<and> b_pfn (blk d2 i) = i"
    "tot_pages d2 = m * c" "pfn_offset d2 = off"
    using fold_init_block[OF 1(1), of "m * c"] 1(2-4)
    unfolding Let_def d2_def[symmetric] by simp_all
  have 3: "rings (free_lists d') (FreeList ` {..MAX_ORDER}) (top_lists c m)"
    "length (all_buddies d') = m * c"
    "\<forall>i<m * c. blk d' i = (if i \<in> (\<lambda>k. k * c) ` {..<m}
        then (blk d2 i)\<lparr>b_free := True, b_order := MAX_ORDER\<rparr> else blk d2 i)"
    "tot_pages d' = m * c" "pfn_offset d' = off"
    using fold_init_top[OF 2(1), of m c] 2(2,4,5) c0
    unfolding Let_def *(2)[symmetric] by simp_all
  show "tot_pages d' = m * c" "pfn_offset d' = off" by fact+
  have sub: "(\<lambda>k. k * c) ` {..<m} \<subseteq> {..<m * c}" using c0 by auto
  show fs: "free_set d' = (\<lambda>k. k * c) ` {..<m}"
    using 3(3,4) 2(3) sub by (auto simp: free_set_def split: if_splits)
  have ord: "order_of d' p = MAX_ORDER" if "p \<in> free_set d'" for p
    using that 3(3) sub unfolding fs by (auto simp: order_of_def)
  show li: "lists_inv d' (top_lists c m)"
  proof -
    have "{p \<in> free_set d'. order_of d' p = q} = (if q = MAX_ORDER then free_set d' else {})" for q
      using ord by auto
    moreover have "set (map (\<lambda>k. Block (k * c)) [0..<m]) = Block ` free_set d'"
      unfolding fs by (simp add: image_image atLeast0LessThan)
    ultimately show ?thesis using 3(1) by (simp add: lists_inv_def top_lists_def)
  qed
  have "\<forall>i<m * c. b_pfn (blk d' i) = i" using 3(3) 2(3) by simp
  moreover have "coalesced d'" using ord by (auto simp: coalesced_def)
  moreover have "tiling (free_set d') (order_of d') (m * c)"
    using tiling_top[OF meta_eq_to_obj_eq[OF c_def], of m] ord fs by (auto intro: tiling_cong)
  ultimately show "buddy_inv d' {}"
    using 3(2,4) li by (auto simp: buddy_inv_def c_def)
qed

text \<open>The blocks of the highest order are handed out in the order of the list.\<close>

lemma get_buddy_new_top:
  assumes inv: "buddy_inv d A" and ls: "lists_inv d ls"
    and i: "ls (FreeList MAX_ORDER) = Block i # xs"
  shows "\<exists>d'. get_buddy_new MAX_ORDER d = Inr (i, d') \<and> buddy_inv d' (insert i A) \<and>
     lists_inv d' (ls(FreeList MAX_ORDER := xs)) \<and> tot_pages d' = tot_pages d \<and>
     pfn_offset d' = pfn_offset d \<and> order_of d' i = MAX_ORDER"
proof -
  note I = buddy_invD[OF inv]
  have r: "rings (free_lists d) (FreeList ` {..MAX_ORDER}) ls"
    and s: "\<And>q. q \<le> MAX_ORDER \<Longrightarrow> set (ls (FreeList q)) = Block ` {p \<in> free_set d. order_of d p = q}"
    using ls by (auto simp: lists_inv_def)
  have iF: "i \<in> free_set d" "order_of d i = MAX_ORDER" using s[of MAX_ORDER] i by auto
  have il: "i < length (all_buddies d)" using iF I(1) by (simp add: free_set_def)
  let ?d = "on_lists (list_remove (Block i)) (set_block i (\<lambda>b. b\<lparr>b_free := False\<rparr>) d)"
  have g: "get_buddy_new MAX_ORDER d = Inr (i, ?d)"
    using lists_inv_head[OF ls, of MAX_ORDER] i il by (subst get_buddy_new.simps) simp
  note T = buddy_inv_take[OF inv iF(1)]
  have ord: "order_of ?d p = order_of d p" for p
    using T(2,4) by (cases "p = i") (auto simp: order_of_def)
  let ?ls = "ls(FreeList MAX_ORDER := xs)"
  have "rings (free_lists ?d) (FreeList ` {..MAX_ORDER}) ?ls"
    using lists.rep_remove[OF r, of "FreeList MAX_ORDER" "Block i"] i by (simp add: buddy_views)
  moreover have "set (?ls (FreeList q)) = Block ` {p \<in> free_set ?d. order_of ?d p = q}"
    if "q \<le> MAX_ORDER" for q
  proof -
    have "{p \<in> free_set ?d. order_of ?d p = q} = {p \<in> free_set d. order_of d p = q} - {i}"
      unfolding T(3) ord by auto
    then have e: "Block ` {p \<in> free_set ?d. order_of ?d p = q} =
        Block ` {p \<in> free_set d. order_of d p = q} - {Block i}"
      by (simp add: image_set_diff inj_def)
    have "distinct (ls (FreeList MAX_ORDER))" using rings_distinct[OF r] by simp
    then show ?thesis unfolding e using s[OF that] i iF by (cases "q = MAX_ORDER") auto
  qed
  ultimately have "lists_inv ?d ?ls" by (simp add: lists_inv_def)
  with g T iF show ?thesis by auto
qed

section \<open>Accounting and fragmentation\<close>

lemma tiling_sum:
  assumes t: "tiling H ord n"
  shows "finite H" "(\<Sum>p\<in>H. 2 ^ ord p) = n"
proof -
  show f: "finite H" using tilingD(4)[OF t] by (meson finite_lessThan finite_subset lessThan_iff subsetI)
  let ?b = "\<lambda>p. {p..<p + 2 ^ ord p}"
  have U: "(\<Union>p\<in>H. ?b p) = {..<n}"
  proof
    show "(\<Union>p\<in>H. ?b p) \<subseteq> {..<n}" using tilingD(3)[OF t] by force
    show "{..<n} \<subseteq> (\<Union>p\<in>H. ?b p)" using tiling_cover[OF t] by (force simp: covers_def)
  qed
  have "card (\<Union>p\<in>H. ?b p) = (\<Sum>p\<in>H. card (?b p))"
  proof (rule card_UN_disjoint[OF f])
    show "\<forall>i\<in>H. \<forall>j\<in>H. i \<noteq> j \<longrightarrow> ?b i \<inter> ?b j = {}"
      using tiling_overlap[OF t] by (fastforce simp: covers_def)
  qed simp
  then show "(\<Sum>p\<in>H. 2 ^ ord p) = n" unfolding U by simp
qed

definition free_pages :: "buddy_mem_desc \<Rightarrow> nat" where
  "free_pages d = (\<Sum>p\<in>free_set d. 2 ^ order_of d p)"

definition used_pages :: "buddy_mem_desc \<Rightarrow> nat set \<Rightarrow> nat" where
  "used_pages d A = (\<Sum>p\<in>A. 2 ^ order_of d p)"

lemma pages_balance:
  assumes "buddy_inv d A"
  shows "used_pages d A + free_pages d = tot_pages d" "finite A"
proof -
  note I = buddy_invD[OF assms]
  note S = tiling_sum[OF I(5)]
  show "finite A" using S(1) by simp
  show "used_pages d A + free_pages d = tot_pages d"
    using S I(4) by (simp add: used_pages_def free_pages_def sum.union_disjoint)
qed

lemma dvd_step:
  assumes "k dvd a" "k dvd b" "a < (b::nat)"
  shows "a + k \<le> b"
  using assms dvd_imp_le[of k "b - a"] dvd_diff_nat[of k b a] by simp

lemma dvd_window:
  assumes "k dvd a" "k dvd b" "a \<le> b" "b < a + (k::nat)"
  shows "a = b"
  using dvd_step[OF assms(1,2)] assms(3,4) by linarith

lemma no_fragmentation:
  assumes inv: "buddy_inv d {}" and p: "p \<in> free_set d"
  shows "order_of d p = MAX_ORDER"
proof (rule ccontr)
  note I = buddy_invD[OF inv]
  have T: "tiling (free_set d) (order_of d) (tot_pages d)" using I(5) by simp
  assume "order_of d p \<noteq> MAX_ORDER"
  let ?S = "order_of d ` free_set d"
  define o' where "o' = Min ?S"
  have fin: "finite ?S" "?S \<noteq> {}" using tiling_sum(1)[OF T] p by auto
  have min: "o' \<le> order_of d q" if "q \<in> free_set d" for q
    using that fin by (simp add: o'_def)
  obtain q where q: "q \<in> free_set d" "order_of d q = o'"
    using Min_in[OF fin] unfolding o'_def by (metis imageE)
  have small: "o' < MAX_ORDER"
    using min[OF p] tilingD(1)[OF T p] \<open>order_of d p \<noteq> MAX_ORDER\<close> by linarith
  note Tq = tilingD[OF T q(1)]
  let ?b = "buddy_of q o'"
  have al: "2 ^ o' dvd q" "2 ^ o' dvd ?b" using Tq(2) q(2) buddy_of_aligned by auto
  have "?b < tot_pages d"
    using small I(2) by (intro buddy_of_less[OF al(1) Tq(4)] dvd_trans[OF le_imp_power_dvd I(2)]) simp
  from tiling_cover[OF T this] obtain r where r: "r \<in> free_set d" "covers (order_of d) r ?b" by blast
  show False
  proof (cases "order_of d r = o'")
    case True
    have "2 ^ o' dvd r" using tilingD(2)[OF T r(1)] True by simp
    with r(2) True al(2) have "r = ?b"
      by (auto simp: covers_def intro: dvd_window)
    with r(1) True q small I(7) show False unfolding coalesced_def by auto
  next
    case False
    with min[OF r(1)] have lt: "Suc o' \<le> order_of d r" by simp
    have dv: "2 ^ Suc o' dvd r" "2 ^ Suc o' dvd r + 2 ^ order_of d r"
      using tilingD(2)[OF T r(1)] le_imp_power_dvd[OF lt, of "2::nat"] by (auto intro: dvd_trans)
    have "covers (order_of d) r q"
      using al(1)
    proof (cases rule: buddy_of_cases)
      case lower
      then have "r \<le> q"
        using r(2) dvd_window[OF lower(1) dv(1)] by (cases "r \<le> q") (auto simp: covers_def)
      with lower r(2) show ?thesis by (simp add: covers_def)
    next
      case (upper s)
      then have "s + 2 ^ Suc o' \<le> r + 2 ^ order_of d r"
        using r(2) dvd_step[OF upper(2) dv(2)] by (simp add: covers_def)
      moreover have "(2::nat) ^ o' < 2 ^ Suc o'" by simp
      ultimately show ?thesis using upper r(2) unfolding covers_def by linarith
    qed
    moreover have "covers (order_of d) q q" by (simp add: covers_def)
    ultimately have "r = q" using tiling_overlap[OF T r(1) q(1)] by blast
    with q False show False by simp
  qed
qed

section \<open>Properties\<close>

definition block_pages :: "buddy_mem_desc \<Rightarrow> nat \<Rightarrow> nat set" where
  "block_pages d p = {p..<p + 2 ^ order_of d p}"

lemma block_pages_covers: "i \<in> block_pages d p \<longleftrightarrow> covers (order_of d) p i"
  by (simp add: block_pages_def covers_def)

lemma blocks_disjoint:
  assumes "buddy_inv d A" "p \<in> A \<union> free_set d" "q \<in> A \<union> free_set d" "p \<noteq> q"
  shows "block_pages d p \<inter> block_pages d q = {}"
  using tiling_overlap[OF buddy_invD(5)[OF assms(1)] assms(2,3)] assms(4)
  unfolding disjoint_iff block_pages_covers by blast

lemma init_buddy_new_returns:
  assumes "1024 \<le> num_pages"
  shows "\<exists>d' a. init_buddy_new num_pages off d fma = Inr (d', a)"
proof -
  have "num_pages div PAGES_PER_BLOCK MAX_ORDER \<noteq> 0"
    using assms by (simp add: PAGES_PER_BLOCK_def MAX_ORDER_def div_eq_0_iff)
  then show ?thesis
    by (simp add: init_buddy_new_def PAGES_PER_BLOCK_def Let_def split: prod.split)
qed

text \<open>A region of one block of the highest order, for the witnesses.\<close>

definition one_block_desc :: buddy_mem_desc where
  "one_block_desc =
     (case init_buddy_new 1024 0
        (buddy_mem_desc.make 0 0 [] \<lparr>nxt = \<lambda>n. n, prv = \<lambda>n. n\<rparr>) 0xC0400000 of
        Inr (d, _) \<Rightarrow> d | Inl _ \<Rightarrow> undefined)"

lemma one_block_desc_inv:
  "buddy_inv one_block_desc {}" "tot_pages one_block_desc = 1024" "pfn_offset one_block_desc = 0"
  "free_set one_block_desc = {0}" "order_of one_block_desc 0 = MAX_ORDER"
proof -
  obtain d a where d: "init_buddy_new 1024 0
        (buddy_mem_desc.make 0 0 [] \<lparr>nxt = \<lambda>n. n, prv = \<lambda>n. n\<rparr>) 0xC0400000 = Inr (d, a)"
    using init_buddy_new_returns[of 1024] by blast
  note S = init_buddy_new_spec[OF d]
  have e: "one_block_desc = d" by (simp add: one_block_desc_def d)
  show "buddy_inv one_block_desc {}" "tot_pages one_block_desc = 1024" "pfn_offset one_block_desc = 0"
    "free_set one_block_desc = {0}"
    using S unfolding e by (simp_all add: MAX_ORDER_def lessThan_Suc)
  then show "order_of one_block_desc 0 = MAX_ORDER"
    using no_fragmentation[of one_block_desc 0] by simp
qed

text \<open>
  C13: \<^verbatim>\<open>init_buddy_new\<close> on at least one block of pages builds a well-formed descriptor with
  nothing allocated, over the pages rounded down to whole blocks of the highest order.
\<close>

theorem buddy_init:
  assumes "1024 \<le> num_pages"
  shows "\<exists>d' a. init_buddy_new num_pages off d fma = Inr (d', a) \<and> buddy_inv d' {} \<and>
     tot_pages d' = num_pages div 1024 * 1024 \<and> pfn_offset d' = off \<and>
     free_pages d' = tot_pages d'"
proof -
  obtain d' a where i: "init_buddy_new num_pages off d fma = Inr (d', a)"
    using init_buddy_new_returns[OF assms] by blast
  note S = init_buddy_new_spec[OF i]
  have "free_pages d' = tot_pages d'"
    using pages_balance(1)[OF S(1)] by (simp add: used_pages_def)
  with S i show ?thesis by (auto simp: MAX_ORDER_def)
qed

theorem buddy_init_witness:
  "\<exists>d' a. init_buddy_new 3000 7 one_block_desc 0xC0400000 = Inr (d', a) \<and> buddy_inv d' {} \<and>
     tot_pages d' = 2048 \<and> pfn_offset d' = 7 \<and> free_pages d' = tot_pages d'"
  using buddy_init[of 3000 7 one_block_desc "0xC0400000"] by simp

text \<open>
  C1: \<^verbatim>\<open>get_buddy_new\<close>, when some free block is large enough, returns a block of exactly the
  order asked for, aligned to its size and inside the region, whose pages belong to no block that
  was allocated before; the invariant holds of the allocated blocks with the new one added, and
  the records of the allocated blocks are as they were.
\<close>

theorem buddy_alloc:
  assumes inv: "buddy_inv d A" and ord: "order \<le> MAX_ORDER"
    and large: "\<exists>p\<in>free_set d. order \<le> order_of d p"
  shows "\<exists>p d'. get_buddy_new order d = Inr (p, d') \<and> buddy_inv d' (insert p A) \<and> p \<notin> A \<and>
     order_of d' p = order \<and> 2 ^ order dvd p \<and> p + 2 ^ order \<le> tot_pages d \<and>
     (\<forall>q\<in>A. {p..<p + 2 ^ order} \<inter> block_pages d q = {} \<and> blk d' q = blk d q)"
proof -
  from get_buddy_new_spec[OF inv ord] large obtain p d' where g: "get_buddy_new order d = Inr (p, d')"
    and d': "p \<notin> A" "buddy_inv d' (insert p A)" "order_of d' p = order" "tot_pages d' = tot_pages d"
      "\<forall>q\<in>A. blk d' q = blk d q"
    by (fastforce split: sum.splits)
  have "block_pages d' p \<inter> block_pages d' q = {}" if "q \<in> A" for q
    using blocks_disjoint[OF d'(2), of p q] that d'(1) by blast
  moreover have "block_pages d' q = block_pages d q" if "q \<in> A" for q
    using d'(5) that by (simp add: block_pages_def order_of_def)
  moreover have "block_pages d' p = {p..<p + 2 ^ order}" using d'(3) by (simp add: block_pages_def)
  ultimately show ?thesis using g d' tilingD[OF buddy_invD(5)[OF d'(2)], of p] by auto
qed

theorem buddy_alloc_witness:
  "\<exists>p d'. get_buddy_new 3 one_block_desc = Inr (p, d') \<and> buddy_inv d' {p} \<and>
     order_of d' p = 3 \<and> p + 8 \<le> 1024"
  using buddy_alloc[OF one_block_desc_inv(1), of 3] one_block_desc_inv by (auto simp: MAX_ORDER_def)

text \<open>
  C28: \<^verbatim>\<open>get_buddy_new\<close> gives up only when it has to: the panic ``No more buddy blocks
  available'' comes exactly when every free block is smaller than the order asked for.
\<close>

theorem buddy_alloc_exhausted:
  assumes "buddy_inv d A" "order \<le> MAX_ORDER"
  shows "get_buddy_new order d = Inl (Panic ''No more buddy blocks available'') \<longleftrightarrow>
     (\<forall>p\<in>free_set d. order_of d p < order)"
  using get_buddy_new_spec[OF assms] by (auto split: sum.splits simp: not_less)

theorem buddy_alloc_exhausted_witness:
  "get_buddy_new 10 one_block_desc \<noteq> Inl (Panic ''No more buddy blocks available'')"
  using buddy_alloc_exhausted[OF one_block_desc_inv(1), of 10] one_block_desc_inv
  by (simp add: MAX_ORDER_def)

text \<open>
  C2: \<^verbatim>\<open>free_buddy_new\<close> on an allocated block succeeds: it takes the block out of the
  allocated ones and nothing else, merges on the way up as far as possible (the invariant holds
  again, and with it that no two free buddies of one order remain), and leaves the records of the
  other allocated blocks alone.
\<close>

theorem buddy_free:
  assumes "buddy_inv d A" "i \<in> A"
  shows "\<exists>d'. free_buddy_new i d = Inr d' \<and> buddy_inv d' (A - {i}) \<and>
     tot_pages d' = tot_pages d \<and> pfn_offset d' = pfn_offset d \<and>
     (\<forall>q\<in>A - {i}. block_pages d' q = block_pages d q) \<and>
     free_pages d' = free_pages d + 2 ^ order_of d i"
proof -
  from free_buddy_new_spec[OF assms] obtain d' where d': "free_buddy_new i d = Inr d'"
    "buddy_inv d' (A - {i})" "tot_pages d' = tot_pages d" "pfn_offset d' = pfn_offset d"
    "\<forall>q\<in>A - {i}. blk d' q = blk d q" by blast
  note B = pages_balance[OF assms(1)] pages_balance[OF d'(2)]
  have "used_pages d' (A - {i}) = used_pages d (A - {i})"
    using d'(5) unfolding used_pages_def order_of_def by (intro sum.cong) auto
  moreover have "used_pages d A = 2 ^ order_of d i + used_pages d (A - {i})"
    unfolding used_pages_def using assms(2) B(2) by (simp add: sum.remove)
  ultimately have "free_pages d' = free_pages d + 2 ^ order_of d i" using B(1,3) d'(3) by linarith
  moreover have "\<forall>q\<in>A - {i}. block_pages d' q = block_pages d q"
    using d'(5) by (simp add: block_pages_def order_of_def)
  ultimately show ?thesis using d' by blast
qed

theorem buddy_free_witness:
  "\<exists>p d1 d2. get_buddy_new 3 one_block_desc = Inr (p, d1) \<and> free_buddy_new p d1 = Inr d2 \<and>
     buddy_inv d2 {}"
proof -
  obtain p d1 where g: "get_buddy_new 3 one_block_desc = Inr (p, d1)" and "buddy_inv d1 {p}"
    using get_buddy_new_spec[OF one_block_desc_inv(1), of 3] one_block_desc_inv
    by (auto simp: MAX_ORDER_def split: sum.splits)
  with buddy_free[of d1 "{p}" p] show ?thesis by auto
qed

text \<open>
  Freeing a block that is free already is caught: \<^verbatim>\<open>free_buddy_new\<close> panics and no list is
  touched.
\<close>

theorem buddy_double_free:
  assumes "buddy_inv d A" "i \<in> free_set d"
  shows "free_buddy_new i d = Inl (Panic ''Trying to free a free buddy'')"
proof -
  note I = buddy_invD[OF assms(1)]
  have "i < length (all_buddies d)" "b_free (blk d i)" "b_order (blk d i) \<le> MAX_ORDER"
    using assms(2) I(1) tilingD(1)[OF I(5), of i] by (auto simp: free_set_def order_of_def)
  then show ?thesis by (subst free_buddy_new.simps) simp
qed

theorem buddy_double_free_witness:
  "free_buddy_new 0 one_block_desc = Inl (Panic ''Trying to free a free buddy'')"
  using buddy_double_free[OF one_block_desc_inv(1)] one_block_desc_inv(4) by simp



end
