(* ===== verification/Pages_Inv.thy ===== *)
theory Pages_Inv
  imports Pages Buddy_Inv
begin

text \<open>
  The correctness of the page allocators. \<open>kmem_inv s K F\<close> is the invariant of the memory state
  with the allocated blocks \<open>K\<close> of the kernel region and \<open>F\<close> of the fast region. A client sees
  neither: its view is the set of the live allocations, pairs of an address and an order
  (\<open>live\<close>), and the locale \<open>page_allocator\<close> says what it may rely on.
\<close>

section \<open>Addresses of blocks\<close>

definition addr_of :: "buddy_mem_desc \<Rightarrow> nat \<Rightarrow> u32" where
  "addr_of d p = VA (word_of_nat (pfn_offset d + p) * PAGE_SIZE)"

text \<open>The region lies in the gigabyte that the kernel maps.\<close>

definition region_ok :: "buddy_mem_desc \<Rightarrow> bool" where
  "region_ok d \<longleftrightarrow> pfn_offset d + tot_pages d \<le> 2 ^ 18"

lemma unat_page_addr:
  assumes "n < 2 ^ 18"
  shows "unat (word_of_nat n * PAGE_SIZE :: u32) = n * 4096"
  using assms by (simp add: PAGE_SIZE_def unat_word_ariths unat_of_nat take_bit_eq_mod)

lemma unat_addr_of:
  assumes "region_ok d" "p < tot_pages d"
  shows "unat (addr_of d p) = 0xC0000000 + (pfn_offset d + p) * 4096"
proof -
  have n: "pfn_offset d + p < 2 ^ 18" using assms by (simp add: region_ok_def)
  have "unat (word_of_nat (pfn_offset d + p) * PAGE_SIZE :: u32) < 0x40000000"
    using n unfolding unat_page_addr[OF n] by simp
  then show ?thesis using unat_VA unat_page_addr[OF n] by (simp add: addr_of_def)
qed

lemma buddy_new_from_phys_addr:
  assumes "region_ok d" "p < tot_pages d"
  shows "buddy_new_from_phys (PA (addr_of d p)) d = p"
proof -
  have n: "pfn_offset d + p < 2 ^ 18" using assms by (simp add: region_ok_def)
  have "unat (word_of_nat (pfn_offset d + p) * PAGE_SIZE div PAGE_SIZE :: u32) = pfn_offset d + p"
    using unat_page_addr[OF n] by (simp add: unat_div_distrib) (simp add: PAGE_SIZE_def)
  then have "word_of_nat (pfn_offset d + p) * PAGE_SIZE div PAGE_SIZE = (word_of_nat (pfn_offset d + p) :: u32)"
    using n unat_u32[of "pfn_offset d + p"] by (simp add: word_unat_eq_iff del: of_nat_add)
  moreover have "unat (word_of_nat p :: u32) = p"
    using n by (intro unat_u32) simp
  ultimately show ?thesis by (simp add: buddy_new_from_phys_def addr_of_def)
qed

lemma addr_of_inj:
  "region_ok d \<Longrightarrow> p < tot_pages d \<Longrightarrow> q < tot_pages d \<Longrightarrow> addr_of d p = addr_of d q \<longleftrightarrow> p = q"
  by (metis buddy_new_from_phys_addr)

lemma addr_of_cong: "pfn_offset d' = pfn_offset d \<Longrightarrow> addr_of d' p = addr_of d p"
  by (simp add: addr_of_def)

section \<open>The live allocations\<close>

definition live :: "buddy_mem_desc \<Rightarrow> nat set \<Rightarrow> (u32 \<times> nat) set" where
  "live d A = (\<lambda>p. (addr_of d p, order_of d p)) ` A"

text \<open>The bytes of an allocation.\<close>

definition bytes_of :: "u32 \<times> nat \<Rightarrow> nat set" where
  "bytes_of r = {unat (fst r)..<unat (fst r) + 4096 * 2 ^ snd r}"

definition page_aligned :: "u32 \<Rightarrow> bool" where
  "page_aligned a \<longleftrightarrow> unat a mod 4096 = 0"

lemma bytes_of_block:
  assumes "buddy_inv d A" "region_ok d" "p \<in> A"
  shows "bytes_of (addr_of d p, order_of d p) =
     {0xC0000000 + (pfn_offset d + p) * 4096..<0xC0000000 + (pfn_offset d + p + 2 ^ order_of d p) * 4096}"
    "p + 2 ^ order_of d p \<le> tot_pages d"
proof -
  note t = tilingD[OF buddy_invD(5)[OF assms(1)], of p]
  show "p + 2 ^ order_of d p \<le> tot_pages d" using t(3) assms(3) by blast
  show "bytes_of (addr_of d p, order_of d p) =
     {0xC0000000 + (pfn_offset d + p) * 4096..<0xC0000000 + (pfn_offset d + p + 2 ^ order_of d p) * 4096}"
    using t(4) assms(3) unat_addr_of[OF assms(2), of p] by (simp add: bytes_of_def algebra_simps)
qed

lemma blocks_bytes_disjoint:
  assumes "buddy_inv d A" "region_ok d" "p \<in> A" "q \<in> A" "p \<noteq> q"
  shows "bytes_of (addr_of d p, order_of d p) \<inter> bytes_of (addr_of d q, order_of d q) = {}"
proof -
  have dj: "block_pages d p \<inter> block_pages d q = {}"
    using blocks_disjoint[OF assms(1)] assms(3-5) by blast
  have "p + 2 ^ order_of d p \<le> q \<or> q + 2 ^ order_of d q \<le> p"
  proof (rule ccontr)
    assume "\<not> ?thesis"
    then have "max p q \<in> block_pages d p \<inter> block_pages d q" by (auto simp: block_pages_def)
    with dj show False by blast
  qed
  then have "(pfn_offset d + p + 2 ^ order_of d p) * 4096 \<le> (pfn_offset d + q) * 4096 \<or>
      (pfn_offset d + q + 2 ^ order_of d q) * 4096 \<le> (pfn_offset d + p) * 4096"
    by (elim disjE) (auto intro!: mult_le_mono1)
  then show ?thesis
    unfolding bytes_of_block(1)[OF assms(1,2,3)] bytes_of_block(1)[OF assms(1,2,4)] by auto
qed

section \<open>One allocation on a descriptor\<close>

lemma calc_buddy_phys_block:
  assumes "buddy_inv d A" "p \<in> A"
  shows "\<exists>phys. calc_buddy_phys p d = Inr phys \<and> VA phys = addr_of d p"
    "block_bytes p d = Inr (word_of_nat (4096 * 2 ^ order_of d p))"
proof -
  have p: "p < tot_pages d" "p < length (all_buddies d)" "b_pfn (blk d p) = p"
    using tilingD(4)[OF buddy_invD(5)[OF assms(1)], of p] buddy_invD(1,3)[OF assms(1)] assms(2)
    by auto
  show "\<exists>phys. calc_buddy_phys p d = Inr phys \<and> VA phys = addr_of d p"
    using p by (simp add: calc_buddy_phys_def addr_of_def)
  show "block_bytes p d = Inr (word_of_nat (4096 * 2 ^ order_of d p))"
    using p by (simp add: block_bytes_def order_of_def PAGES_PER_BLOCK_def PAGE_SIZE_def)
qed

lemma view_cong:
  assumes "\<forall>q\<in>A. blk d' q = blk d q"
  shows "used_pages d' A = used_pages d A"
    "pfn_offset d' = pfn_offset d \<Longrightarrow> live d' A = live d A"
proof -
  have o': "order_of d' q = order_of d q" if "q \<in> A" for q
    using assms that by (simp add: order_of_def)
  show "used_pages d' A = used_pages d A"
    unfolding used_pages_def by (intro sum.cong refl) (simp add: o')
  show "live d' A = live d A" if "pfn_offset d' = pfn_offset d"
    unfolding live_def by (intro image_cong refl) (simp add: o' addr_of_def that)
qed

lemma desc_alloc:
  assumes inv: "buddy_inv d A" and reg: "region_ok d" and g: "get_buddy_new order d = Inr (p, d')"
  shows "buddy_inv d' (insert p A)" "region_ok d'" "p \<notin> A" "pfn_offset d' = pfn_offset d"
    "tot_pages d' = tot_pages d" "order_of d' p = order" "p < tot_pages d"
    "live d' (insert p A) = insert (addr_of d p, order) (live d A)"
    "used_pages d' (insert p A) = used_pages d A + 2 ^ order"
    "\<And>r. r \<in> live d A \<Longrightarrow> bytes_of (addr_of d p, order) \<inter> bytes_of r = {}"
proof -
  have "order \<le> MAX_ORDER"
    using g by (subst (asm) get_buddy_new.simps) (auto split: if_splits)
  from get_buddy_new_spec[OF inv this] g
  show d': "p \<notin> A" "buddy_inv d' (insert p A)" "order_of d' p = order" "tot_pages d' = tot_pages d"
    "pfn_offset d' = pfn_offset d" by auto
  from get_buddy_new_spec[OF inv \<open>order \<le> MAX_ORDER\<close>] g
  have eq: "\<forall>q\<in>A. blk d' q = blk d q" by auto
  show reg': "region_ok d'" using reg d' by (simp add: region_ok_def)
  show "p < tot_pages d" using tilingD(4)[OF buddy_invD(5)[OF d'(2)], of p] d'(4) by simp
  show l: "live d' (insert p A) = insert (addr_of d p, order) (live d A)"
    using view_cong(2)[OF eq d'(5)] d'(3) addr_of_cong[OF d'(5), of p] by (simp add: live_def)
  have "used_pages d' A = used_pages d A" by (rule view_cong(1)[OF eq])
  then show "used_pages d' (insert p A) = used_pages d A + 2 ^ order"
    using d'(1,3) pages_balance(2)[OF inv] by (simp add: used_pages_def)
  fix r assume "r \<in> live d A"
  then obtain q where q: "q \<in> A" "r = (addr_of d' q, order_of d' q)"
    unfolding view_cong(2)[OF eq d'(5), symmetric] by (auto simp: live_def)
  then have "p \<noteq> q" using d'(1) by blast
  with blocks_bytes_disjoint[OF d'(2) reg', of p q] q d'(3) addr_of_cong[OF d'(5)]
  show "bytes_of (addr_of d p, order) \<inter> bytes_of r = {}" by simp
qed

lemma desc_free:
  assumes inv: "buddy_inv d A" and reg: "region_ok d" and p: "p \<in> A"
  shows "\<exists>d'. free_buddy_new p d = Inr d' \<and> buddy_inv d' (A - {p}) \<and> region_ok d' \<and>
     pfn_offset d' = pfn_offset d \<and> tot_pages d' = tot_pages d \<and>
     live d' (A - {p}) = live d A - {(addr_of d p, order_of d p)} \<and>
     used_pages d A = used_pages d' (A - {p}) + 2 ^ order_of d p"
proof -
  from free_buddy_new_spec[OF inv p] obtain d' where d': "free_buddy_new p d = Inr d'"
    "buddy_inv d' (A - {p})" "tot_pages d' = tot_pages d" "pfn_offset d' = pfn_offset d"
    and eq: "\<forall>q\<in>A - {p}. blk d' q = blk d q" by blast
  have lt: "q < tot_pages d" if "q \<in> A" for q
    using tilingD(4)[OF buddy_invD(5)[OF inv]] that by blast
  have "live d' (A - {p}) = live d (A - {p})" by (rule view_cong(2)[OF eq d'(4)])
  also have "\<dots> = live d A - {(addr_of d p, order_of d p)}"
    using addr_of_inj[OF reg lt lt] p by (auto simp: live_def)
  finally have l: "live d' (A - {p}) = live d A - {(addr_of d p, order_of d p)}" .
  have "used_pages d' (A - {p}) = used_pages d (A - {p})" by (rule view_cong(1)[OF eq])
  then have "used_pages d A = used_pages d' (A - {p}) + 2 ^ order_of d p"
    using p pages_balance(2)[OF inv] by (simp add: used_pages_def sum.remove)
  with d' l reg show ?thesis by (simp add: region_ok_def)
qed

section \<open>The invariant of the memory state\<close>

definition kmem_inv :: "kmem \<Rightarrow> nat set \<Rightarrow> nat set \<Rightarrow> bool" where
  "kmem_inv s K F \<longleftrightarrow>
     buddy_inv (kernel_buddy_new s) K \<and> region_ok (kernel_buddy_new s) \<and>
     buddy_inv (fast_buddy_new s) F \<and> region_ok (fast_buddy_new s) \<and>
     pfn_offset (kernel_buddy_new s) + tot_pages (kernel_buddy_new s) \<le> pfn_offset (fast_buddy_new s) \<and>
     total_kused_memory s = word_of_nat (4096 * used_pages (kernel_buddy_new s) K) \<and>
     total_fused_memory s = word_of_nat (4096 * used_pages (fast_buddy_new s) F) \<and>
     total_used_memory s = total_kused_memory s + total_fused_memory s"

lemma kmem_invD:
  assumes "kmem_inv s K F"
  shows "buddy_inv (kernel_buddy_new s) K" "region_ok (kernel_buddy_new s)"
    "buddy_inv (fast_buddy_new s) F" "region_ok (fast_buddy_new s)"
    "pfn_offset (kernel_buddy_new s) + tot_pages (kernel_buddy_new s) \<le> pfn_offset (fast_buddy_new s)"
    "total_kused_memory s = word_of_nat (4096 * used_pages (kernel_buddy_new s) K)"
    "total_fused_memory s = word_of_nat (4096 * used_pages (fast_buddy_new s) F)"
    "total_used_memory s = total_kused_memory s + total_fused_memory s"
  using assms by (simp_all add: kmem_inv_def)

text \<open>The bytes of an allocation lie in its region, above the kernel base.\<close>

lemma live_range:
  assumes "buddy_inv d A" "region_ok d" "r \<in> live d A"
  shows "bytes_of r \<subseteq> {0xC0000000 + pfn_offset d * 4096..<0xC0000000 + (pfn_offset d + tot_pages d) * 4096}"
    "page_aligned (fst r)" "is_kernel_addr (fst r)"
proof -
  from assms(3) obtain p where p: "p \<in> A" "r = (addr_of d p, order_of d p)" by (auto simp: live_def)
  have lt: "p < tot_pages d" using tilingD(4)[OF buddy_invD(5)[OF assms(1)], of p] p by simp
  note B = bytes_of_block[OF assms(1,2) p(1)]
  have "(pfn_offset d + p + 2 ^ order_of d p) * 4096 \<le> (pfn_offset d + tot_pages d) * 4096"
    using B(2) by (intro mult_le_mono1) simp
  then show "bytes_of r \<subseteq> {0xC0000000 + pfn_offset d * 4096..<0xC0000000 + (pfn_offset d + tot_pages d) * 4096}"
    unfolding p(2) B(1) by auto
  have u: "unat (addr_of d p) = 0xC0000000 + (pfn_offset d + p) * 4096"
    by (rule unat_addr_of[OF assms(2) lt])
  show "page_aligned (fst r)" using u p by (simp add: page_aligned_def)
  show "is_kernel_addr (fst r)"
    using u p by (simp add: is_kernel_addr_def KERNEL_VIRTUAL_ADDRESS_BASE_def word_le_nat_alt)
qed

lemma regions_disjoint:
  assumes "kmem_inv s K F" "r \<in> live (kernel_buddy_new s) K" "r' \<in> live (fast_buddy_new s) F"
  shows "bytes_of r \<inter> bytes_of r' = {}"
proof -
  note I = kmem_invD[OF assms(1)]
  have "0xC0000000 + (pfn_offset (kernel_buddy_new s) + tot_pages (kernel_buddy_new s)) * 4096
      \<le> 0xC0000000 + pfn_offset (fast_buddy_new s) * 4096"
    using I(5) by simp
  then show ?thesis
    using live_range(1)[OF I(1,2) assms(2)] live_range(1)[OF I(3,4) assms(3)] by fastforce
qed

section \<open>The allocators\<close>

lemma kalloc_nosleep_inv:
  assumes inv: "kmem_inv s K F" and k: "kalloc_nosleep order s = Inr (a, s')"
  shows "\<exists>p. p \<notin> K \<and> a = addr_of (kernel_buddy_new s) p \<and> kmem_inv s' (insert p K) F \<and>
     live (kernel_buddy_new s') (insert p K) = insert (a, order) (live (kernel_buddy_new s) K) \<and>
     fast_buddy_new s' = fast_buddy_new s \<and> kmem_lock s' = kmem_lock s \<and>
     (\<forall>r\<in>live (kernel_buddy_new s) K. bytes_of (a, order) \<inter> bytes_of r = {}) \<and>
     get_buddy_new order (kernel_buddy_new s) = Inr (p, kernel_buddy_new s')"
proof -
  note I = kmem_invD[OF inv]
  from k obtain p d where g: "get_buddy_new order (kernel_buddy_new s) = Inr (p, d)"
    by (auto simp: kalloc_nosleep_def res_bind_Inr_iff)
  note D = desc_alloc[OF I(1,2) g]
  from calc_buddy_phys_block[OF D(1), of p] obtain phys where
    phys: "calc_buddy_phys p d = Inr phys" "VA phys = addr_of d p"
    "block_bytes p d = Inr (word_of_nat (4096 * 2 ^ order))" using D(6) by auto
  have s': "a = addr_of (kernel_buddy_new s) p"
    "s' = s\<lparr>kernel_buddy_new := d,
       total_kused_memory := total_kused_memory s + word_of_nat (4096 * 2 ^ order),
       total_used_memory := total_used_memory s + word_of_nat (4096 * 2 ^ order)\<rparr>"
    using k g phys addr_of_cong[OF D(4)] by (auto simp: kalloc_nosleep_def)
  have "kmem_inv s' (insert p K) F"
    using I D s'(2) by (simp add: kmem_inv_def algebra_simps)
  then show ?thesis using D s' g by auto
qed

text \<open>With the lock free, \<^verbatim>\<open>kalloc_page\<close> is \<^verbatim>\<open>kalloc_nosleep\<close>: the lock is taken and given
  back.\<close>

lemma kalloc_page_free:
  assumes "kmem_lock s = LOCK_FREE"
  shows "kalloc_page order s = kalloc_nosleep order s"
proof (cases "get_buddy_new order (kernel_buddy_new s)")
  case (Inr r)
  obtain p d where r: "r = (p, d)" by (cases r)
  show ?thesis
  proof (cases "calc_buddy_phys p d"; cases "block_bytes p d")
    fix phys n assume "calc_buddy_phys p d = Inr phys" "block_bytes p d = Inr n"
    with Inr r assms show ?thesis
      by (cases s) (simp add: kalloc_page_def kalloc_nosleep_def take_lock_def test_spin_lock_def
          LOCK_FREE_def LOCK_LOCKED_def)
  qed (use Inr r assms in \<open>simp_all add: kalloc_page_def kalloc_nosleep_def take_lock_def
      test_spin_lock_def LOCK_FREE_def LOCK_LOCKED_def\<close>)
qed (use assms in \<open>simp add: kalloc_page_def kalloc_nosleep_def take_lock_def test_spin_lock_def
    LOCK_FREE_def LOCK_LOCKED_def\<close>)

lemma page_calls_blocked:
  assumes "kmem_lock s = LOCK_LOCKED"
  shows "kalloc_page order s = Inl Sleeps" "a \<noteq> 0 \<Longrightarrow> kfree_page a s = Inl Sleeps"
  using assms by (simp_all add: kalloc_page_def kfree_page_def take_lock_def test_spin_lock_def)

lemma addr_of_nonzero:
  assumes "buddy_inv d A" "region_ok d" "p \<in> A"
  shows "addr_of d p \<noteq> 0"
proof -
  have "is_kernel_addr (addr_of d p)"
    using live_range(3)[OF assms(1,2), of "(addr_of d p, order_of d p)"] assms(3)
    by (auto simp: live_def)
  then show ?thesis by (auto simp: is_kernel_addr_def KERNEL_VIRTUAL_ADDRESS_BASE_def)
qed

lemma kfree_page_inv:
  assumes inv: "kmem_inv s K F" and p: "p \<in> K" and lock: "kmem_lock s = LOCK_FREE"
  shows "\<exists>s'. kfree_page (addr_of (kernel_buddy_new s) p) s = Inr s' \<and> kmem_inv s' (K - {p}) F \<and>
     live (kernel_buddy_new s') (K - {p}) = live (kernel_buddy_new s) K -
        {(addr_of (kernel_buddy_new s) p, order_of (kernel_buddy_new s) p)} \<and>
     fast_buddy_new s' = fast_buddy_new s \<and> kmem_lock s' = LOCK_FREE"
proof -
  note I = kmem_invD[OF inv]
  let ?d = "kernel_buddy_new s" and ?n = "word_of_nat (4096 * 2 ^ order_of (kernel_buddy_new s) p) :: u32"
  from desc_free[OF I(1,2) p] obtain d where d: "free_buddy_new p ?d = Inr d"
    "buddy_inv d (K - {p})" "region_ok d" "pfn_offset d = pfn_offset ?d" "tot_pages d = tot_pages ?d"
    "live d (K - {p}) = live ?d K - {(addr_of ?d p, order_of ?d p)}"
    "used_pages ?d K = used_pages d (K - {p}) + 2 ^ order_of ?d p" by blast
  have lt: "p < tot_pages ?d" using tilingD(4)[OF buddy_invD(5)[OF I(1)], of p] p by simp
  let ?s = "s\<lparr>kernel_buddy_new := d, total_kused_memory := total_kused_memory s - ?n,
      total_used_memory := total_used_memory s - ?n\<rparr>"
  have "kfree_page (addr_of ?d p) s = Inr ?s"
    using d(1) calc_buddy_phys_block(2)[OF I(1) p] buddy_new_from_phys_addr[OF I(2) lt]
      addr_of_nonzero[OF I(1,2) p] lock
    by (cases s) (simp add: kfree_page_def Let_def take_lock_def test_spin_lock_def LOCK_FREE_def LOCK_LOCKED_def)
  moreover have "kmem_inv ?s (K - {p}) F"
    using I d by (simp add: kmem_inv_def algebra_simps)
  ultimately show ?thesis using d(6) lock by auto
qed

lemma fmalloc_inv:
  assumes inv: "kmem_inv s K F" and k: "fmalloc sz s = Inr (a, s')"
  defines "order \<equiv> unat (calc_page_order sz)"
  shows "\<exists>p. p \<notin> F \<and> a = addr_of (fast_buddy_new s) p \<and> kmem_inv s' K (insert p F) \<and>
     live (fast_buddy_new s') (insert p F) = insert (a, order) (live (fast_buddy_new s) F) \<and>
     kernel_buddy_new s' = kernel_buddy_new s \<and> kmem_lock s' = kmem_lock s \<and>
     (\<forall>r\<in>live (fast_buddy_new s) F. bytes_of (a, order) \<inter> bytes_of r = {})"
proof -
  note I = kmem_invD[OF inv]
  from k obtain p d where g: "get_buddy_new order (fast_buddy_new s) = Inr (p, d)"
    by (auto simp: fmalloc_def res_bind_Inr_iff order_def)
  note D = desc_alloc[OF I(3,4) g]
  from calc_buddy_phys_block[OF D(1), of p] obtain phys where
    phys: "calc_buddy_phys p d = Inr phys" "VA phys = addr_of d p"
    "block_bytes p d = Inr (word_of_nat (4096 * 2 ^ order))" using D(6) by auto
  have s': "a = addr_of (fast_buddy_new s) p"
    "s' = s\<lparr>fast_buddy_new := d,
       total_fused_memory := total_fused_memory s + word_of_nat (4096 * 2 ^ order),
       total_used_memory := total_used_memory s + word_of_nat (4096 * 2 ^ order)\<rparr>"
    using k g phys addr_of_cong[OF D(4)] by (auto simp: fmalloc_def order_def)
  have "kmem_inv s' K (insert p F)"
    using I D s'(2) by (simp add: kmem_inv_def algebra_simps)
  then show ?thesis using D s' by auto
qed

lemma ffree_inv:
  assumes inv: "kmem_inv s K F" and p: "p \<in> F"
  shows "\<exists>s'. ffree (addr_of (fast_buddy_new s) p) s = Inr s' \<and> kmem_inv s' K (F - {p}) \<and>
     live (fast_buddy_new s') (F - {p}) = live (fast_buddy_new s) F -
        {(addr_of (fast_buddy_new s) p, order_of (fast_buddy_new s) p)} \<and>
     kernel_buddy_new s' = kernel_buddy_new s \<and> kmem_lock s' = kmem_lock s"
proof -
  note I = kmem_invD[OF inv]
  let ?d = "fast_buddy_new s" and ?n = "word_of_nat (4096 * 2 ^ order_of (fast_buddy_new s) p) :: u32"
  from desc_free[OF I(3,4) p] obtain d where d: "free_buddy_new p ?d = Inr d"
    "buddy_inv d (F - {p})" "region_ok d" "pfn_offset d = pfn_offset ?d" "tot_pages d = tot_pages ?d"
    "live d (F - {p}) = live ?d F - {(addr_of ?d p, order_of ?d p)}"
    "used_pages ?d F = used_pages d (F - {p}) + 2 ^ order_of ?d p" by blast
  have lt: "p < tot_pages ?d" using tilingD(4)[OF buddy_invD(5)[OF I(3)], of p] p by simp
  let ?s = "s\<lparr>fast_buddy_new := d, total_fused_memory := total_fused_memory s - ?n,
      total_used_memory := total_used_memory s - ?n\<rparr>"
  have "ffree (addr_of ?d p) s = Inr ?s"
    using d(1) calc_buddy_phys_block(2)[OF I(3) p] buddy_new_from_phys_addr[OF I(4) lt]
      addr_of_nonzero[OF I(3,4) p]
    by (simp add: ffree_def Let_def)
  moreover have "kmem_inv ?s K (F - {p})"
    using I d by (simp add: kmem_inv_def algebra_simps)
  ultimately show ?thesis using d(6) by auto
qed

section \<open>The interface of an allocator\<close>

text \<open>
  A live object is an address with a tag: for pages the tag is the order. \<open>rep s L M\<close>: in the
  state \<open>s\<close> the client's live objects are \<open>L\<close>; \<open>M\<close> are those of others, which no call of the
  client touches. \<open>extent\<close> tells the bytes of an object.
\<close>

inductive client_reaches ::
  "('r \<Rightarrow> 's \<Rightarrow> (u32 \<times> 's) result) \<Rightarrow> (u32 \<Rightarrow> 's \<Rightarrow> 's result) \<Rightarrow> ('r \<Rightarrow> 'k) \<Rightarrow>
   's \<Rightarrow> (u32 \<times> 'k) set \<Rightarrow> 's \<Rightarrow> (u32 \<times> 'k) set \<Rightarrow> bool"
  for alloc free tag_for s0 L0
where
  start: "client_reaches alloc free tag_for s0 L0 s0 L0"
| alloc: "client_reaches alloc free tag_for s0 L0 s L \<Longrightarrow> alloc r s = Inr (a, s') \<Longrightarrow>
     client_reaches alloc free tag_for s0 L0 s' (insert (a, tag_for r) L)"
| free: "client_reaches alloc free tag_for s0 L0 s L \<Longrightarrow> (a, k) \<in> L \<Longrightarrow> free a s = Inr s' \<Longrightarrow>
     client_reaches alloc free tag_for s0 L0 s' (L - {(a, k)})"

definition apart :: "('o \<Rightarrow> nat set) \<Rightarrow> 'o set \<Rightarrow> bool" where
  "apart extent L \<longleftrightarrow> (\<forall>r\<in>L. \<forall>r'\<in>L. r \<noteq> r' \<longrightarrow> extent r \<inter> extent r' = {})"

locale allocator =
  fixes alloc :: "'r \<Rightarrow> 's \<Rightarrow> (u32 \<times> 's) result"
    and free :: "u32 \<Rightarrow> 's \<Rightarrow> 's result"
    and tag_for :: "'r \<Rightarrow> 'k"
    and rep :: "'s \<Rightarrow> (u32 \<times> 'k) set \<Rightarrow> (u32 \<times> 'k) set \<Rightarrow> bool"
    and extent :: "u32 \<times> 'k \<Rightarrow> nat set"
  assumes alloc_step: "rep s L M \<Longrightarrow> alloc r s = Inr (a, s') \<Longrightarrow>
        (a, tag_for r) \<notin> L \<and> rep s' (insert (a, tag_for r) L) M"
    and free_step: "rep s L M \<Longrightarrow> (a, k) \<in> L \<Longrightarrow>
        \<exists>s'. free a s = Inr s' \<and> rep s' (L - {(a, k)}) M"
    and rep_apart: "rep s L M \<Longrightarrow> apart extent (L \<union> M)"
begin

lemma alloc_fresh:
  assumes "rep s L M" "alloc r s = Inr (a, s')" "q \<in> L \<union> M" "q \<noteq> (a, tag_for r)"
  shows "extent (a, tag_for r) \<inter> extent q = {}"
  using rep_apart[of s' "insert (a, tag_for r) L" M] alloc_step[OF assms(1,2)] assms(3,4)
  unfolding apart_def by blast

lemma alloc_free:
  assumes "rep s L M" "alloc r s = Inr (a, s')"
  shows "\<exists>s''. free a s' = Inr s'' \<and> rep s'' L M"
proof -
  from alloc_step[OF assms] have n: "(a, tag_for r) \<notin> L" and "rep s' (insert (a, tag_for r) L) M"
    by auto
  with free_step[OF this(2), of a "tag_for r"] show ?thesis by simp
qed

lemma reaches_rep:
  assumes "client_reaches alloc free tag_for s0 L0 s L" "rep s0 L0 M"
  shows "rep s L M"
  using assms
proof (induction rule: client_reaches.induct)
  case (free s L a k s')
  then show ?case using free_step[of s L M a k] by auto
qed (auto dest: alloc_step)

lemma reaches_apart:
  assumes "client_reaches alloc free tag_for s0 L0 s L" "rep s0 L0 M"
  shows "apart extent (L \<union> M)"
  using rep_apart[OF reaches_rep[OF assms]] .

end

text \<open>A page allocator: the tag is the order, the addresses are page aligned.\<close>

locale page_allocator =
  allocator alloc free order_for rep bytes_of
  for alloc :: "'r \<Rightarrow> 's \<Rightarrow> (u32 \<times> 's) result"
    and free :: "u32 \<Rightarrow> 's \<Rightarrow> 's result"
    and order_for :: "'r \<Rightarrow> nat"
    and rep :: "'s \<Rightarrow> (u32 \<times> nat) set \<Rightarrow> (u32 \<times> nat) set \<Rightarrow> bool" +
  assumes rep_addr: "rep s L M \<Longrightarrow> (a, order) \<in> L \<Longrightarrow> page_aligned a \<and> is_kernel_addr a"
begin

lemma reaches_addr:
  assumes "client_reaches alloc free order_for s0 L0 s L" "rep s0 L0 M"
  shows "\<forall>(a, order)\<in>L. page_aligned a \<and> is_kernel_addr a"
  using rep_addr[OF reaches_rep[OF assms]] by auto

end

definition kernel_rep :: "kmem \<Rightarrow> (u32 \<times> nat) set \<Rightarrow> (u32 \<times> nat) set \<Rightarrow> bool" where
  "kernel_rep s L M \<longleftrightarrow> kmem_lock s = LOCK_FREE \<and>
     (\<exists>K F. kmem_inv s K F \<and> L = live (kernel_buddy_new s) K \<and> M = live (fast_buddy_new s) F)"

definition fast_rep :: "kmem \<Rightarrow> (u32 \<times> nat) set \<Rightarrow> (u32 \<times> nat) set \<Rightarrow> bool" where
  "fast_rep s L M \<longleftrightarrow>
     (\<exists>K F. kmem_inv s K F \<and> L = live (fast_buddy_new s) F \<and> M = live (kernel_buddy_new s) K)"

lemma live_apart:
  assumes "buddy_inv d A" "region_ok d"
  shows "apart bytes_of (live d A)"
  unfolding apart_def
proof (intro ballI impI)
  fix r r' assume "r \<in> live d A" "r' \<in> live d A" "r \<noteq> r'"
  then obtain p q where "p \<in> A" "q \<in> A" "p \<noteq> q" "r = (addr_of d p, order_of d p)"
    "r' = (addr_of d q, order_of d q)" unfolding live_def by blast
  then show "bytes_of r \<inter> bytes_of r' = {}" using blocks_bytes_disjoint[OF assms] by simp
qed

lemma kmem_apart:
  assumes "kmem_inv s K F"
  shows "apart bytes_of (live (kernel_buddy_new s) K \<union> live (fast_buddy_new s) F)"
  using live_apart[OF kmem_invD(1,2)[OF assms]] live_apart[OF kmem_invD(3,4)[OF assms]]
    regions_disjoint[OF assms]
  unfolding apart_def by (metis Int_commute UnE)

lemma kernel_alloc_step:
  assumes "kernel_rep s L M" "kalloc_nosleep order s = Inr (a, s')"
  shows "(a, order) \<notin> L \<and> kernel_rep s' (insert (a, order) L) M"
proof -
  from assms(1) obtain K F where inv: "kmem_inv s K F" and lock: "kmem_lock s = LOCK_FREE"
    and LM: "L = live (kernel_buddy_new s) K" "M = live (fast_buddy_new s) F"
    unfolding kernel_rep_def by blast
  from kalloc_nosleep_inv[OF inv assms(2)] obtain p where
    p: "kmem_inv s' (insert p K) F" "kmem_lock s' = kmem_lock s" "fast_buddy_new s' = fast_buddy_new s"
      "live (kernel_buddy_new s') (insert p K) = insert (a, order) (live (kernel_buddy_new s) K)"
    and dj: "\<forall>r\<in>live (kernel_buddy_new s) K. bytes_of (a, order) \<inter> bytes_of r = {}" by blast
  have "bytes_of (a, order) \<noteq> {}" by (simp add: bytes_of_def)
  with dj LM have "(a, order) \<notin> L" by auto
  moreover have "kernel_rep s' (insert (a, order) L) M"
    unfolding kernel_rep_def LM using p lock by (intro conjI exI[of _ "insert p K"] exI[of _ F]) simp_all
  ultimately show ?thesis by blast
qed

lemma kernel_free_step:
  assumes "kernel_rep s L M" "(a, order) \<in> L"
  shows "\<exists>s'. kfree_page a s = Inr s' \<and> kernel_rep s' (L - {(a, order)}) M"
proof -
  from assms(1) obtain K F where inv: "kmem_inv s K F" and lock: "kmem_lock s = LOCK_FREE"
    and LM: "L = live (kernel_buddy_new s) K" "M = live (fast_buddy_new s) F"
    unfolding kernel_rep_def by blast
  from assms(2) LM obtain p where p: "p \<in> K" "a = addr_of (kernel_buddy_new s) p"
    "order = order_of (kernel_buddy_new s) p" by (auto simp: live_def)
  from kfree_page_inv[OF inv p(1) lock] p(2,3) LM show ?thesis unfolding kernel_rep_def by metis
qed

lemma fast_alloc_step:
  assumes "fast_rep s L M" "fmalloc sz s = Inr (a, s')"
  shows "(a, unat (calc_page_order sz)) \<notin> L \<and> fast_rep s' (insert (a, unat (calc_page_order sz)) L) M"
proof -
  let ?o = "unat (calc_page_order sz)"
  from assms(1) obtain K F where inv: "kmem_inv s K F"
    and LM: "L = live (fast_buddy_new s) F" "M = live (kernel_buddy_new s) K"
    unfolding fast_rep_def by blast
  from fmalloc_inv[OF inv assms(2)] obtain p where
    p: "kmem_inv s' K (insert p F)" "kernel_buddy_new s' = kernel_buddy_new s"
      "live (fast_buddy_new s') (insert p F) = insert (a, ?o) (live (fast_buddy_new s) F)"
    and dj: "\<forall>r\<in>live (fast_buddy_new s) F. bytes_of (a, ?o) \<inter> bytes_of r = {}" by blast
  have "bytes_of (a, ?o) \<noteq> {}" by (simp add: bytes_of_def)
  with dj LM have "(a, ?o) \<notin> L" by auto
  moreover have "fast_rep s' (insert (a, ?o) L) M"
    unfolding fast_rep_def LM using p by (intro exI[of _ "insert p F"] exI[of _ K]) simp_all
  ultimately show ?thesis by blast
qed

lemma fast_free_step:
  assumes "fast_rep s L M" "(a, order) \<in> L"
  shows "\<exists>s'. ffree a s = Inr s' \<and> fast_rep s' (L - {(a, order)}) M"
proof -
  from assms(1) obtain K F where inv: "kmem_inv s K F"
    and LM: "L = live (fast_buddy_new s) F" "M = live (kernel_buddy_new s) K"
    unfolding fast_rep_def by blast
  from assms(2) LM obtain p where p: "p \<in> F" "a = addr_of (fast_buddy_new s) p"
    "order = order_of (fast_buddy_new s) p" by (auto simp: live_def)
  from ffree_inv[OF inv p(1)] p(2,3) LM show ?thesis unfolding fast_rep_def by metis
qed

lemma live_addr:
  assumes "buddy_inv d A" "region_ok d" "(a, order) \<in> live d A"
  shows "page_aligned a \<and> is_kernel_addr a"
  using live_range(2,3)[OF assms] by simp

interpretation kernel_pages: page_allocator kalloc_page kfree_page "\<lambda>order. order" kernel_rep
  by unfold_locales
    (auto simp: kalloc_page_free kernel_rep_def[THEN iffD1, THEN conjunct1]
       dest: kernel_alloc_step kernel_free_step,
     auto simp: kernel_rep_def dest: kmem_apart live_addr kmem_invD)

interpretation kernel_pages_nosleep: page_allocator kalloc_nosleep kfree_page "\<lambda>order. order" kernel_rep
  by unfold_locales
    (auto dest: kernel_alloc_step kernel_free_step,
     auto simp: kernel_rep_def dest: kmem_apart live_addr kmem_invD)

interpretation fast_pages: page_allocator fmalloc ffree "\<lambda>sz. unat (calc_page_order sz)" fast_rep
  by unfold_locales
    (auto dest: fast_alloc_step fast_free_step,
     auto simp: fast_rep_def Un_commute dest: kmem_apart live_addr kmem_invD)

text \<open>The counters, in terms of the live allocations.\<close>

lemma used_live:
  assumes "buddy_inv d A" "region_ok d"
  shows "(\<Sum>r\<in>live d A. 4096 * 2 ^ snd r) = 4096 * used_pages d A"
proof -
  have "inj_on (\<lambda>p. (addr_of d p, order_of d p)) A"
    using addr_of_inj[OF assms(2)] tilingD(4)[OF buddy_invD(5)[OF assms(1)]] by (auto intro!: inj_onI)
  then show ?thesis
    by (simp add: live_def sum.reindex used_pages_def sum_distrib_left)
qed

end
