(* ===== verification/Pages_Props.thy ===== *)
theory Pages_Props
  imports Pages_Inv
begin

text \<open>
  The properties of the page allocators: the size computation of \<^verbatim>\<open>calc_page_order\<close>, what
  \<^verbatim>\<open>init_memory_alloc\<close> sets up, and what a client of \<^verbatim>\<open>kalloc_page\<close> / \<^verbatim>\<open>kfree_page\<close> and
  \<^verbatim>\<open>fmalloc\<close> / \<^verbatim>\<open>ffree\<close> can rely on along any sequence of calls.
\<close>

section \<open>Sizes\<close>

lemma PAGES_PER_BLOCK_u32:
  "order \<le> MAX_ORDER \<Longrightarrow> unat (word_of_nat (PAGES_PER_BLOCK order) :: u32) = 2 ^ order"
  using power_increasing[of order MAX_ORDER "2::nat"]
  by (intro unat_u32[unfolded PAGES_PER_BLOCK_def[symmetric], THEN trans])
    (simp_all add: PAGES_PER_BLOCK_def MAX_ORDER_def)

lemma calc_page_order_loop_fits:
  assumes "unat pages \<le> 1024" "order \<le> MAX_ORDER" "\<forall>q<order. 2 ^ q < unat pages"
  shows "\<exists>q\<le>MAX_ORDER. calc_page_order_loop pages order = word_of_nat q \<and> unat pages \<le> 2 ^ q \<and>
     (\<forall>r<q. 2 ^ r < unat pages)"
  using assms
proof (induction pages order rule: calc_page_order_loop.induct)
  case (1 pages order)
  show ?case
  proof (cases "unat pages \<le> 2 ^ order")
    case True
    with 1(3,4) show ?thesis
      by (intro exI[of _ order], subst calc_page_order_loop.simps)
        (simp add: word_le_nat_alt PAGES_PER_BLOCK_u32)
  next
    case False
    then have "order \<noteq> MAX_ORDER" using 1(2) by (auto simp: MAX_ORDER_def)
    with 1(3) have "order + 1 \<le> MAX_ORDER" by simp
    moreover have "\<forall>q<order + 1. 2 ^ q < unat pages" using 1(4) False by (auto simp: less_Suc_eq)
    moreover have "calc_page_order_loop pages order = calc_page_order_loop pages (order + 1)"
      using False 1(3) by (subst calc_page_order_loop.simps) (simp add: word_le_nat_alt PAGES_PER_BLOCK_u32)
    ultimately show ?thesis using 1(1)[of, OF 1(3) _ 1(2)] False 1(3)
      by (simp add: word_le_nat_alt PAGES_PER_BLOCK_u32)
  qed
qed

lemma calc_page_order_loop_none:
  assumes "1024 < unat pages" "order \<le> MAX_ORDER + 1"
  shows "calc_page_order_loop pages order = - 1"
  using assms
proof (induction pages order rule: calc_page_order_loop.induct)
  case (1 pages order)
  show ?case
  proof (cases "order \<le> MAX_ORDER")
    case True
    then have "(2::nat) ^ order \<le> 1024"
      using power_increasing[of order MAX_ORDER "2::nat"] by (simp add: MAX_ORDER_def)
    with 1(2) have n: "\<not> pages \<le> word_of_nat (PAGES_PER_BLOCK order)"
      by (simp add: word_le_nat_alt PAGES_PER_BLOCK_u32[OF True])
    from 1(1)[OF True n 1(2)] True n show ?thesis by (subst calc_page_order_loop.simps) simp
  qed (subst calc_page_order_loop.simps, simp)
qed

lemma page_count:
  fixes sz :: u32
  defines "pages \<equiv> sz div PAGE_SIZE + (if sz mod PAGE_SIZE > 0 then 1 else 0)"
  shows "unat pages = (unat sz + 4095) div 4096"
proof -
  have u: "unat (sz div PAGE_SIZE) = unat sz div 4096" "unat (sz mod PAGE_SIZE) = unat sz mod 4096"
    by (simp_all add: unat_div_distrib unat_mod_distrib PAGE_SIZE_def)
  have lt: "unat sz < 2 ^ 32" using unsigned_less[of sz] by simp
  have "unat (sz div PAGE_SIZE + 1) = unat sz div 4096 + 1"
    using u lt by (subst unat_word_ariths) simp
  moreover have "sz mod PAGE_SIZE > 0 \<longleftrightarrow> unat sz mod 4096 > 0"
    using u by (simp add: word_less_nat_alt)
  moreover have "(unat sz + 4095) div 4096 = unat sz div 4096 + (unat sz mod 4096 + 4095) div 4096"
    using div_add1_eq[of "unat sz" 4095 4096] by simp
  moreover have one: "(n mod 4096 + 4095) div 4096 = 1" if "0 < n mod 4096" for n :: nat
    using that by (intro div_nat_eqI) (use mod_less_divisor[of 4096 n] in auto)
  ultimately show ?thesis using u one[of "unat sz"]
    by (cases "0 < unat sz mod 4096") (simp_all only: pages_def if_True if_False, simp_all)
qed

lemma page_order_fits:
  "if unat sz \<le> 4096 * 1024
   then unat (calc_page_order sz) \<le> MAX_ORDER \<and>
        unat sz \<le> 4096 * 2 ^ unat (calc_page_order sz) \<and>
        (\<forall>q<unat (calc_page_order sz). 4096 * 2 ^ q < unat sz)
   else calc_page_order sz = - 1 \<and>
        get_buddy_new (unat (calc_page_order sz)) d = Inl (Panic ''Invalid order to alloc'')"
proof -
  define pages where "pages = sz div PAGE_SIZE + (if sz mod PAGE_SIZE > 0 then 1 else 0)"
  have pg: "unat pages = (unat sz + 4095) div 4096" unfolding pages_def by (rule page_count)
  have c: "calc_page_order sz = calc_page_order_loop pages 0"
    by (simp add: calc_page_order_def pages_def)
  show ?thesis
  proof (cases "unat sz \<le> 4096 * 1024")
    case True
    then have "unat pages \<le> 1024" unfolding pg by simp
    then obtain q where q: "q \<le> MAX_ORDER" "calc_page_order sz = word_of_nat q" "unat pages \<le> 2 ^ q"
      "\<forall>r<q. 2 ^ r < unat pages" using calc_page_order_loop_fits[of pages 0] c by auto
    have u: "unat (calc_page_order sz) = q" using q(1,2) unat_u32[of q] by (simp add: MAX_ORDER_def)
    have "unat sz \<le> 4096 * 2 ^ q" using q(3) unfolding pg by linarith
    moreover have "4096 * 2 ^ r < unat sz" if "r < q" for r
    proof -
      have "Suc (2 ^ r) \<le> (unat sz + 4095) div 4096" using q(4) that unfolding pg by (metis Suc_leI)
      then show ?thesis by (simp add: less_eq_div_iff_mult_less_eq)
    qed
    ultimately show ?thesis using True u q(1) by simp
  next
    case False
    then have "1024 < unat pages" unfolding pg by simp
    then have "calc_page_order sz = - 1" using c calc_page_order_loop_none[of pages 0] by simp
    moreover have "unat (- 1 :: u32) = 4294967295" by (simp add: unsigned_minus_1_eq_mask mask_eq_exp_minus_1)
    ultimately show ?thesis using False by (subst get_buddy_new.simps) (simp add: MAX_ORDER_def)
  qed
qed

text \<open>
  C30: \<^verbatim>\<open>calc_page_order\<close> returns the smallest order whose block holds \<open>sz\<close> bytes, up to the
  4 MiB of the highest order; above that it returns \<open>- 1\<close>, which the allocators answer with a
  panic.
\<close>

theorem calc_page_order_smallest:
  "if unat sz \<le> 4096 * 1024
   then unat (calc_page_order sz) \<le> MAX_ORDER \<and>
        unat sz \<le> 4096 * 2 ^ unat (calc_page_order sz) \<and>
        (\<forall>q<unat (calc_page_order sz). 4096 * 2 ^ q < unat sz)
   else calc_page_order sz = - 1 \<and>
        get_buddy_new (unat (calc_page_order sz)) d = Inl (Panic ''Invalid order to alloc'')"
  by (rule page_order_fits)

theorem calc_page_order_smallest_witness:
  "(5000 :: nat) \<le> 4096 * 2 ^ unat (calc_page_order 5000) \<and> calc_page_order 0x500000 = - 1"
  using calc_page_order_smallest[of 5000] calc_page_order_smallest[of "0x500000"] by simp

section \<open>boot_alloc\<close>

lemma boot_alloc_bounds:
  assumes "unat fma + 4096 + unat sz < 2 ^ 32"
  defines "r \<equiv> boot_alloc sz 1 fma"
  shows "unat fma \<le> unat (fst r)" "unat (fst r) < unat fma + 4096" "page_aligned (fst r)"
    "unat (snd r) = unat (fst r) + unat sz"
proof -
  have z: "fma AND 0xFFF = 0 \<longleftrightarrow> unat fma mod 4096 = 0"
    using unat_and_FFF[of fma] by (metis unat_0 unat_eq_zero)
  show "unat fma \<le> unat (fst r)" "unat (fst r) < unat fma + 4096" "page_aligned (fst r)"
    "unat (snd r) = unat (fst r) + unat sz"
    using assms(1) z round_page_mod[of "unat fma"]
    by (auto simp: r_def boot_alloc_def Let_def page_aligned_def unat_word_ariths unat_and_FFFFF000)
qed

section \<open>init_memory_alloc\<close>

lemma kalloc_nosleep_ok:
  assumes inv: "kmem_inv s K F" and g: "get_buddy_new order (kernel_buddy_new s) = Inr (p, d)"
  shows "\<exists>a s'. kalloc_nosleep order s = Inr (a, s') \<and> kernel_buddy_new s' = d \<and>
     free_mem_addr s' = free_mem_addr s"
proof -
  note D = desc_alloc[OF kmem_invD(1,2)[OF inv] g]
  from calc_buddy_phys_block[OF D(1), of p] obtain phys where
    "calc_buddy_phys p d = Inr phys" "block_bytes p d = Inr (word_of_nat (4096 * 2 ^ order))"
    using D(6) by auto
  with g show ?thesis by (simp add: kalloc_nosleep_def)
qed

definition top_blocks :: "nat \<Rightarrow> nat set" where
  "top_blocks n = (\<lambda>k. k * 2 ^ MAX_ORDER) ` {..<n}"

lemma reserve_spec:
  assumes "kmem_inv s (top_blocks i) F" "lists_inv (kernel_buddy_new s) ls"
    and "ls (FreeList MAX_ORDER) = map (\<lambda>k. Block (k * 2 ^ MAX_ORDER)) [i..<m]" "i + n \<le> m"
    and "\<forall>p\<in>top_blocks i. order_of (kernel_buddy_new s) p = MAX_ORDER"
  shows "\<exists>s'. reserve n s = Inr s' \<and> kmem_inv s' (top_blocks (i + n)) F \<and>
     (\<forall>p\<in>top_blocks (i + n). order_of (kernel_buddy_new s') p = MAX_ORDER) \<and>
     pfn_offset (kernel_buddy_new s') = pfn_offset (kernel_buddy_new s) \<and>
     free_mem_addr s' = free_mem_addr s \<and> kmem_lock s' = kmem_lock s"
  using assms
proof (induction n arbitrary: i s ls)
  case (Suc n)
  let ?p = "i * 2 ^ MAX_ORDER" and ?d = "kernel_buddy_new s"
  note I = kmem_invD[OF Suc.prems(1)]
  have ls: "ls (FreeList MAX_ORDER) =
      Block ?p # map (\<lambda>k. Block (k * 2 ^ MAX_ORDER)) [Suc i..<m]"
    using Suc.prems(3,4) by (simp add: upt_conv_Cons)
  from get_buddy_new_top[OF I(1) Suc.prems(2) ls] obtain d where
    g: "get_buddy_new MAX_ORDER ?d = Inr (?p, d)" and
    d: "lists_inv d (ls(FreeList MAX_ORDER := map (\<lambda>k. Block (k * 2 ^ MAX_ORDER)) [Suc i..<m]))"
      "order_of d ?p = MAX_ORDER" "pfn_offset d = pfn_offset ?d" by blast
  from kalloc_nosleep_ok[OF Suc.prems(1) g] obtain a s1 where
    k: "kalloc_nosleep MAX_ORDER s = Inr (a, s1)" "kernel_buddy_new s1 = d"
      "free_mem_addr s1 = free_mem_addr s" by blast
  from kalloc_nosleep_inv[OF Suc.prems(1) k(1)] g have
    s1: "kmem_inv s1 (insert ?p (top_blocks i)) F" "kmem_lock s1 = kmem_lock s" by auto
  have top: "insert ?p (top_blocks i) = top_blocks (Suc i)"
    by (simp add: top_blocks_def lessThan_Suc)
  have "\<forall>q\<in>top_blocks i. blk d q = blk ?d q" "?p \<notin> top_blocks i"
    using get_buddy_new_spec[OF I(1) order_refl] g by auto
  with Suc.prems(5) d(2) have ord: "\<forall>p\<in>top_blocks (Suc i). order_of (kernel_buddy_new s1) p = MAX_ORDER"
    unfolding top[symmetric] k(2) by (auto simp: order_of_def)
  have "Suc i + n \<le> m" using Suc.prems(4) by simp
  from Suc.IH[OF s1(1)[unfolded top] d(1)[folded k(2)] _ this ord] show ?case
    using k s1(2) d(3) by (auto simp: MAX_ORDER_def)
qed simp

lemma init_buddy_new_fma:
  "init_buddy_new n off d fma = Inr (d', a) \<Longrightarrow>
     a = snd (boot_alloc (word_of_nat (n div 1024 * 1024 * 20)) 1 fma)"
  by (auto simp: init_buddy_new_def PAGES_PER_BLOCK_def MAX_ORDER_def sizeof_BuddyBlockNew_def Let_def
      split: if_splits prod.splits)

lemma init_buddy_new_bump:
  assumes "1024 \<le> n" "n < 0x100000" "unat fma < 0xFE000000"
  shows "\<exists>d' a. init_buddy_new n off d fma = Inr (d', a) \<and> unat fma \<le> unat a \<and>
     unat a \<le> unat fma + 4096 + 20 * n"
proof -
  obtain d' a where i: "init_buddy_new n off d fma = Inr (d', a)"
    using init_buddy_new_returns[OF assms(1)] by blast
  define z where "z = n div 1024 * 1024 * 20"
  have le: "z \<le> 20 * n" by (simp add: z_def)
  have u: "unat (word_of_nat z :: u32) = z"
    using le assms(2) by (intro unat_u32) simp
  have "unat fma + 4096 + unat (word_of_nat z :: u32) < 2 ^ 32"
    unfolding u using le assms(2,3) by simp
  note B = boot_alloc_bounds[OF this]
  have "unat fma \<le> unat a" "unat a \<le> unat fma + 4096 + 20 * n"
    using B(1,2,4) u le unfolding init_buddy_new_fma[OF i, folded z_def] by linarith+
  with i show ?thesis by blast
qed

text \<open>
  C12: \<^verbatim>\<open>init_memory_alloc\<close> on a machine with less than 4 GiB whose kernel eighth has room for
  the image and the descriptors: it returns, the memory state is well formed, nothing of the fast
  region is allocated, and every kernel byte below the final \<^verbatim>\<open>free_mem_addr\<close> (the image, the
  boot allocations and the descriptors themselves) lies in a block that is allocated for good.
  So no later allocation can hand it out.
\<close>

theorem init_memory_alloc_reserves:
  assumes t: "8192 \<le> unat t" "unat t < 0x100000"
    and base: "is_kernel_addr (free_mem_addr s)"
    and room: "unat (PA (free_mem_addr s)) + 20 * unat t + 0x900000 \<le> 512 * unat t"
    and zero: "total_used_memory s = 0" "total_kused_memory s = 0" "total_fused_memory s = 0"
  shows "\<exists>s' K. init_memory_alloc t s = Inr s' \<and> kmem_inv s' K {} \<and> kmem_lock s' = kmem_lock s \<and>
     free_mem_addr s \<le> free_mem_addr s' \<and>
     (\<forall>a. is_kernel_addr a \<and> a < free_mem_addr s' \<longrightarrow>
        (\<exists>r\<in>live (kernel_buddy_new s') K. unat a \<in> bytes_of r))"
proof -
  let ?B = "0xC0000000 :: nat"
  define kp where "kp = t div KERNEL_RATIO"
  define fp where "fp = t div FAST_MEM_RATIO"
  define np where "np = t - kp - fp"
  have unat_PA: "unat (PA x) = unat x - ?B" if "is_kernel_addr x" for x
    using that by (simp add: PA_def is_kernel_addr_def KERNEL_VIRTUAL_ADDRESS_BASE_def unat_sub word_le_nat_alt)
  have kf: "unat kp = unat t div 8" "unat fp = unat t div 8"
    by (simp_all add: kp_def fp_def KERNEL_RATIO_def FAST_MEM_RATIO_def unat_div_distrib)
  have "unat (t - kp) = unat t - unat t div 8"
    using kf by (subst unat_sub) (simp_all add: word_le_nat_alt)
  then have n: "unat np = unat t - unat t div 8 - unat t div 8"
    using kf unfolding np_def by (subst unat_sub) (simp_all add: word_le_nat_alt)
  have kp1: "unat (kp + 1) = unat t div 8 + 1"
    using kf t by (subst unat_word_ariths) simp
  have a0: "?B \<le> unat (free_mem_addr s)"
    using base by (simp add: is_kernel_addr_def KERNEL_VIRTUAL_ADDRESS_BASE_def word_le_nat_alt)
  have P: "unat (free_mem_addr s) + 20 * unat t + 0x900000 \<le> ?B + 512 * unat t"
    using room a0 unfolding unat_PA[OF base] by linarith
  define s0 where "s0 = s\<lparr>total_kernel_pages := kp, total_fast_pages := fp, total_normal_pages := np\<rparr>"
  have "1024 \<le> unat kp" "unat kp < 0x100000" "unat (free_mem_addr s) < 0xFE000000"
    using kf t P by linarith+
  from init_buddy_new_bump[OF this] obtain kd f1 where
    1: "init_buddy_new (unat kp) 0 (kernel_buddy_new s) (free_mem_addr s) = Inr (kd, f1)"
      "unat (free_mem_addr s) \<le> unat f1" "unat f1 \<le> unat (free_mem_addr s) + 4096 + 20 * unat kp" by blast
  have "1024 \<le> unat fp" "unat fp < 0x100000" "unat f1 < 0xFE000000"
    using kf t P 1 by linarith+
  from init_buddy_new_bump[OF this] obtain fd f2 where
    2: "init_buddy_new (unat fp) (unat (kp + 1)) (fast_buddy_new s) f1 = Inr (fd, f2)"
      "unat f1 \<le> unat f2" "unat f2 \<le> unat f1 + 4096 + 20 * unat fp" by blast
  have "1024 \<le> unat np" "unat np < 0x100000" "unat f2 < 0xFE000000"
    using kf n t P 1 2 by linarith+
  from init_buddy_new_bump[OF this] obtain nd f3 where
    3: "init_buddy_new (unat np) (unat (kp + fp + 2)) (normal_buddy_new s) f2 = Inr (nd, f3)"
      "unat f2 \<le> unat f3" "unat f3 \<le> unat f2 + 4096 + 20 * unat np" by blast
  define s3 where "s3 = s0\<lparr>kernel_buddy_new := kd, fast_buddy_new := fd, normal_buddy_new := nd,
      free_mem_addr := f3\<rparr>"
  define r where "r = unat ((PA f3 div PAGE_SIZE + 1) div word_of_nat (PAGES_PER_BLOCK 10) + 1)"
  have run: "init_memory_alloc t s = reserve r s3"
    using 1(1) 2(1) 3(1)
    by (simp add: init_memory_alloc_def Let_def s3_def s0_def r_def kp_def fp_def np_def)
  note K = init_buddy_new_spec[OF 1(1)] and F = init_buddy_new_spec[OF 2(1)]
  have f3: "unat f3 \<le> unat (free_mem_addr s) + 12288 + 20 * unat t" "?B \<le> unat f3"
    using 1(2,3) 2(2,3) 3(2,3) kf n a0 by linarith+
  have f3k: "is_kernel_addr f3"
    using f3(2) by (simp add: is_kernel_addr_def KERNEL_VIRTUAL_ADDRESS_BASE_def word_le_nat_alt)
  have r: "r = ((unat f3 - ?B) div 4096 + 1) div 1024 + 1"
  proof -
    have x: "unat (PA f3 div PAGE_SIZE) = (unat f3 - ?B) div 4096"
      using unat_PA[OF f3k] by (simp add: unat_div_distrib PAGE_SIZE_def)
    have "unat f3 < 2 ^ 32" using unsigned_less[of f3] by simp
    then have y: "unat (PA f3 div PAGE_SIZE + 1) = (unat f3 - ?B) div 4096 + 1"
      using x by (subst unat_word_ariths) simp
    have z: "unat ((PA f3 div PAGE_SIZE + 1) div word_of_nat (PAGES_PER_BLOCK 10)) =
        ((unat f3 - ?B) div 4096 + 1) div 1024"
      using y by (simp add: unat_div_distrib PAGES_PER_BLOCK_def)
    have "((unat f3 - ?B) div 4096 + 1) div 1024 + 1 < 4294967296"
      using \<open>unat f3 < 2 ^ 32\<close> by simp
    then show ?thesis unfolding r_def using z by (subst unat_word_ariths) simp
  qed
  define m where "m = unat kp div 2 ^ MAX_ORDER"
  have rm: "r \<le> m"
  proof -
    define y where "y = (unat f3 - ?B) div 4096"
    define w where "w = (y + 1) div 1024"
    have "y * 4096 \<le> unat f3 - ?B" "w * 1024 \<le> y + 1" by (simp_all add: y_def w_def)
    moreover have "r = w + 1" unfolding r w_def y_def ..
    ultimately have "r * 4194304 \<le> unat f3 - ?B + 4096 + 4194304" by linarith
    moreover have "512 * unat t \<le> m * 4194304 + 4194304 + 4096"
      unfolding m_def kf MAX_ORDER_def by simp
    ultimately have "r * 4194304 \<le> m * 4194304" using f3 P by linarith
    then show ?thesis by simp
  qed
  have reg: "region_ok kd" "region_ok fd"
    using K(3,4) F(3,4) kf kp1 t by (simp_all add: region_ok_def MAX_ORDER_def) linarith+
  have inv3: "kmem_inv s3 (top_blocks 0) {}"
    unfolding top_blocks_def
    using K(1,3,4) F(1,3,4) reg zero kf kp1
    by (simp add: kmem_inv_def s3_def s0_def used_pages_def MAX_ORDER_def) linarith
  have ls3: "lists_inv (kernel_buddy_new s3) (top_lists (2 ^ MAX_ORDER) m)"
    using K(5) by (simp add: s3_def m_def)
  have e3: "top_lists (2 ^ MAX_ORDER) m (FreeList MAX_ORDER) =
      map (\<lambda>k. Block (k * 2 ^ MAX_ORDER)) [0..<m]"
    by (simp add: top_lists_def)
  have "0 + r \<le> m" "\<forall>p\<in>top_blocks 0. order_of (kernel_buddy_new s3) p = MAX_ORDER"
    using rm by (simp_all add: top_blocks_def)
  from reserve_spec[OF inv3 ls3 e3 this] obtain s' where
    s': "reserve r s3 = Inr s'" "kmem_inv s' (top_blocks r) {}" "free_mem_addr s' = f3"
      "kmem_lock s' = kmem_lock s" "pfn_offset (kernel_buddy_new s') = 0"
    and ord: "\<forall>p\<in>top_blocks r. order_of (kernel_buddy_new s') p = MAX_ORDER"
    using K(4) by (auto simp: s3_def s0_def)
  have "\<exists>q\<in>live (kernel_buddy_new s') (top_blocks r). unat a \<in> bytes_of q"
    if a: "is_kernel_addr a" "a < f3" for a
  proof -
    define k where "k = (unat a - ?B) div 4194304"
    have ab: "?B \<le> unat a" "unat a < unat f3"
      using a by (simp_all add: is_kernel_addr_def KERNEL_VIRTUAL_ADDRESS_BASE_def word_le_nat_alt word_less_nat_alt)
    then have "k < r" unfolding k_def r by linarith
    then have kt: "k * 2 ^ MAX_ORDER \<in> top_blocks r" by (simp add: top_blocks_def)
    note B = bytes_of_block(1)[OF kmem_invD(1,2)[OF s'(2)] kt]
    have "unat a \<in> bytes_of (addr_of (kernel_buddy_new s') (k * 2 ^ MAX_ORDER),
        order_of (kernel_buddy_new s') (k * 2 ^ MAX_ORDER))"
      unfolding B using ab ord kt s'(5) by (simp add: k_def MAX_ORDER_def) linarith
    with kt show ?thesis by (auto simp: live_def)
  qed
  moreover have "free_mem_addr s \<le> free_mem_addr s'"
    using 1(2) 2(2) 3(2) s'(3) by (simp add: word_le_nat_alt)
  ultimately show ?thesis using run s' by auto
qed

definition empty_desc :: buddy_mem_desc where
  "empty_desc = buddy_mem_desc.make 0 0 [] \<lparr>nxt = \<lambda>n. n, prv = \<lambda>n. n\<rparr>"

definition boot_kmem :: kmem where
  "boot_kmem = kmem.make empty_desc empty_desc empty_desc 0xC0400000 0 0 0 0 0 0 LOCK_FREE"

theorem init_memory_alloc_reserves_witness:
  "\<exists>s' K. init_memory_alloc 65536 boot_kmem = Inr s' \<and> kmem_inv s' K {} \<and>
     (\<exists>r\<in>live (kernel_buddy_new s') K. 0xC0100000 \<in> bytes_of r)"
proof -
  have "unat (PA (free_mem_addr boot_kmem)) = 0x400000"
    by (simp add: boot_kmem_def kmem.make_def PA_def KERNEL_VIRTUAL_ADDRESS_BASE_def)
  with init_memory_alloc_reserves[of 65536 boot_kmem] obtain s' K where
    s': "init_memory_alloc 65536 boot_kmem = Inr s'" "kmem_inv s' K {}"
      "free_mem_addr boot_kmem \<le> free_mem_addr s'"
      "\<forall>a. is_kernel_addr a \<and> a < free_mem_addr s' \<longrightarrow>
        (\<exists>r\<in>live (kernel_buddy_new s') K. unat a \<in> bytes_of r)"
    by (auto simp: boot_kmem_def kmem.make_def is_kernel_addr_def KERNEL_VIRTUAL_ADDRESS_BASE_def)
  have "(0xC0100000 :: u32) < free_mem_addr s'"
    using s'(3) by (auto simp: boot_kmem_def kmem.make_def intro: less_le_trans[of _ "0xC0400000"])
  with s'(4)[rule_format, of "0xC0100000"] s'(1,2) show ?thesis
    by (auto simp: is_kernel_addr_def KERNEL_VIRTUAL_ADDRESS_BASE_def)
qed

section \<open>What the clients get\<close>

text \<open>A memory state for the witnesses: one block in each region, nothing allocated.\<close>

definition one_block_kmem :: kmem where
  "one_block_kmem = kmem.make one_block_desc
     (one_block_desc\<lparr>pfn_offset := 1024\<rparr>) empty_desc 0xC0400000 1024 1024 0 0 0 0 LOCK_FREE"

lemma buddy_inv_offset: "buddy_inv (d\<lparr>pfn_offset := n\<rparr>) A = buddy_inv d A"
proof -
  have "order_of (d\<lparr>pfn_offset := n\<rparr>) = order_of d" by (rule ext) (simp add: order_of_def)
  then show ?thesis by (simp add: buddy_inv_def free_set_def lists_inv_def coalesced_def)
qed

lemma one_block_kmem_inv: "kmem_inv one_block_kmem {} {}"
  using one_block_desc_inv
  by (simp add: kmem_inv_def one_block_kmem_def kmem.make_def buddy_inv_offset region_ok_def used_pages_def)

lemma one_block_kmem_rep:
  "kernel_rep one_block_kmem {} {}" "fast_rep one_block_kmem {} {}"
  using one_block_kmem_inv
  by (auto simp: kernel_rep_def fast_rep_def live_def one_block_kmem_def kmem.make_def
      intro!: exI[of _ "{} :: nat set"])

lemma kernel_rep_counters:
  assumes "kernel_rep s L M"
  shows "kmem_lock s = LOCK_FREE" "total_kused_memory s = word_of_nat (\<Sum>r\<in>L. 4096 * 2 ^ snd r)"
    "total_used_memory s = word_of_nat (\<Sum>r\<in>L. 4096 * 2 ^ snd r) + word_of_nat (\<Sum>r\<in>M. 4096 * 2 ^ snd r)"
proof -
  from assms obtain K F where inv: "kmem_inv s K F" "L = live (kernel_buddy_new s) K"
    "M = live (fast_buddy_new s) F" and l: "kmem_lock s = LOCK_FREE"
    unfolding kernel_rep_def by blast
  note I = kmem_invD[OF inv(1)]
  show "kmem_lock s = LOCK_FREE" by fact
  show "total_kused_memory s = word_of_nat (\<Sum>r\<in>L. 4096 * 2 ^ snd r)"
    unfolding inv(2) used_live[OF I(1,2)] by (rule I(6))
  show "total_used_memory s = word_of_nat (\<Sum>r\<in>L. 4096 * 2 ^ snd r) + word_of_nat (\<Sum>r\<in>M. 4096 * 2 ^ snd r)"
    unfolding inv(2,3) used_live[OF I(1,2)] used_live[OF I(3,4)] I(8) I(6,7) ..
qed

text \<open>
  C3: whatever sequence of \<^verbatim>\<open>kalloc_page\<close> and \<^verbatim>\<open>kfree_page\<close> (of live blocks) the kernel
  runs, the live blocks never share a byte, with each other or with the fast region; they are
  page aligned and lie in kernel space; \<^verbatim>\<open>kmem_lock\<close> is free between the calls and the
  counters are the sizes of the live blocks.
\<close>

theorem kernel_client_safe:
  assumes "kernel_rep s0 L0 M" "client_reaches kalloc_page kfree_page (\<lambda>order. order) s0 L0 s L"
  shows "apart bytes_of (L \<union> M) \<and> (\<forall>(a, order)\<in>L. page_aligned a \<and> is_kernel_addr a) \<and>
     kmem_lock s = LOCK_FREE \<and> total_kused_memory s = word_of_nat (\<Sum>r\<in>L. 4096 * 2 ^ snd r) \<and>
     total_used_memory s =
       word_of_nat (\<Sum>r\<in>L. 4096 * 2 ^ snd r) + word_of_nat (\<Sum>r\<in>M. 4096 * 2 ^ snd r)"
  using kernel_pages.reaches_apart[OF assms(2,1)] kernel_pages.reaches_addr[OF assms(2,1)]
    kernel_rep_counters[OF kernel_pages.reaches_rep[OF assms(2,1)]] by blast

lemma one_block_kmem_alloc:
  "\<exists>a s. kalloc_page 3 one_block_kmem = Inr (a, s)"
proof -
  have "kalloc_page 3 one_block_kmem = kalloc_nosleep 3 one_block_kmem"
    by (rule kalloc_page_free) (simp add: one_block_kmem_def kmem.make_def)
  moreover obtain p d where "get_buddy_new 3 (kernel_buddy_new one_block_kmem) = Inr (p, d)"
    using get_buddy_new_spec[OF one_block_desc_inv(1), of 3] one_block_desc_inv
    by (auto simp: MAX_ORDER_def one_block_kmem_def kmem.make_def split: sum.splits)
  ultimately show ?thesis using kalloc_nosleep_ok[OF one_block_kmem_inv] by fastforce
qed

theorem kernel_client_safe_witness:
  "\<exists>a s. kalloc_page 3 one_block_kmem = Inr (a, s) \<and> page_aligned a \<and> is_kernel_addr a \<and>
     kmem_lock s = LOCK_FREE \<and> total_kused_memory s = 0x8000"
proof -
  obtain a s where k: "kalloc_page 3 one_block_kmem = Inr (a, s)" using one_block_kmem_alloc by blast
  have "client_reaches kalloc_page kfree_page (\<lambda>order. order) one_block_kmem {} s {(a, 3)}"
    using client_reaches.alloc[of kalloc_page kfree_page "\<lambda>order. order" one_block_kmem "{}"
        one_block_kmem "{}" 3 a s, OF client_reaches.start k] by simp
  from kernel_client_safe[OF one_block_kmem_rep(1) this] k show ?thesis by simp
qed

lemma fmalloc_ok:
  assumes inv: "kmem_inv s K F"
    and g: "get_buddy_new (unat (calc_page_order sz)) (fast_buddy_new s) = Inr (p, d)"
  shows "\<exists>a s'. fmalloc sz s = Inr (a, s')"
proof -
  note D = desc_alloc[OF kmem_invD(3,4)[OF inv] g]
  from calc_buddy_phys_block[OF D(1), of p] obtain phys n where
    "calc_buddy_phys p d = Inr phys" "block_bytes p d = Inr n" by auto
  with g show ?thesis by (simp add: fmalloc_def)
qed

lemma one_block_kmem_fmalloc:
  "\<exists>a s. fmalloc 5000 one_block_kmem = Inr (a, s)"
proof -
  let ?o = "unat (calc_page_order 5000)" and ?d = "fast_buddy_new one_block_kmem"
  have d: "?d = one_block_desc\<lparr>pfn_offset := 1024\<rparr>" by (simp add: one_block_kmem_def kmem.make_def)
  have top: "free_set ?d = {0}" "order_of ?d 0 = MAX_ORDER"
    using one_block_desc_inv unfolding d by (simp_all add: free_set_def order_of_def)
  have "?o \<le> MAX_ORDER" using page_order_fits[of 5000] by simp
  with get_buddy_new_spec[OF kmem_invD(3)[OF one_block_kmem_inv] this] top
  obtain p d' where "get_buddy_new ?o ?d = Inr (p, d')" by (auto split: sum.splits)
  then show ?thesis by (rule fmalloc_ok[OF one_block_kmem_inv])
qed

text \<open>
  C11: the same for the clients of \<^verbatim>\<open>fmalloc\<close> and \<^verbatim>\<open>ffree\<close>: the memory of the processes is
  page aligned, large enough for what was asked, and never overlaps another live block of either
  region.
\<close>

theorem fast_client_safe:
  assumes "fast_rep s0 L0 M"
    and "client_reaches fmalloc ffree (\<lambda>sz. unat (calc_page_order sz)) s0 L0 s L"
  shows "apart bytes_of (L \<union> M) \<and> (\<forall>(a, order)\<in>L. page_aligned a \<and> is_kernel_addr a) \<and>
     (\<forall>a s' sz. fmalloc sz s = Inr (a, s') \<longrightarrow>
        unat sz \<le> 4096 * 2 ^ unat (calc_page_order sz) \<and>
        (\<forall>q\<in>L \<union> M. q \<noteq> (a, unat (calc_page_order sz)) \<longrightarrow>
           bytes_of (a, unat (calc_page_order sz)) \<inter> bytes_of q = {}))"
proof -
  note r = fast_pages.reaches_rep[OF assms(2,1)]
  have "unat sz \<le> 4096 * 2 ^ unat (calc_page_order sz)" if "fmalloc sz s = Inr (a, s')" for a s' sz
  proof (cases "unat sz \<le> 4096 * 1024")
    case True
    then show ?thesis using page_order_fits[of sz] by simp
  next
    case False
    then have "get_buddy_new (unat (calc_page_order sz)) (fast_buddy_new s) =
        Inl (Panic ''Invalid order to alloc'')"
      using page_order_fits[of sz "fast_buddy_new s"] by (metis (no_types, lifting))
    with that show ?thesis by (simp add: fmalloc_def Let_def)
  qed
  with fast_pages.reaches_apart[OF assms(2,1)] fast_pages.reaches_addr[OF assms(2,1)] fast_pages.alloc_fresh[OF r] show ?thesis by blast
qed

theorem fast_client_safe_witness:
  "\<exists>a s' sz. fmalloc sz one_block_kmem = Inr (a, s') \<and> 5000 \<le> unat sz \<and>
     unat sz \<le> 4096 * 2 ^ unat (calc_page_order sz)"
proof -
  obtain a s' where "fmalloc 5000 one_block_kmem = Inr (a, s')" using one_block_kmem_fmalloc by blast
  moreover have "5000 \<le> unat (5000 :: u32)" by simp
  ultimately show ?thesis
    using fast_client_safe[OF one_block_kmem_rep(2) client_reaches.start] by blast
qed

text \<open>
  C24: \<^verbatim>\<open>kfree_page\<close> undoes \<^verbatim>\<open>kalloc_page\<close>: it accepts the returned address and leaves the
  live blocks, and with them the counters, as they were before the allocation.
\<close>

theorem kalloc_kfree_roundtrip:
  assumes "kernel_rep s L M" "kalloc_page order s = Inr (a, s')"
  shows "\<exists>s''. kfree_page a s' = Inr s'' \<and> kernel_rep s'' L M \<and>
     total_kused_memory s'' = total_kused_memory s \<and> total_used_memory s'' = total_used_memory s"
proof -
  from kernel_pages.alloc_free[OF assms] obtain s'' where
    "kfree_page a s' = Inr s''" "kernel_rep s'' L M" by blast
  with kernel_rep_counters[OF this(2)] kernel_rep_counters[OF assms(1)] show ?thesis by auto
qed

theorem kalloc_kfree_roundtrip_witness:
  "\<exists>a s s'. kalloc_page 3 one_block_kmem = Inr (a, s) \<and> kfree_page a s = Inr s' \<and>
     kernel_rep s' {} {}"
  using one_block_kmem_alloc kalloc_kfree_roundtrip[OF one_block_kmem_rep(1)] by blast

text \<open>
  C29: \<^verbatim>\<open>kalloc_page\<close> in a well-formed state with the lock free: it panics for lack of memory
  exactly when every free block is smaller than the order, and otherwise it returns.
\<close>

theorem kalloc_page_outcome:
  assumes "kernel_rep s L M" "order \<le> MAX_ORDER"
  shows "if \<forall>p\<in>free_set (kernel_buddy_new s). order_of (kernel_buddy_new s) p < order
     then kalloc_page order s = Inl (Panic ''No more buddy blocks available'')
     else \<exists>a s'. kalloc_page order s = Inr (a, s') \<and> kernel_rep s' (insert (a, order) L) M"
proof -
  from assms(1) obtain K F where inv: "kmem_inv s K F" and l: "kmem_lock s = LOCK_FREE"
    unfolding kernel_rep_def by blast
  note S = get_buddy_new_spec[OF kmem_invD(1)[OF inv] assms(2)]
  show ?thesis
  proof (cases "get_buddy_new order (kernel_buddy_new s)")
    case (Inl e)
    with S have "kalloc_page order s = Inl (Panic ''No more buddy blocks available'')"
      unfolding kalloc_page_free[OF l] by (simp add: kalloc_nosleep_def)
    with S Inl show ?thesis by simp
  next
    case (Inr r)
    then obtain p d where g: "get_buddy_new order (kernel_buddy_new s) = Inr (p, d)" by (cases r) auto
    from kalloc_nosleep_ok[OF inv g] obtain a s' where k: "kalloc_page order s = Inr (a, s')"
      unfolding kalloc_page_free[OF l] by blast
    from S g have "\<not> (\<forall>p\<in>free_set (kernel_buddy_new s). order_of (kernel_buddy_new s) p < order)"
      by (auto simp: not_less)
    with k kernel_pages.alloc_step[OF assms(1) k] show ?thesis by auto
  qed
qed

theorem kalloc_page_outcome_witness:
  "\<exists>a s'. kalloc_page 10 one_block_kmem = Inr (a, s')"
  using kalloc_page_outcome[OF one_block_kmem_rep(1), of 10] one_block_desc_inv
  by (simp add: MAX_ORDER_def one_block_kmem_def kmem.make_def) blast

end
