(* ===== verification/Slab_Inv.thy ===== *)
theory Slab_Inv
  imports Slab Pages_Props
begin

text \<open>
  The correctness of the slab allocator. \<open>slab_ok s a xs\<close> is the invariant of the slab at \<open>a\<close>
  with the chain \<open>xs\<close> of free buffers; \<open>heap_inv\<close> is that of the whole heap, with the set \<open>S\<close>
  of the slabs, their free chains and the page allocator's live blocks as ghost state.
\<close>

section \<open>The geometry of a slab\<close>

definition nbufs :: "nat \<Rightarrow> nat" where
  "nbufs z = 4060 div (z + 8)"

definition buf_addr :: "u32 \<Rightarrow> nat \<Rightarrow> nat \<Rightarrow> u32" where
  "buf_addr a z i = a + sizeof_Slab + word_of_nat (i * (z + 8))"

definition slab_bufs :: "u32 \<Rightarrow> nat \<Rightarrow> u32 set" where
  "slab_bufs a z = buf_addr a z ` {..<nbufs z}"

definition slab_page :: "u32 \<Rightarrow> bool" where
  "slab_page a \<longleftrightarrow> page_aligned a \<and> is_kernel_addr a \<and> unat a + 4096 \<le> 2 ^ 32"

lemma slab_pageD:
  assumes "slab_page a"
  shows "unat a mod 4096 = 0" "is_kernel_addr a" "unat a + 4096 \<le> 4294967296" "3221225472 \<le> unat a"
  using assms by (simp_all add: slab_page_def page_aligned_def is_kernel_addr_def
      KERNEL_VIRTUAL_ADDRESS_BASE_def word_le_nat_alt)

lemma buf_fits:
  assumes "i < nbufs z"
  shows "36 + i * (z + 8) + (z + 8) \<le> 4096"
proof -
  have "(i + 1) * (z + 8) \<le> nbufs z * (z + 8)" using assms by (intro mult_le_mono1) simp
  also have "\<dots> \<le> 4060" by (simp add: nbufs_def)
  finally show ?thesis by simp
qed

lemma unat_buf_addr:
  assumes "slab_page a" "i < nbufs z"
  shows "unat (buf_addr a z i) = unat a + 36 + i * (z + 8)"
proof -
  note f = buf_fits[OF assms(2)] and p = slab_pageD[OF assms(1)]
  have u: "unat (word_of_nat (i * (z + 8)) :: u32) = i * (z + 8)"
    using f by (intro unat_u32) simp
  have "unat (a + sizeof_Slab) = unat a + 36"
    using p(3) by (simp add: sizeof_Slab_def unat_word_ariths)
  then have "unat (buf_addr a z i) = (unat a + 36 + i * (z + 8)) mod 2 ^ 32"
    using u by (simp add: buf_addr_def unat_word_ariths)
  then show ?thesis using f p(3) by simp
qed

lemma buf_addr_inj:
  assumes "slab_page a" "i < nbufs z" "j < nbufs z"
  shows "buf_addr a z i = buf_addr a z j \<longleftrightarrow> i = j"
  using unat_buf_addr[OF assms(1,2)] unat_buf_addr[OF assms(1,3)]
  by (auto simp: word_unat_eq_iff)

text \<open>The bytes of an object: its address and its size.\<close>

definition obj_bytes :: "u32 \<times> nat \<Rightarrow> nat set" where
  "obj_bytes r = {unat (fst r)..<unat (fst r) + snd r}"

lemma buf_obj_bytes:
  assumes "slab_page a" "i < nbufs z" "0 < z"
  shows "obj_bytes (buf_addr a z i + sizeof_Buf, z) =
     {unat a + 44 + i * (z + 8)..<unat a + 44 + i * (z + 8) + z}"
    "obj_bytes (buf_addr a z i + sizeof_Buf, z) \<subseteq> {unat a..<unat a + 4096}"
proof -
  note f = buf_fits[OF assms(2)] and p = slab_pageD[OF assms(1)]
  have "unat (buf_addr a z i + sizeof_Buf) = unat a + 44 + i * (z + 8)"
    using unat_buf_addr[OF assms(1,2)] f p(3) assms(3) by (simp add: sizeof_Buf_def unat_word_ariths)
  then show "obj_bytes (buf_addr a z i + sizeof_Buf, z) =
      {unat a + 44 + i * (z + 8)..<unat a + 44 + i * (z + 8) + z}"
    by (simp add: obj_bytes_def)
  then show "obj_bytes (buf_addr a z i + sizeof_Buf, z) \<subseteq> {unat a..<unat a + 4096}"
    using f by auto
qed

lemma buf_objs_disjoint:
  assumes "slab_page a" "i < nbufs z" "j < nbufs z" "i \<noteq> j" "0 < z"
  shows "obj_bytes (buf_addr a z i + sizeof_Buf, z) \<inter> obj_bytes (buf_addr a z j + sizeof_Buf, z) = {}"
proof -
  have "i * (z + 8) + (z + 8) \<le> j * (z + 8) \<or> j * (z + 8) + (z + 8) \<le> i * (z + 8)"
  proof -
    from assms(4) consider "Suc i \<le> j" | "Suc j \<le> i" by linarith
    then show ?thesis
      by cases (use mult_le_mono1[of "Suc i" j "z + 8"] mult_le_mono1[of "Suc j" i "z + 8"] in auto)
  qed
  then show ?thesis
    unfolding buf_obj_bytes(1)[OF assms(1,2,5)] buf_obj_bytes(1)[OF assms(1,3,5)] by auto
qed

lemma slab_bufs_in_page:
  assumes "slab_page a" "b \<in> slab_bufs a z"
  shows "unat a < unat b" "unat b + 8 \<le> unat a + 4096" "is_kernel_addr b" "b \<noteq> 0"
    "0 < z \<Longrightarrow> b + sizeof_Buf \<noteq> 0"
proof -
  from assms(2) obtain i where i: "i < nbufs z" "b = buf_addr a z i" by (auto simp: slab_bufs_def)
  note u = unat_buf_addr[OF assms(1) i(1)] and f = buf_fits[OF i(1)] and p = slab_pageD[OF assms(1)]
  show "unat a < unat b" "unat b + 8 \<le> unat a + 4096" using u f i by simp_all
  then show "is_kernel_addr b" "b \<noteq> 0"
    using p by (auto simp: is_kernel_addr_def KERNEL_VIRTUAL_ADDRESS_BASE_def word_le_nat_alt)
  show "b + sizeof_Buf \<noteq> 0" if "0 < z"
    using f p u i that by (auto simp: sizeof_Buf_def word_unat_eq_iff unat_word_ariths)
qed

lemma slab_bufs_disjoint:
  assumes "slab_page a" "slab_page a'" "a \<noteq> a'"
  shows "slab_bufs a z \<inter> slab_bufs a' z' = {}"
proof -
  have "unat a \<noteq> unat a'" using assms(3) by (simp add: word_unat_eq_iff)
  moreover have "unat a mod 4096 = 0" "unat a' mod 4096 = 0"
    using slab_pageD(1) assms(1,2) by blast+
  ultimately have "unat a + 4096 \<le> unat a' \<or> unat a' + 4096 \<le> unat a"
    using dvd_step[of 4096 "unat a" "unat a'"] dvd_step[of 4096 "unat a'" "unat a"]
    by (metis dvd_eq_mod_eq_0 linorder_neqE_nat)
  then show ?thesis
    using slab_bufs_in_page(1,2)[OF assms(1)] slab_bufs_in_page(1,2)[OF assms(2)]
    by (fastforce simp: disjoint_iff)
qed

section \<open>One slab\<close>

fun chain :: "(u32 \<Rightarrow> buf) \<Rightarrow> u32 \<Rightarrow> u32 list \<Rightarrow> bool" where
  "chain bs p [] = (p = 0)"
| "chain bs p (x # xs) = (p = x \<and> chain bs (b_next_free (bs x)) xs)"

lemma chain_frame:
  "chain bs p xs \<Longrightarrow> (\<And>x. x \<in> set xs \<Longrightarrow> bs' x = bs x) \<Longrightarrow> chain bs' p xs"
  by (induction xs arbitrary: p) auto

abbreviation size_of :: "kheap \<Rightarrow> u32 \<Rightarrow> nat" where
  "size_of s a \<equiv> unat (s_size (slabs s a))"

definition slab_ok :: "kheap \<Rightarrow> u32 \<Rightarrow> u32 list \<Rightarrow> bool" where
  "slab_ok s a xs \<longleftrightarrow>
     s_fingerprint (slabs s a) = SLAB_FINGERPRINT \<and>
     0 < size_of s a \<and> 3 * (size_of s a + 8) \<le> 4060 \<and>
     unat (s_tot (slabs s a)) + 1 = nbufs (size_of s a) \<and>
     unat (s_alloc (slabs s a)) + length xs = nbufs (size_of s a) \<and>
     xs \<noteq> [] \<and> distinct xs \<and> set xs \<subseteq> slab_bufs a (size_of s a) \<and>
     chain (bufs s) (s_first_free (slabs s a)) xs \<and>
     (\<forall>b\<in>slab_bufs a (size_of s a). b_slab (bufs s b) = a)"

lemma slab_ok_frame:
  assumes "slab_ok s a xs" "slabs s' a = slabs s a"
    and "\<And>b. b \<in> slab_bufs a (size_of s a) \<Longrightarrow> bufs s' b = bufs s b"
  shows "slab_ok s' a xs"
  using assms chain_frame[of "bufs s" "s_first_free (slabs s a)" xs "bufs s'"]
  unfolding slab_ok_def by (auto simp: subset_iff)

lemma slab_ok_bounds:
  assumes "slab_ok s a xs"
  shows "s_alloc (slabs s a) \<le> s_tot (slabs s a)" "2 \<le> unat (s_tot (slabs s a))"
    "xs \<noteq> []" "s_first_free (slabs s a) = hd xs" "hd xs \<in> slab_bufs a (size_of s a)"
proof -
  have "3 \<le> nbufs (size_of s a)"
    using assms unfolding slab_ok_def nbufs_def by (subst less_eq_div_iff_mult_less_eq) simp_all
  then show "2 \<le> unat (s_tot (slabs s a))" using assms unfolding slab_ok_def by linarith
  have "0 < length xs" using assms by (simp add: slab_ok_def)
  then show "s_alloc (slabs s a) \<le> s_tot (slabs s a)"
    using assms unfolding slab_ok_def word_le_nat_alt by linarith
  from \<open>0 < length xs\<close> show "xs \<noteq> []" by simp
  then show "s_first_free (slabs s a) = hd xs" "hd xs \<in> slab_bufs a (size_of s a)"
    using assms by (cases xs; simp add: slab_ok_def)+
qed

text \<open>Views of the small steps of the code.\<close>

lemma heap_views [simp]:
  "slabs (upd_slab a f s) = (slabs s)(a := f (slabs s a))"
  "bufs (upd_slab a f s) = bufs s" "cache (upd_slab a f s) = cache s"
  "pages (upd_slab a f s) = pages s" "slab_lock (upd_slab a f s) = slab_lock s"
  "tick_count (upd_slab a f s) = tick_count s"
  "bufs (upd_buf b g s) = (bufs s)(b := g (bufs s b))"
  "slabs (upd_buf b g s) = slabs s" "cache (upd_buf b g s) = cache s"
  "pages (upd_buf b g s) = pages s" "slab_lock (upd_buf b g s) = slab_lock s"
  "tick_count (upd_buf b g s) = tick_count s"
  "cache (on_cache h s) = h (cache s)"
  "slabs (on_cache h s) = slabs s" "bufs (on_cache h s) = bufs s"
  "pages (on_cache h s) = pages s" "slab_lock (on_cache h s) = slab_lock s"
  "tick_count (on_cache h s) = tick_count s"
  by (simp_all add: upd_slab_def upd_buf_def on_cache_def)

text \<open>Updates of different fields commute.\<close>

lemma upd_comm:
  "s\<lparr>bufs := b, slabs := f\<rparr> = s\<lparr>slabs := f, bufs := b\<rparr>"
  "x\<lparr>s_first_free := p, s_alloc := q\<rparr> = x\<lparr>s_alloc := q, s_first_free := p\<rparr>"
  by simp_all

text \<open>Taking the first free buffer, and giving one back.\<close>

lemma slab_take:
  assumes ok: "slab_ok s a (x # xs)" and more: "s_alloc (slabs s a) < s_tot (slabs s a)"
    and s': "slabs s' a = (slabs s a)\<lparr>s_alloc := s_alloc (slabs s a) + 1,
        s_first_free := b_next_free (bufs s x)\<rparr>"
      "bufs s' = (bufs s)(x := (bufs s x)\<lparr>b_next_free := 0\<rparr>)"
  shows "slab_ok s' a xs" "unat (s_alloc (slabs s' a)) = unat (s_alloc (slabs s a)) + 1"
proof -
  have lt: "unat (s_alloc (slabs s a)) < unat (s_tot (slabs s a))"
    using more by (simp add: word_less_nat_alt)
  then have "unat (s_alloc (slabs s a)) + 1 < 2 ^ 32"
    using unat_u32_less[of "s_tot (slabs s a)"] by simp
  then show u: "unat (s_alloc (slabs s' a)) = unat (s_alloc (slabs s a)) + 1"
    unfolding s' by (simp add: unat_word_ariths)
  from ok have d: "distinct (x # xs)" "chain (bufs s) (b_next_free (bufs s x)) xs"
    "unat (s_alloc (slabs s a)) + length (x # xs) = unat (s_tot (slabs s a)) + 1"
    by (simp_all add: slab_ok_def)
  have "chain (bufs s') (b_next_free (bufs s x)) xs"
    using d(1) by (intro chain_frame[OF d(2)]) (auto simp: s'(2))
  moreover have "xs \<noteq> []" using d(3) lt by auto
  ultimately show "slab_ok s' a xs"
    using ok u s' unfolding slab_ok_def by auto
qed

lemma slab_give:
  assumes ok: "slab_ok s a xs" and x: "x \<in> slab_bufs a (size_of s a)" "x \<notin> set xs"
    and some: "s_alloc (slabs s a) \<noteq> 0"
    and s': "slabs s' a = (slabs s a)\<lparr>s_alloc := s_alloc (slabs s a) - 1, s_first_free := x,
        s_last_used := t\<rparr>"
      "bufs s' = (bufs s)(x := (bufs s x)\<lparr>b_next_free := s_first_free (slabs s a)\<rparr>)"
  shows "slab_ok s' a (x # xs)" "unat (s_alloc (slabs s' a)) + 1 = unat (s_alloc (slabs s a))"
proof -
  have "1 \<le> s_alloc (slabs s a)" using some by (simp add: word_le_nat_alt unat_gt_0 Suc_le_eq)
  then show u: "unat (s_alloc (slabs s' a)) + 1 = unat (s_alloc (slabs s a))"
    unfolding s' by (simp add: unat_sub word_le_nat_alt)
  have "chain (bufs s) (s_first_free (slabs s a)) xs" using ok by (simp add: slab_ok_def)
  then have "chain (bufs s') (s_first_free (slabs s a)) xs"
    by (rule chain_frame) (use x(2) in \<open>auto simp: s'(2)\<close>)
  with ok u s' x show "slab_ok s' a (x # xs)" unfolding slab_ok_def by auto
qed

section \<open>The lists of the cache\<close>

definition cache_heads :: "snode set" where
  "cache_heads = {CacheFree, CacheUsed, CacheEmpty}"

definition lists_cls :: "snode list_heap \<Rightarrow> u32 set \<Rightarrow> (u32 \<Rightarrow> snode) \<Rightarrow> bool" where
  "lists_cls h S cls \<longleftrightarrow> (\<exists>ls. rings h cache_heads ls \<and>
     (\<forall>H\<in>cache_heads. set (ls H) = SlabHead ` {a \<in> S. cls a = H}))"

lemma SlabHead_not_head [simp]: "SlabHead a \<notin> cache_heads"
  by (simp add: cache_heads_def)

lemma lists_cls_cong:
  assumes "lists_cls h S cls" "\<And>a. a \<in> S \<Longrightarrow> cls' a = cls a"
  shows "lists_cls h S cls'"
proof -
  have "{a \<in> S. cls' a = H} = {a \<in> S. cls a = H}" for H using assms(2) by auto
  with assms(1) show ?thesis by (simp add: lists_cls_def)
qed

lemma linked_cls:
  assumes "\<forall>H\<in>cache_heads. set (ls H) = SlabHead ` {a \<in> S. cls a = H}" "a \<notin> S"
  shows "SlabHead a \<notin> linked cache_heads ls"
  using assms by (auto simp: linked_def)

text \<open>Moving a slab to another list, and adding a new one.\<close>

lemma lists_cls_move:
  assumes l: "lists_cls h S cls" and a: "a \<in> S" "cls a \<in> cache_heads" and H: "H \<in> cache_heads"
  shows "lists_cls (list_add_tail H (SlabHead a) (list_remove (SlabHead a) h)) S (cls(a := H))"
    "lists_cls (list_add_head H (SlabHead a) (list_remove (SlabHead a) h)) S (cls(a := H))"
proof -
  from l obtain ls where r: "rings h cache_heads ls"
    and s: "\<forall>H\<in>cache_heads. set (ls H) = SlabHead ` {a \<in> S. cls a = H}"
    by (auto simp: lists_cls_def)
  let ?l = "ls(cls a := remove1 (SlabHead a) (ls (cls a)))"
  have m: "SlabHead a \<in> set (ls (cls a))" using s a by auto
  note R = lists.move_tail[OF r a(2) H m] lists.move_head[OF r a(2) H m]
  have rem: "set (?l G) = SlabHead ` {b \<in> S. b \<noteq> a \<and> cls b = G}" if "G \<in> cache_heads" for G
    using that s rings_distinct[OF r a(2)] by auto
  have up: "set ((?l(H := ys)) G) = SlabHead ` {b \<in> S. (cls(a := H)) b = G}"
    if "set ys = insert (SlabHead a) (set (?l H))" "G \<in> cache_heads" for ys G
  proof (cases "G = H")
    case True
    have "insert (SlabHead a) (set (?l H)) = SlabHead ` {b \<in> S. (cls(a := H)) b = H}"
      unfolding rem[OF H] using a(1) by auto
    then show ?thesis using that(1) True by simp
  next
    case False
    then have "set ((?l(H := ys)) G) = set (?l G)" by (simp del: fun_upd_apply add: fun_upd_other)
    also have "\<dots> = SlabHead ` {b \<in> S. (cls(a := H)) b = G}"
      unfolding rem[OF that(2)] using False by auto
    finally show ?thesis .
  qed
  show "lists_cls (list_add_tail H (SlabHead a) (list_remove (SlabHead a) h)) S (cls(a := H))"
    unfolding lists_cls_def
    by (intro exI conjI, rule R(1), intro ballI up) simp_all
  show "lists_cls (list_add_head H (SlabHead a) (list_remove (SlabHead a) h)) S (cls(a := H))"
    unfolding lists_cls_def
    by (intro exI conjI, rule R(2), intro ballI up) simp_all
qed

lemma lists_cls_add:
  assumes l: "lists_cls h S cls" and a: "a \<notin> S" and H: "H \<in> cache_heads"
  shows "lists_cls (list_add_tail H (SlabHead a) (LIST_INIT (SlabHead a) h)) (insert a S) (cls(a := H))"
proof -
  from l obtain ls where r: "rings h cache_heads ls"
    and s: "\<forall>H\<in>cache_heads. set (ls H) = SlabHead ` {a \<in> S. cls a = H}"
    by (auto simp: lists_cls_def)
  note fresh = linked_cls[OF s a]
  have "rings (LIST_INIT (SlabHead a) h) cache_heads ls" by (rule rings_init_unlinked[OF r fresh])
  from lists.rep_add_tail[OF this H fresh]
  have "rings (list_add_tail H (SlabHead a) (LIST_INIT (SlabHead a) h)) cache_heads
      (ls(H := ls H @ [SlabHead a]))" .
  moreover have "set ((ls(H := ls H @ [SlabHead a])) G) = SlabHead ` {b \<in> insert a S. (cls(a := H)) b = G}"
    if "G \<in> cache_heads" for G
    using that s a H by (cases "G = H") auto
  ultimately show ?thesis unfolding lists_cls_def by blast
qed

text \<open>The search finds the first slab of the size, if there is one.\<close>

lemma search_fold:
  "fold_until (search_body sz s) (map SlabHead as) (Inr None) =
     Inr (List.find (\<lambda>a. sz = s_size (slabs s a)) as)"
  by (induction as) (simp_all add: search_body_def)

lemma search_list_spec:
  assumes l: "lists_cls (cache s) S cls" and H: "H \<in> cache_heads"
  shows "\<exists>r. search_list H sz s = Inr r \<and>
     (case r of Some a \<Rightarrow> a \<in> S \<and> cls a = H \<and> s_size (slabs s a) = sz
      | None \<Rightarrow> \<forall>a\<in>S. cls a = H \<longrightarrow> s_size (slabs s a) \<noteq> sz)"
proof -
  from l obtain ls where r: "rings (cache s) cache_heads ls"
    and s: "set (ls H) = SlabHead ` {a \<in> S. cls a = H}"
    using H by (auto simp: lists_cls_def)
  have "\<exists>as. ls H = map SlabHead as" unfolding ex_map_conv using s by auto
  then obtain as where as: "ls H = map SlabHead as" by blast
  have set: "set as = {a \<in> S. cls a = H}" using s unfolding as by (auto simp: image_iff)
  let ?f = "List.find (\<lambda>a. sz = s_size (slabs s a)) as"
  have "search_list H sz s = Inr ?f"
    unfolding search_list_def
    using list_for_each_ring[OF rings_ring[OF r H], of "\<lambda>_. nxt (cache s)" "search_body sz s" "Inr None"]
    by (simp add: as search_fold)
  moreover have "case ?f of Some a \<Rightarrow> a \<in> S \<and> cls a = H \<and> s_size (slabs s a) = sz
      | None \<Rightarrow> \<forall>a\<in>S. cls a = H \<longrightarrow> s_size (slabs s a) \<noteq> sz"
  proof (cases ?f)
    case None
    then have "\<forall>a\<in>S. cls a = H \<longrightarrow> s_size (slabs s a) \<noteq> sz"
      using set by (auto simp: find_None_iff)
    with None show ?thesis by simp
  next
    case (Some a)
    then have "a \<in> set as" "sz = s_size (slabs s a)" by (auto simp: find_Some_iff)
    then show ?thesis using Some set by auto
  qed
  ultimately show ?thesis by blast
qed

section \<open>The heap\<close>

definition cls_of :: "kheap \<Rightarrow> u32 \<Rightarrow> snode" where
  "cls_of s a = (if s_alloc (slabs s a) = 0 then CacheFree
     else if s_alloc (slabs s a) < s_tot (slabs s a) then CacheUsed else CacheEmpty)"

lemma cls_of_head [simp]: "cls_of s a \<in> cache_heads"
  by (simp add: cls_of_def cache_heads_def)

definition heap_inv ::
  "kheap \<Rightarrow> u32 set \<Rightarrow> (u32 \<Rightarrow> u32 list) \<Rightarrow> (u32 \<times> nat) set \<Rightarrow> (u32 \<times> nat) set \<Rightarrow> bool" where
  "heap_inv s S fr P M \<longleftrightarrow>
     kernel_rep (pages s) P M \<and> slab_lock s = LOCK_FREE \<and>
     (\<forall>a\<in>S. (a, 0) \<in> P \<and> slab_ok s a (fr a)) \<and> lists_cls (cache s) S (cls_of s)"

text \<open>The objects handed out: the buffers that are not in the chain.\<close>

definition objs_of :: "kheap \<Rightarrow> u32 \<Rightarrow> u32 list \<Rightarrow> (u32 \<times> nat) set" where
  "objs_of s a xs = (\<lambda>b. (b + sizeof_Buf, size_of s a)) ` (slab_bufs a (size_of s a) - set xs)"

definition slab_objs :: "kheap \<Rightarrow> u32 set \<Rightarrow> (u32 \<Rightarrow> u32 list) \<Rightarrow> (u32 \<times> nat) set" where
  "slab_objs s S fr = (\<Union>a\<in>S. objs_of s a (fr a))"

lemma objs_of_mem:
  "(p, z) \<in> objs_of s a xs \<longleftrightarrow>
     z = size_of s a \<and> p - sizeof_Buf \<in> slab_bufs a z \<and> p - sizeof_Buf \<notin> set xs"
  by (auto simp: objs_of_def image_iff intro!: bexI[of _ "p - sizeof_Buf"])

lemma heap_invD:
  assumes "heap_inv s S fr P M"
  shows "kernel_rep (pages s) P M" "slab_lock s = LOCK_FREE" "\<And>a. a \<in> S \<Longrightarrow> (a, 0) \<in> P"
    "\<And>a. a \<in> S \<Longrightarrow> slab_ok s a (fr a)" "lists_cls (cache s) S (cls_of s)"
  using assms by (auto simp: heap_inv_def)

lemma kernel_rep_page:
  assumes "kernel_rep s P M" "(a, order) \<in> P"
  shows "slab_page a"
proof -
  from assms obtain K F where inv: "kmem_inv s K F" and P: "P = live (kernel_buddy_new s) K"
    unfolding kernel_rep_def by blast
  note I = kmem_invD(1,2)[OF inv]
  have m: "(a, order) \<in> live (kernel_buddy_new s) K" using assms(2) P by simp
  have "0xC0000000 + (pfn_offset (kernel_buddy_new s) + tot_pages (kernel_buddy_new s)) * 4096 \<le> 2 ^ 32"
    using I(2) by (simp add: region_ok_def)
  moreover have "unat a + 4096 * 2 ^ order
      \<le> 0xC0000000 + (pfn_offset (kernel_buddy_new s) + tot_pages (kernel_buddy_new s)) * 4096"
    using live_range(1)[OF I m] by (simp add: bytes_of_def)
  moreover have "(1::nat) \<le> 2 ^ order" by simp
  ultimately have "unat a + 4096 \<le> 2 ^ 32" by linarith
  with live_range(2,3)[OF I m] show ?thesis by (simp add: slab_page_def)
qed

lemma heap_inv_page: "heap_inv s S fr P M \<Longrightarrow> a \<in> S \<Longrightarrow> slab_page a"
  using kernel_rep_page heap_invD(1,3) by blast

lemma take_lock_free: "take_lock LOCK_FREE = Inr LOCK_LOCKED"
  by (simp add: take_lock_def test_spin_lock_def LOCK_FREE_def LOCK_LOCKED_def)

lemma slab_lock_idem: "slab_lock s = LOCK_FREE \<Longrightarrow> s\<lparr>slab_lock := x, slab_lock := LOCK_FREE\<rparr> = s"
  by (cases s) simp

text \<open>
  A step that changes one slab, one of its buffers and the list the slab is on keeps the
  invariant, when the slab itself is well formed again.
\<close>

lemma heap_inv_step:
  assumes inv: "heap_inv s S fr P M" and a: "a \<in> S"
    and x: "x \<in> slab_bufs a (size_of s a)"
    and s': "pages s' = pages s" "slab_lock s' = LOCK_FREE"
      "\<And>b. b \<noteq> a \<Longrightarrow> slabs s' b = slabs s b" "\<And>y. y \<noteq> x \<Longrightarrow> bufs s' y = bufs s y"
    and ok: "slab_ok s' a xs"
    and lists: "lists_cls (cache s') S ((cls_of s)(a := cls_of s' a))"
  shows "heap_inv s' S (fr(a := xs)) P M"
proof -
  note I = heap_invD[OF inv]
  have other: "slab_ok s' b (fr b)" if b: "b \<in> S" "b \<noteq> a" for b
  proof (rule slab_ok_frame[OF I(4)[OF b(1)] s'(3)[OF b(2)]])
    fix y assume "y \<in> slab_bufs b (size_of s b)"
    then have "y \<noteq> x"
      using x slab_bufs_disjoint[OF heap_inv_page[OF inv b(1)] heap_inv_page[OF inv a] b(2)] by blast
    then show "bufs s' y = bufs s y" by (rule s'(4))
  qed
  have "lists_cls (cache s') S (cls_of s')"
    by (rule lists_cls_cong[OF lists]) (simp add: cls_of_def s'(3))
  with I s' ok other show ?thesis by (auto simp: heap_inv_def)
qed

lemma lists_cls_same:
  "lists_cls h S cls \<Longrightarrow> lists_cls h S (cls(a := cls a))"
  by simp

lemma slab_objs_split:
  assumes "a \<in> S"
  shows "slab_objs s S fr = objs_of s a (fr a) \<union> (\<Union>b\<in>S - {a}. objs_of s b (fr b))"
proof -
  have S: "S = insert a (S - {a})" using assms by blast
  show ?thesis unfolding slab_objs_def by (subst S) (simp only: UN_insert)
qed

lemma slab_objs_change:
  assumes "a \<in> S" "\<forall>b\<in>S. s_size (slabs s' b) = s_size (slabs s b)"
  shows "slab_objs s' S (fr(a := xs)) = objs_of s a xs \<union> (\<Union>b\<in>S - {a}. objs_of s b (fr b))"
proof -
  have "slab_objs s' S (fr(a := xs)) = slab_objs s S (fr(a := xs))"
    unfolding slab_objs_def objs_of_def by (intro SUP_cong refl) (simp add: assms(2))
  then show ?thesis using slab_objs_split[OF assms(1), of s "fr(a := xs)"] by simp
qed

lemma objs_of_other:
  assumes "heap_inv s S fr P M" "a \<in> S" "b \<in> S" "b \<noteq> a" "x \<in> slab_bufs a (size_of s a)"
  shows "(x + sizeof_Buf, z) \<notin> objs_of s b xs"
  using slab_bufs_disjoint[OF heap_inv_page[OF assms(1,2)] heap_inv_page[OF assms(1,3)]] assms(4,5)
  by (auto simp: objs_of_mem)

lemma slab_objs_take:
  assumes inv: "heap_inv s S fr P M" and a: "a \<in> S" "fr a = x # xs"
    and s': "\<forall>b\<in>S. s_size (slabs s' b) = s_size (slabs s b)"
  shows "slab_objs s' S (fr(a := xs)) = insert (x + sizeof_Buf, size_of s a) (slab_objs s S fr)"
    "(x + sizeof_Buf, size_of s a) \<notin> slab_objs s S fr"
proof -
  have ok: "slab_ok s a (x # xs)" using heap_invD(4)[OF inv a(1)] a(2) by simp
  then have x: "x \<in> slab_bufs a (size_of s a)" "x \<notin> set xs" by (simp_all add: slab_ok_def)
  have "objs_of s a xs = insert (x + sizeof_Buf, size_of s a) (objs_of s a (x # xs))"
    unfolding objs_of_def using x by auto
  then show "slab_objs s' S (fr(a := xs)) = insert (x + sizeof_Buf, size_of s a) (slab_objs s S fr)"
    unfolding slab_objs_change[OF a(1) s'] slab_objs_split[OF a(1), of s fr] a(2) by simp
  have "(x + sizeof_Buf, size_of s a) \<notin> objs_of s a (x # xs)" by (simp add: objs_of_mem)
  with objs_of_other[OF inv a(1) _ _ x(1)] show "(x + sizeof_Buf, size_of s a) \<notin> slab_objs s S fr"
    unfolding slab_objs_split[OF a(1), of s fr] a(2) by blast
qed

lemma slab_objs_give:
  assumes inv: "heap_inv s S fr P M" and a: "a \<in> S"
    and x: "x \<in> slab_bufs a (size_of s a)"
    and s': "\<forall>b\<in>S. s_size (slabs s' b) = s_size (slabs s b)"
  shows "slab_objs s' S (fr(a := x # fr a)) = slab_objs s S fr - {(x + sizeof_Buf, size_of s a)}"
proof -
  have "objs_of s a (x # fr a) = objs_of s a (fr a) - {(x + sizeof_Buf, size_of s a)}"
    unfolding objs_of_def using x by auto
  moreover have "(x + sizeof_Buf, size_of s a) \<notin> (\<Union>b\<in>S - {a}. objs_of s b (fr b))"
    using objs_of_other[OF inv a _ _ x] by blast
  ultimately show ?thesis
    unfolding slab_objs_change[OF a s'] slab_objs_split[OF a, of s fr] by blast
qed

section \<open>salloc\<close>

lemma search_list_lock [simp]: "search_list H sz (s\<lparr>slab_lock := l\<rparr>) = search_list H sz s"
proof -
  have "search_body sz (s\<lparr>slab_lock := l\<rparr>) = search_body sz s"
    by (intro ext) (simp add: search_body_def split: snode.split)
  then show ?thesis by (simp add: search_list_def)
qed

lemma salloc_used:
  assumes inv: "heap_inv s S fr P M"
    and found: "search_list CacheUsed sz s = Inr (Some a)"
    and a: "a \<in> S" "cls_of s a = CacheUsed"
  shows "\<exists>s' x xs. salloc sz s = Inr (x + sizeof_Buf, s') \<and> fr a = x # xs \<and>
     heap_inv s' S (fr(a := xs)) P M \<and> (\<forall>b. s_size (slabs s' b) = s_size (slabs s b)) \<and>
     pages s' = pages s \<and> (\<forall>y. b_slab (bufs s' y) = b_slab (bufs s y))"
proof -
  note I = heap_invD[OF inv]
  obtain x xs where xs: "fr a = x # xs"
    using slab_ok_bounds(3)[OF I(4)[OF a(1)]] by (cases "fr a") auto
  have ok: "slab_ok s a (x # xs)" using I(4)[OF a(1)] xs by simp
  have ff: "s_first_free (slabs s a) = x" and x: "x \<in> slab_bufs a (size_of s a)"
    using slab_ok_bounds(4,5)[OF ok] by simp_all
  have x0: "x \<noteq> 0" by (rule slab_bufs_in_page(4)[OF heap_inv_page[OF inv a(1)] x])
  have more: "s_alloc (slabs s a) \<noteq> 0" "s_alloc (slabs s a) < s_tot (slabs s a)"
    using a(2) by (auto simp: cls_of_def split: if_splits)
  define s1 where "s1 = upd_buf x (\<lambda>b. b\<lparr>b_next_free := 0\<rparr>)
      (upd_slab a (\<lambda>y. y\<lparr>s_alloc := s_alloc (slabs s a) + 1, s_first_free := b_next_free (bufs s x)\<rparr>) s)"
  have s1: "slabs s1 a = (slabs s a)\<lparr>s_alloc := s_alloc (slabs s a) + 1, s_first_free := b_next_free (bufs s x)\<rparr>"
    "bufs s1 = (bufs s)(x := (bufs s x)\<lparr>b_next_free := 0\<rparr>)" by (simp_all add: s1_def)
  note T = slab_take[OF ok more(2) s1]
  have le: "s_alloc (slabs s1 a) \<le> s_tot (slabs s1 a)" using slab_ok_bounds(1)[OF T(1)] .
  define s2 where "s2 = (if s_alloc (slabs s1 a) \<ge> s_tot (slabs s1 a)
      then on_cache (list_add_tail CacheEmpty (SlabHead a)) (on_cache (list_remove (SlabHead a)) s1) else s1)"
  have tot: "s_tot (slabs s1 a) = s_tot (slabs s a)" by (simp add: s1)
  have run: "salloc sz s = Inr (x + sizeof_Buf, s2\<lparr>slab_lock := LOCK_FREE\<rparr>)"
  proof (cases "s_alloc (slabs s1 a) \<ge> s_tot (slabs s1 a)")
    case True
    with le have full: "s_alloc (slabs s a) + 1 = s_tot (slabs s a)" by (simp add: s1)
    with found I(2) ff x0 show ?thesis
      by (simp add: salloc_def take_lock_free s2_def s1_def Let_def upd_slab_def upd_buf_def on_cache_def
          upd_comm)
  next
    case False
    with found I(2) ff x0 show ?thesis
      by (simp add: salloc_def take_lock_free s2_def s1_def Let_def upd_slab_def upd_buf_def on_cache_def)
  qed
  have v: "slabs s2 = slabs s1" "bufs s2 = bufs s1" "pages s2 = pages s"
    by (simp_all add: s2_def s1_def)
  have "heap_inv (s2\<lparr>slab_lock := LOCK_FREE\<rparr>) S (fr(a := xs)) P M"
  proof (rule heap_inv_step[OF inv a(1) x])
    show "slab_ok (s2\<lparr>slab_lock := LOCK_FREE\<rparr>) a xs"
      using slab_ok_frame[OF T(1), of "s2\<lparr>slab_lock := LOCK_FREE\<rparr>"] v by simp
    show "lists_cls (cache (s2\<lparr>slab_lock := LOCK_FREE\<rparr>)) S
        ((cls_of s)(a := cls_of (s2\<lparr>slab_lock := LOCK_FREE\<rparr>) a))"
    proof (cases "s_alloc (slabs s1 a) \<ge> s_tot (slabs s1 a)")
      case True
      then have "cls_of (s2\<lparr>slab_lock := LOCK_FREE\<rparr>) a = CacheEmpty"
        using T(2) by (auto simp: cls_of_def v)
      moreover have "cache s2 = list_add_tail CacheEmpty (SlabHead a) (list_remove (SlabHead a) (cache s))"
        using True by (simp add: s2_def s1_def)
      ultimately show ?thesis
        using lists_cls_move(1)[OF I(5) a(1) cls_of_head, of CacheEmpty] by (simp add: cache_heads_def)
    next
      case False
      then have "cls_of (s2\<lparr>slab_lock := LOCK_FREE\<rparr>) a = CacheUsed"
        using T(2) by (auto simp: cls_of_def v)
      moreover have "cache s2 = cache s" using False by (simp add: s2_def s1_def)
      ultimately show ?thesis using lists_cls_same[OF I(5), of a] a(2) by simp
    qed
  qed (simp_all add: v s1_def)
  moreover have "\<forall>b. s_size (slabs s2 b) = s_size (slabs s b)" by (simp add: v s1_def)
  moreover have "\<forall>y. b_slab (bufs s2 y) = b_slab (bufs s y)" by (simp add: v s1_def)
  ultimately show ?thesis using run xs v(3) by fastforce
qed

lemma salloc_unused:
  assumes inv: "heap_inv s S fr P M"
    and none: "search_list CacheUsed sz s = Inr None"
    and found: "search_list CacheFree sz s = Inr (Some a)"
    and a: "a \<in> S" "cls_of s a = CacheFree"
  shows "\<exists>s' x xs. salloc sz s = Inr (x + sizeof_Buf, s') \<and> fr a = x # xs \<and>
     heap_inv s' S (fr(a := xs)) P M \<and> (\<forall>b. s_size (slabs s' b) = s_size (slabs s b)) \<and>
     pages s' = pages s \<and> (\<forall>y. b_slab (bufs s' y) = b_slab (bufs s y))"
proof -
  note I = heap_invD[OF inv]
  obtain x xs where xs: "fr a = x # xs"
    using slab_ok_bounds(3)[OF I(4)[OF a(1)]] by (cases "fr a") auto
  have ok: "slab_ok s a (x # xs)" using I(4)[OF a(1)] xs by simp
  have ff: "s_first_free (slabs s a) = x" and x: "x \<in> slab_bufs a (size_of s a)"
    using slab_ok_bounds(4,5)[OF ok] by simp_all
  have x0: "x \<noteq> 0" by (rule slab_bufs_in_page(4)[OF heap_inv_page[OF inv a(1)] x])
  have zero: "s_alloc (slabs s a) = 0" using a(2) by (auto simp: cls_of_def split: if_splits)
  with slab_ok_bounds(2)[OF ok] have more: "s_alloc (slabs s a) < s_tot (slabs s a)"
    by (simp add: word_less_nat_alt)
  define s1 where "s1 = upd_buf x (\<lambda>b. b\<lparr>b_next_free := 0\<rparr>)
      (upd_slab a (\<lambda>y. y\<lparr>s_alloc := s_alloc (slabs s a) + 1, s_first_free := b_next_free (bufs s x)\<rparr>) s)"
  have s1: "slabs s1 a = (slabs s a)\<lparr>s_alloc := s_alloc (slabs s a) + 1, s_first_free := b_next_free (bufs s x)\<rparr>"
    "bufs s1 = (bufs s)(x := (bufs s x)\<lparr>b_next_free := 0\<rparr>)" by (simp_all add: s1_def)
  note T = slab_take[OF ok more s1]
  define s2 where
    "s2 = on_cache (list_add_tail CacheUsed (SlabHead a)) (on_cache (list_remove (SlabHead a)) s1)"
  have run: "salloc sz s = Inr (x + sizeof_Buf, s2\<lparr>slab_lock := LOCK_FREE\<rparr>)"
    using none found I(2) ff x0
    by (simp add: salloc_def take_lock_free s2_def s1_def Let_def upd_slab_def upd_buf_def on_cache_def)
  have v: "slabs s2 = slabs s1" "bufs s2 = bufs s1" "pages s2 = pages s"
    by (simp_all add: s2_def s1_def)
  have "heap_inv (s2\<lparr>slab_lock := LOCK_FREE\<rparr>) S (fr(a := xs)) P M"
  proof (rule heap_inv_step[OF inv a(1) x])
    show "slab_ok (s2\<lparr>slab_lock := LOCK_FREE\<rparr>) a xs"
      using slab_ok_frame[OF T(1), of "s2\<lparr>slab_lock := LOCK_FREE\<rparr>"] v by simp
    have "s_tot (slabs s1 a) = s_tot (slabs s a)" "unat (s_alloc (slabs s1 a)) = 1"
      using T(2) zero by (simp_all add: s1)
    then have "cls_of (s2\<lparr>slab_lock := LOCK_FREE\<rparr>) a = CacheUsed"
      using slab_ok_bounds(2)[OF ok] by (auto simp: cls_of_def v word_less_nat_alt)
    then show "lists_cls (cache (s2\<lparr>slab_lock := LOCK_FREE\<rparr>)) S
        ((cls_of s)(a := cls_of (s2\<lparr>slab_lock := LOCK_FREE\<rparr>) a))"
      using lists_cls_move(1)[OF I(5) a(1) cls_of_head, of CacheUsed]
      by (simp add: cache_heads_def s2_def s1_def)
  qed (simp_all add: v s1_def)
  moreover have "\<forall>b. s_size (slabs s2 b) = s_size (slabs s b)" by (simp add: v s1_def)
  moreover have "\<forall>y. b_slab (bufs s2 y) = b_slab (bufs s y)" by (simp add: v s1_def)
  ultimately show ?thesis using run xs v(3) by fastforce
qed

text \<open>A slab of the size with room: one on the used or the free list.\<close>

definition has_room :: "kheap \<Rightarrow> u32 set \<Rightarrow> u32 \<Rightarrow> bool" where
  "has_room s S sz \<longleftrightarrow> (\<exists>a\<in>S. s_size (slabs s a) = sz \<and> s_alloc (slabs s a) < s_tot (slabs s a))"

lemma salloc_spec:
  assumes inv: "heap_inv s S fr P M"
  shows "if has_room s S sz
     then \<exists>p s' fr'. salloc sz s = Inr (p, s') \<and> p \<noteq> 0 \<and> heap_inv s' S fr' P M \<and>
       (p, unat sz) \<notin> slab_objs s S fr \<and>
       slab_objs s' S fr' = insert (p, unat sz) (slab_objs s S fr) \<and> pages s' = pages s \<and>
       (\<forall>y. b_slab (bufs s' y) = b_slab (bufs s y))
     else salloc sz s = Inr (0, s)"
proof -
  note I = heap_invD[OF inv]
  have taken: "\<exists>p s' fr'. salloc sz s = Inr (p, s') \<and> p \<noteq> 0 \<and> heap_inv s' S fr' P M \<and>
       (p, unat sz) \<notin> slab_objs s S fr \<and>
       slab_objs s' S fr' = insert (p, unat sz) (slab_objs s S fr) \<and> pages s' = pages s \<and>
       (\<forall>y. b_slab (bufs s' y) = b_slab (bufs s y))"
    if a: "a \<in> S" "s_size (slabs s a) = sz"
      and e: "\<exists>s' x xs. salloc sz s = Inr (x + sizeof_Buf, s') \<and> fr a = x # xs \<and>
         heap_inv s' S (fr(a := xs)) P M \<and> (\<forall>b. s_size (slabs s' b) = s_size (slabs s b)) \<and>
         pages s' = pages s \<and> (\<forall>y. b_slab (bufs s' y) = b_slab (bufs s y))" for a
  proof -
    from e obtain s' x xs where s': "salloc sz s = Inr (x + sizeof_Buf, s')" "fr a = x # xs"
      "heap_inv s' S (fr(a := xs)) P M" "\<forall>b\<in>S. s_size (slabs s' b) = s_size (slabs s b)"
      "pages s' = pages s" "\<forall>y. b_slab (bufs s' y) = b_slab (bufs s y)" by blast
    have ok: "slab_ok s a (x # xs)" using I(4)[OF a(1)] s'(2) by simp
    then have x: "x \<in> slab_bufs a (size_of s a)" "0 < size_of s a" by (simp_all add: slab_ok_def)
    have "x + sizeof_Buf \<noteq> 0"
      by (rule slab_bufs_in_page(5)[OF heap_inv_page[OF inv a(1)] x])
    with slab_objs_take[OF inv a(1) s'(2) s'(4)] s' a(2) show ?thesis by auto
  qed
  have H: "CacheUsed \<in> cache_heads" "CacheFree \<in> cache_heads" by (simp_all add: cache_heads_def)
  from search_list_spec[OF I(5) H(1), of sz] obtain u where u: "search_list CacheUsed sz s = Inr u"
    "case u of Some a \<Rightarrow> a \<in> S \<and> cls_of s a = CacheUsed \<and> s_size (slabs s a) = sz
      | None \<Rightarrow> \<forall>a\<in>S. cls_of s a = CacheUsed \<longrightarrow> s_size (slabs s a) \<noteq> sz" by blast
  from search_list_spec[OF I(5) H(2), of sz] obtain v where v: "search_list CacheFree sz s = Inr v"
    "case v of Some a \<Rightarrow> a \<in> S \<and> cls_of s a = CacheFree \<and> s_size (slabs s a) = sz
      | None \<Rightarrow> \<forall>a\<in>S. cls_of s a = CacheFree \<longrightarrow> s_size (slabs s a) \<noteq> sz" by blast
  have room: "s_alloc (slabs s a) < s_tot (slabs s a)" if "a \<in> S" "cls_of s a \<noteq> CacheEmpty" for a
    using that slab_ok_bounds(2)[OF I(4)[OF that(1)]]
    by (auto simp: cls_of_def word_less_nat_alt split: if_splits)
  show ?thesis
  proof (cases u)
    case (Some a)
    with u have a: "a \<in> S" "cls_of s a = CacheUsed" "s_size (slabs s a) = sz" by auto
    have "has_room s S sz" using a room[OF a(1)] by (auto simp: has_room_def)
    with taken[OF a(1,3)] salloc_used[OF inv u(1)[unfolded Some] a(1,2)] show ?thesis by simp
  next
    case None
    note nu = this
    show ?thesis
    proof (cases v)
      case (Some a)
      with v have a: "a \<in> S" "cls_of s a = CacheFree" "s_size (slabs s a) = sz" by auto
      have "has_room s S sz" using a room[OF a(1)] by (auto simp: has_room_def)
      with taken[OF a(1,3)] salloc_unused[OF inv u(1)[unfolded nu] v(1)[unfolded Some] a(1,2)]
      show ?thesis by simp
    next
      case None
      have "\<not> has_room s S sz"
      proof
        assume "has_room s S sz"
        then obtain a where a: "a \<in> S" "s_size (slabs s a) = sz" "s_alloc (slabs s a) < s_tot (slabs s a)"
          unfolding has_room_def by blast
        then have "cls_of s a = CacheUsed \<or> cls_of s a = CacheFree" by (auto simp: cls_of_def)
        with a u(2) v(2) nu None show False by auto
      qed
      moreover have "salloc sz s = Inr (0, s)"
        using u(1) v(1) nu None I(2) by (simp add: salloc_def take_lock_free slab_lock_idem)
      ultimately show ?thesis by simp
    qed
  qed
qed

lemma salloc_room:
  assumes "heap_inv s S fr P M" "has_room s S sz"
  obtains p s' fr' where "salloc sz s = Inr (p, s')" "p \<noteq> 0" "heap_inv s' S fr' P M"
    "(p, unat sz) \<notin> slab_objs s S fr" "slab_objs s' S fr' = insert (p, unat sz) (slab_objs s S fr)"
    "pages s' = pages s" "\<forall>y. b_slab (bufs s' y) = b_slab (bufs s y)"
proof -
  note that' = that
  from salloc_spec[OF assms(1), of sz, unfolded if_P[OF assms(2)]] show thesis
    by (elim exE conjE) (rule that')
qed

section \<open>sfree\<close>

lemma sfree_spec:
  assumes inv: "heap_inv s S fr P M" and p: "(p, z) \<in> slab_objs s S fr"
  shows "\<exists>s' fr'. sfree p s = Inr (True, s') \<and> heap_inv s' S fr' P M \<and>
     slab_objs s' S fr' = slab_objs s S fr - {(p, z)} \<and> pages s' = pages s \<and>
     (\<forall>y. b_slab (bufs s' y) = b_slab (bufs s y))"
proof -
  note I = heap_invD[OF inv]
  define x where "x = p - sizeof_Buf"
  from p obtain a where a: "a \<in> S" and z: "z = size_of s a"
    and x: "x \<in> slab_bufs a (size_of s a)" "x \<notin> set (fr a)"
    unfolding slab_objs_def by (auto simp: objs_of_mem x_def)
  have ok: "slab_ok s a (fr a)" by (rule I(4)[OF a])
  note pg = heap_inv_page[OF inv a]
  have bs: "b_slab (bufs s x) = a" "s_fingerprint (slabs s a) = SLAB_FINGERPRINT"
    using ok x(1) by (simp_all add: slab_ok_def)
  have some: "s_alloc (slabs s a) \<noteq> 0"
  proof
    assume "s_alloc (slabs s a) = 0"
    with ok have l: "length (fr a) = nbufs (size_of s a)" "distinct (fr a)"
      "set (fr a) \<subseteq> slab_bufs a (size_of s a)" by (simp_all add: slab_ok_def)
    have fin: "finite (slab_bufs a (size_of s a))" by (simp add: slab_bufs_def)
    have "card (slab_bufs a (size_of s a)) \<le> nbufs (size_of s a)"
      unfolding slab_bufs_def using card_image_le[of "{..<nbufs (size_of s a)}"] by simp
    moreover have "card (set (fr a)) = nbufs (size_of s a)" using l by (simp add: distinct_card)
    ultimately have "set (fr a) = slab_bufs a (size_of s a)"
      using card_mono[OF fin l(3)] by (intro card_subset_eq[OF fin l(3)]) simp
    with x show False by simp
  qed
  have guards: "is_kernel_addr x" "is_kernel_addr a" "\<not> s_alloc (slabs s a) \<le> 0"
    using slab_bufs_in_page(3)[OF pg x(1)] slab_pageD(2)[OF pg] some by simp_all
  define s1 where "s1 = upd_buf x (\<lambda>b. b\<lparr>b_next_free := s_first_free (slabs s a)\<rparr>)
      (upd_slab a (\<lambda>y. y\<lparr>s_alloc := s_alloc (slabs s a) - 1, s_first_free := x,
        s_last_used := ucast (tick_count s)\<rparr>) s)"
  have s1: "slabs s1 a = (slabs s a)\<lparr>s_alloc := s_alloc (slabs s a) - 1, s_first_free := x,
      s_last_used := ucast (tick_count s)\<rparr>"
    "bufs s1 = (bufs s)(x := (bufs s x)\<lparr>b_next_free := s_first_free (slabs s a)\<rparr>)"
    by (simp_all add: s1_def)
  note G = slab_give[OF ok x some s1]
  define s2 where "s2 = (if s_alloc (slabs s1 a) = 0
      then on_cache (list_add_tail CacheFree (SlabHead a)) (on_cache (list_remove (SlabHead a)) s1)
      else on_cache (list_add_head CacheUsed (SlabHead a)) (on_cache (list_remove (SlabHead a)) s1))"
  have run: "sfree p s = Inr (True, s2\<lparr>slab_lock := LOCK_FREE\<rparr>)"
    using I(2) guards bs
    by (simp add: sfree_def take_lock_free s2_def s1_def Let_def upd_slab_def upd_buf_def on_cache_def
        upd_comm flip: x_def)
  have v: "slabs s2 = slabs s1" "bufs s2 = bufs s1" "pages s2 = pages s"
    by (simp_all add: s2_def s1_def)
  have "heap_inv (s2\<lparr>slab_lock := LOCK_FREE\<rparr>) S (fr(a := x # fr a)) P M"
  proof (rule heap_inv_step[OF inv a x(1)])
    show "slab_ok (s2\<lparr>slab_lock := LOCK_FREE\<rparr>) a (x # fr a)"
      using slab_ok_frame[OF G(1), of "s2\<lparr>slab_lock := LOCK_FREE\<rparr>"] v by simp
    have "s_tot (slabs s1 a) = s_tot (slabs s a)" by (simp add: s1)
    then have "s_alloc (slabs s1 a) < s_tot (slabs s1 a)"
      using G(2) slab_ok_bounds(1)[OF ok] by (simp add: word_less_nat_alt word_le_nat_alt)
    then have "cls_of (s2\<lparr>slab_lock := LOCK_FREE\<rparr>) a =
        (if s_alloc (slabs s1 a) = 0 then CacheFree else CacheUsed)"
      by (auto simp: cls_of_def v)
    then show "lists_cls (cache (s2\<lparr>slab_lock := LOCK_FREE\<rparr>)) S
        ((cls_of s)(a := cls_of (s2\<lparr>slab_lock := LOCK_FREE\<rparr>) a))"
      using lists_cls_move(1)[OF I(5) a cls_of_head, of CacheFree]
        lists_cls_move(2)[OF I(5) a cls_of_head, of CacheUsed]
      by (simp add: cache_heads_def s2_def) (simp add: s1_def)
  qed (simp_all add: v s1_def)
  moreover have "\<forall>b\<in>S. s_size (slabs (s2\<lparr>slab_lock := LOCK_FREE\<rparr>) b) = s_size (slabs s b)"
    by (simp add: v s1_def)
  from slab_objs_give[OF inv a x(1) this]
  have "slab_objs (s2\<lparr>slab_lock := LOCK_FREE\<rparr>) S (fr(a := x # fr a)) = slab_objs s S fr - {(p, z)}"
    by (simp add: x_def z)
  moreover have "\<forall>y. b_slab (bufs s2 y) = b_slab (bufs s y)" by (simp add: v s1_def)
  ultimately show ?thesis using run v(3) by fastforce
qed

section \<open>createSlab\<close>

lemma buf_addr_Suc: "buf_addr a (unat sz) i + sizeof_Buf + sz = buf_addr a (unat sz) (Suc i)"
  by (simp add: buf_addr_def sizeof_Buf_def algebra_simps)

lemma word_of_nat_Suc: "word_of_nat (Suc i) = (word_of_nat i + 1 :: u32)"
  by simp

lemma buf_const: "b\<lparr>b_slab := a, b_next_free := q\<rparr> = \<lparr>b_slab = a, b_next_free = q\<rparr>"
  by (cases b) simp

lemma init_bufs_spec:
  assumes "slab_page a" "i + n = nbufs z" "unat (s_tot (slabs s a)) + 1 = nbufs z" "z = unat sz"
  defines "s' \<equiv> init_bufs n (word_of_nat i) (buf_addr a z i) a sz s"
  shows "slabs s' = slabs s \<and> cache s' = cache s \<and> pages s' = pages s \<and> slab_lock s' = slab_lock s \<and>
     tick_count s' = tick_count s \<and>
     (\<forall>j. i \<le> j \<and> j < nbufs z \<longrightarrow> b_slab (bufs s' (buf_addr a z j)) = a \<and>
        b_next_free (bufs s' (buf_addr a z j)) = (if Suc j < nbufs z then buf_addr a z (Suc j) else 0)) \<and>
     (\<forall>y. y \<notin> buf_addr a z ` {i..<nbufs z} \<longrightarrow> bufs s' y = bufs s y)"
  using assms(2-4) unfolding s'_def
proof (induction n arbitrary: i s)
  case (Suc n)
  let ?b = "buf_addr a z i"
  define s1 where "s1 = upd_buf ?b (\<lambda>_. \<lparr>b_slab = a,
      b_next_free = (if Suc i < nbufs z then buf_addr a z (Suc i) else 0)\<rparr>) s"
  have "unat (word_of_nat i :: u32) = i"
    using Suc.prems(1,2) unat_u32_less[of "s_tot (slabs s a)"] by (intro unat_u32) simp
  then have lt: "word_of_nat i < s_tot (slabs s a) \<longleftrightarrow> Suc i < nbufs z"
    using Suc.prems(2) by (auto simp: word_less_nat_alt)
  have step: "init_bufs (Suc n) (word_of_nat i) ?b a sz s =
      init_bufs n (word_of_nat (Suc i)) (buf_addr a z (Suc i)) a sz s1"
    using lt buf_addr_Suc[of a sz i, folded Suc.prems(3)] word_of_nat_Suc[of i, symmetric]
    by (simp add: Let_def s1_def upd_buf_def buf_const del: of_nat_Suc)
  have "Suc i + n = nbufs z" "unat (s_tot (slabs s1 a)) + 1 = nbufs z"
    using Suc.prems(1,2) by (simp_all add: s1_def)
  note IH = Suc.IH[OF this Suc.prems(3)]
  define s2 where "s2 = init_bufs n (word_of_nat (Suc i)) (buf_addr a z (Suc i)) a sz s1"
  note IH = IH[folded s2_def]
  have i: "i < nbufs z" using Suc.prems(1) by simp
  have "?b \<notin> buf_addr a z ` {Suc i..<nbufs z}"
  proof
    assume "?b \<in> buf_addr a z ` {Suc i..<nbufs z}"
    then obtain j where "Suc i \<le> j" "j < nbufs z" "?b = buf_addr a z j" by auto
    with buf_addr_inj[OF assms(1) i this(2)] show False by simp
  qed
  with IH have b: "bufs s2 ?b = \<lparr>b_slab = a,
      b_next_free = (if Suc i < nbufs z then buf_addr a z (Suc i) else 0)\<rparr>"
    by (simp add: s1_def)
  have "b_slab (bufs s2 (buf_addr a z j)) = a \<and>
      b_next_free (bufs s2 (buf_addr a z j)) = (if Suc j < nbufs z then buf_addr a z (Suc j) else 0)"
    if "i \<le> j" "j < nbufs z" for j
    using IH b that by (cases "j = i") auto
  moreover have "bufs s2 y = bufs s y" if "y \<notin> buf_addr a z ` {i..<nbufs z}" for y
  proof -
    have "y \<notin> buf_addr a z ` {Suc i..<nbufs z}" "y \<noteq> ?b" using that i by auto
    with IH show ?thesis by (simp add: s1_def)
  qed
  ultimately show ?case unfolding step s2_def[symmetric] using IH by (simp add: s1_def)
qed auto

declare init_bufs.simps [simp del]

lemma chain_upt:
  assumes "\<And>j. i \<le> j \<Longrightarrow> j < n \<Longrightarrow> b_next_free (bs (f j)) = (if Suc j < n then f (Suc j) else 0)"
  shows "chain bs (if i < n then f i else 0) (map f [i..<n])"
  using assms
proof (induction "n - i" arbitrary: i)
  case (Suc k)
  then have i: "i < n" "k = n - Suc i" by auto
  have "chain bs (if Suc i < n then f (Suc i) else 0) (map f [Suc i..<n])"
    using Suc.prems by (intro Suc.hyps(1)[OF i(2)]) simp
  then show ?case using i(1) Suc.prems[of i] by (simp add: upt_conv_Cons)
qed simp

lemma nbufs_u32:
  assumes "0 < unat sz" "3 * (unat sz + 8) \<le> 4060"
  shows "unat ((PAGE_SIZE - sizeof_Slab) div (sz + sizeof_Buf) - 1) + 1 = nbufs (unat sz)"
proof -
  have "unat (sz + sizeof_Buf) = unat sz + 8"
    using assms(2) by (simp add: sizeof_Buf_def unat_word_ariths)
  then have d: "unat ((PAGE_SIZE - sizeof_Slab) div (sz + sizeof_Buf)) = nbufs (unat sz)"
    by (simp add: unat_div_distrib PAGE_SIZE_def sizeof_Slab_def nbufs_def)
  have "1 \<le> nbufs (unat sz)"
    using assms(2) unfolding nbufs_def by (subst less_eq_div_iff_mult_less_eq) simp_all
  with d show ?thesis by (subst unat_sub) (simp_all add: word_le_nat_alt)
qed

lemma createSlab_spec:
  assumes inv: "heap_inv s S fr P M" and sz: "0 < unat sz" "3 * (unat sz + 8) \<le> 4060"
    and c: "createSlab sz no_sleep s = Inr (a, s')"
  shows "\<exists>fr'. a \<notin> S \<and> heap_inv s' (insert a S) fr' (insert (a, 0) P) M \<and> (a, 0) \<notin> P \<and>
     slab_objs s' (insert a S) fr' = slab_objs s S fr \<and> has_room s' (insert a S) sz \<and>
     (\<forall>y. y \<notin> slab_bufs a (unat sz) \<longrightarrow> bufs s' y = bufs s y)"
proof -
  note I = heap_invD[OF inv]
  let ?z = "unat sz"
  have lock: "kmem_lock (pages s) = LOCK_FREE" using kernel_rep_counters(1)[OF I(1)] .
  from c obtain p where k: "kalloc_nosleep 0 (pages s) = Inr (a, p)"
    by (auto simp: createSlab_def kalloc_page_free[OF lock] Let_def res_bind_Inr_iff split: if_splits)
  from kernel_alloc_step[OF I(1) k] have new: "(a, 0) \<notin> P" and rep: "kernel_rep p (insert (a, 0) P) M"
    by simp_all
  have aS: "a \<notin> S" using new I(3) by blast
  have pg: "slab_page a" using kernel_rep_page[OF rep] by blast
  define h where "h = (slabs s a)\<lparr>s_size := sz, s_alloc := 0,
     s_tot := (PAGE_SIZE - sizeof_Slab) div (sz + sizeof_Buf) - 1,
     s_fingerprint := SLAB_FINGERPRINT, s_pinned := False, s_last_used := 0, s_first_free := a + sizeof_Slab\<rparr>"
  define s1 where "s1 = s\<lparr>pages := p, slabs := (slabs s)(a := h)\<rparr>"
  define s2 where "s2 = init_bufs (unat (s_tot h) + 1) (word_of_nat 0) (buf_addr a ?z 0) a sz s1"
  define s3 where "s3 = on_cache (list_add_tail CacheFree (SlabHead a)) (on_cache (LIST_INIT (SlabHead a)) s2)"
  have tot: "unat (s_tot (slabs s1 a)) + 1 = nbufs ?z" using nbufs_u32[OF sz] by (simp add: s1_def h_def)
  have b0: "buf_addr a ?z 0 = a + sizeof_Slab" by (simp add: buf_addr_def)
  have "0 + (unat (s_tot h) + 1) = nbufs ?z" using tot by (simp add: s1_def)
  note B = init_bufs_spec[OF pg this tot refl, folded s2_def]
  then have v: "slabs s2 = slabs s1" "cache s2 = cache s1" "pages s2 = pages s1" "slab_lock s2 = slab_lock s1"
    by simp_all
  have s': "s' = s3\<lparr>slab_lock := LOCK_FREE\<rparr>"
  proof -
    have e: "(if no_sleep then kalloc_nosleep 0 (pages s) else kalloc_page 0 (pages s)) = Inr (a, p)"
      using k kalloc_page_free[OF lock] by simp
    have e2: "init_bufs (unat (s_tot h) + 1) 0 (a + sizeof_Slab) a sz s1 = s2"
      by (simp add: s2_def b0)
    have l2: "take_lock (slab_lock s2) = Inr LOCK_LOCKED"
      using I(2) take_lock_free by (simp add: v s1_def)
    have "createSlab sz no_sleep s = Inr (a, s3\<lparr>slab_lock := LOCK_FREE\<rparr>)"
      unfolding createSlab_def e
      using e2[unfolded s1_def h_def, simplified] l2
      by (simp add: Let_def upd_slab_def on_cache_def s3_def)
    then show ?thesis using c by simp
  qed
  let ?fr = "fr(a := map (buf_addr a ?z) [0..<nbufs ?z])"
  have other: "slab_bufs b (size_of s b) \<inter> slab_bufs a ?z = {}" if "b \<in> S" for b
    using that aS by (intro slab_bufs_disjoint[OF heap_inv_page[OF inv that] pg]) auto
  have bufs': "bufs s' y = bufs s y" if "y \<notin> slab_bufs a ?z" for y
    using B that by (simp add: s' s3_def s1_def slab_bufs_def lessThan_atLeast0)
  have n3: "3 \<le> nbufs ?z"
    using sz(2) unfolding nbufs_def by (subst less_eq_div_iff_mult_less_eq) simp_all
  have ok_new: "slab_ok s' a (?fr a)"
  proof -
    have "chain (bufs s') (if 0 < nbufs ?z then buf_addr a ?z 0 else 0) (map (buf_addr a ?z) [0..<nbufs ?z])"
      using B by (intro chain_upt) (simp add: s' s3_def)
    then have "chain (bufs s') (s_first_free (slabs s' a)) (map (buf_addr a ?z) [0..<nbufs ?z])"
      using n3 b0 by (simp add: s' s3_def v s1_def h_def)
    moreover have "distinct (map (buf_addr a ?z) [0..<nbufs ?z])"
      using buf_addr_inj[OF pg] by (auto simp: distinct_map intro: inj_onI)
    moreover have "\<forall>b\<in>slab_bufs a ?z. b_slab (bufs s' b) = a"
      using B by (auto simp: slab_bufs_def s' s3_def)
    ultimately show ?thesis
      using sz tot n3 unfolding slab_ok_def
      by (simp add: s' s3_def v s1_def h_def slab_bufs_def lessThan_atLeast0)
  qed
  have ok_old: "slab_ok s' b (?fr b)" if "b \<in> S" for b
  proof -
    have "b \<noteq> a" using that aS by blast
    moreover have "slab_ok s' b (fr b)"
      using \<open>b \<noteq> a\<close> other[OF that] bufs'
      by (intro slab_ok_frame[OF I(4)[OF that]]) (auto simp: s' s3_def v s1_def)
    ultimately show ?thesis by simp
  qed
  have cls: "cls_of s' b = (if b = a then CacheFree else cls_of s b)" for b
    by (simp add: cls_of_def s' s3_def v s1_def h_def)
  have "lists_cls (cache s') (insert a S) ((cls_of s)(a := CacheFree))"
    using lists_cls_add[OF I(5) aS, of CacheFree] by (simp add: s' s3_def v s1_def cache_heads_def)
  then have "lists_cls (cache s') (insert a S) (cls_of s')"
    by (rule lists_cls_cong) (simp add: cls)
  then have hi: "heap_inv s' (insert a S) ?fr (insert (a, 0) P) M"
    using rep I(3) ok_new ok_old by (auto simp: heap_inv_def s' s3_def v s1_def)
  have size_a: "size_of s' a = ?z" and size_b: "b \<noteq> a \<Longrightarrow> size_of s' b = size_of s b" for b
    by (simp_all add: s' s3_def v s1_def h_def)
  have "objs_of s' a (?fr a) = {}"
    unfolding objs_of_def size_a by (auto simp: slab_bufs_def)
  moreover have "objs_of s' b (?fr b) = objs_of s b (fr b)" if "b \<in> S" for b
  proof -
    have "b \<noteq> a" using that aS by blast
    then show ?thesis by (simp add: objs_of_def size_b)
  qed
  ultimately have "slab_objs s' (insert a S) ?fr = slab_objs s S fr"
    unfolding slab_objs_def by simp
  moreover have "has_room s' (insert a S) sz"
    using tot n3 unfolding has_room_def
    by (intro bexI[of _ a]) (simp_all add: s' s3_def v s1_def h_def word_less_nat_alt)
  ultimately show ?thesis using aS hi new bufs' by blast
qed

section \<open>kmalloc and kfree\<close>

text \<open>
  A pointer that \<^verbatim>\<open>kmalloc\<close> took from the page allocator is told apart from a slab object by the
  eight bytes before the page; \<open>tails_clear\<close> says that these bytes do not read as a pointer
  into the kernel. The heap never writes there.
\<close>

definition tails_clear :: "kheap \<Rightarrow> bool" where
  "tails_clear s \<longleftrightarrow> (\<forall>a. page_aligned a \<longrightarrow> \<not> is_kernel_addr (b_slab (bufs s (a - sizeof_Buf))))"

definition page_objs :: "(u32 \<times> nat) set \<Rightarrow> (u32 \<times> nat) set" where
  "page_objs P = (\<lambda>(a, order). (a, 4096 * 2 ^ order)) ` P"

definition heap_rep :: "kheap \<Rightarrow> (u32 \<times> nat) set \<Rightarrow> (u32 \<times> nat) set \<Rightarrow> bool" where
  "heap_rep s L N \<longleftrightarrow> tails_clear s \<and>
     (\<exists>S fr P M. heap_inv s S fr P M \<and>
        L = slab_objs s S fr \<union> page_objs (P - S \<times> {0}) \<and> N = page_objs M)"

definition kmalloc_size :: "u32 \<Rightarrow> nat" where
  "kmalloc_size sz = (if sz \<le> MAX_SLAB_SIZE then max 4 (unat sz)
     else 4096 * 2 ^ unat (calc_page_order sz))"

lemma obj_bytes_page: "obj_bytes (a, 4096 * 2 ^ order) = bytes_of (a, order)"
  by (simp add: obj_bytes_def bytes_of_def)

lemma page_objs_mem: "(a, 4096 * 2 ^ order) \<in> page_objs P \<longleftrightarrow> (a, order) \<in> P"
  by (auto simp: page_objs_def)

lemma page_objs_Un: "page_objs P \<union> page_objs Q = page_objs (P \<union> Q)"
  by (simp add: page_objs_def image_Un)

lemma page_objsE:
  assumes "q \<in> page_objs P"
  obtains a order where "(a, order) \<in> P" "q = (a, 4096 * 2 ^ order)"
  using assms by (auto simp: page_objs_def)

lemma slab_objE:
  assumes "heap_inv s S fr P M" "r \<in> slab_objs s S fr"
  obtains a b where "a \<in> S" "b \<in> slab_bufs a (size_of s a)" "r = (b + sizeof_Buf, size_of s a)"
    "0 < size_of s a" "obj_bytes r \<subseteq> bytes_of (a, 0)"
proof -
  from assms(2) obtain a b where a: "a \<in> S" "b \<in> slab_bufs a (size_of s a)"
    "r = (b + sizeof_Buf, size_of s a)" by (auto simp: slab_objs_def objs_of_def)
  have z: "0 < size_of s a" using heap_invD(4)[OF assms(1) a(1)] by (simp add: slab_ok_def)
  from a(2) obtain i where i: "i < nbufs (size_of s a)" "b = buf_addr a (size_of s a) i"
    by (auto simp: slab_bufs_def)
  have "obj_bytes r \<subseteq> bytes_of (a, 0)"
    using buf_obj_bytes(2)[OF heap_inv_page[OF assms(1) a(1)] i(1) z] a(3) i(2) by (simp add: bytes_of_def)
  with a z that show thesis by blast
qed

lemma heap_blocks_apart:
  assumes "heap_inv s S fr P M" "(a, m) \<in> P \<union> M" "(b, n) \<in> P \<union> M" "(a, m) \<noteq> (b, n)"
  shows "bytes_of (a, m) \<inter> bytes_of (b, n) = {}"
  using kernel_pages.rep_apart[OF heap_invD(1)[OF assms(1)]] assms(2-4) unfolding apart_def by blast

lemma slab_objs_apart:
  assumes inv: "heap_inv s S fr P M" and r: "r \<in> slab_objs s S fr" and r': "r' \<in> slab_objs s S fr"
    and ne: "r \<noteq> r'"
  shows "obj_bytes r \<inter> obj_bytes r' = {}"
proof -
  from slab_objE[OF inv r] obtain a b where a: "a \<in> S" "b \<in> slab_bufs a (size_of s a)"
    "r = (b + sizeof_Buf, size_of s a)" "0 < size_of s a" "obj_bytes r \<subseteq> bytes_of (a, 0)" .
  from slab_objE[OF inv r'] obtain a' b' where a': "a' \<in> S" "b' \<in> slab_bufs a' (size_of s a')"
    "r' = (b' + sizeof_Buf, size_of s a')" "obj_bytes r' \<subseteq> bytes_of (a', 0)" by metis
  show ?thesis
  proof (cases "a = a'")
    case True
    from a(2) a'(2) True obtain i j where i: "i < nbufs (size_of s a)" "b = buf_addr a (size_of s a) i"
      and j: "j < nbufs (size_of s a)" "b' = buf_addr a (size_of s a) j" by (auto simp: slab_bufs_def)
    have "i \<noteq> j" using ne a(3) a'(3) True i j by auto
    from buf_objs_disjoint[OF heap_inv_page[OF inv a(1)] i(1) j(1) this a(4)]
    show ?thesis using a(3) a'(3) True i j by simp
  next
    case False
    have "(a, 0) \<in> P" "(a', 0) \<in> P" using heap_invD(3)[OF inv] a(1) a'(1) by blast+
    with heap_blocks_apart[OF inv, of a 0 a' 0] False have "bytes_of (a, 0) \<inter> bytes_of (a', 0) = {}"
      by simp
    with a(5) a'(4) show ?thesis by blast
  qed
qed

lemma slab_page_objs_apart:
  assumes inv: "heap_inv s S fr P M" and r: "r \<in> slab_objs s S fr"
    and q: "q \<in> page_objs (P - S \<times> {0}) \<union> page_objs M"
  shows "obj_bytes r \<inter> obj_bytes q = {}" "r \<noteq> q"
proof -
  from slab_objE[OF inv r] obtain a b where a: "a \<in> S" "0 < size_of s a" "obj_bytes r \<subseteq> bytes_of (a, 0)"
    "r = (b + sizeof_Buf, size_of s a)" by metis
  from q obtain c n where c: "(c, n) \<in> (P - S \<times> {0}) \<union> M" "q = (c, 4096 * 2 ^ n)"
    unfolding page_objs_Un by (rule page_objsE)
  have aP: "(a, 0) \<in> P" by (rule heap_invD(3)[OF inv a(1)])
  have "(a, 0) \<noteq> (c, n) \<or> (c, n) \<in> M" using c(1) a(1) by auto
  moreover have "(a, 0) \<notin> M"
  proof
    assume "(a, 0) \<in> M"
    with heap_invD(1)[OF inv] aP obtain K F where inv': "kmem_inv (pages s) K F"
      "(a, 0) \<in> live (kernel_buddy_new (pages s)) K" "(a, 0) \<in> live (fast_buddy_new (pages s)) F"
      unfolding kernel_rep_def by blast
    from regions_disjoint[OF this] show False by (simp add: bytes_of_def)
  qed
  ultimately have "(a, 0) \<noteq> (c, n)" by metis
  with heap_blocks_apart[OF inv, of a 0 c n] aP c(1) have "bytes_of (a, 0) \<inter> bytes_of (c, n) = {}" by blast
  then show dj: "obj_bytes r \<inter> obj_bytes q = {}" using a(3) by (auto simp: c(2) obj_bytes_page)
  have "obj_bytes r \<noteq> {}" using a(2,4) by (simp add: obj_bytes_def)
  with dj show "r \<noteq> q" by auto
qed

lemma heap_apart:
  assumes "heap_rep s L N"
  shows "apart obj_bytes (L \<union> N)"
proof -
  from assms obtain S fr P M where inv: "heap_inv s S fr P M"
    and L: "L = slab_objs s S fr \<union> page_objs (P - S \<times> {0})" and N: "N = page_objs M"
    unfolding heap_rep_def by blast
  have pp: "obj_bytes q \<inter> obj_bytes q' = {}"
    if q: "q \<in> page_objs (P - S \<times> {0}) \<union> page_objs M" "q' \<in> page_objs (P - S \<times> {0}) \<union> page_objs M"
      "q \<noteq> q'" for q q'
  proof -
    from q(1) obtain a m where "(a, m) \<in> P \<union> M" "q = (a, 4096 * 2 ^ m)"
      unfolding page_objs_Un by (rule page_objsE) blast
    moreover from q(2) obtain b n where "(b, n) \<in> P \<union> M" "q' = (b, 4096 * 2 ^ n)"
      unfolding page_objs_Un by (rule page_objsE) blast
    ultimately show ?thesis using heap_blocks_apart[OF inv, of a m b n] q(3) by (auto simp: obj_bytes_page)
  qed
  show ?thesis unfolding apart_def
  proof (intro ballI impI)
    fix r r' assume "r \<in> L \<union> N" "r' \<in> L \<union> N" "r \<noteq> r'"
    then consider "r \<in> slab_objs s S fr" "r' \<in> slab_objs s S fr"
      | "r \<in> slab_objs s S fr" "r' \<in> page_objs (P - S \<times> {0}) \<union> page_objs M"
      | "r' \<in> slab_objs s S fr" "r \<in> page_objs (P - S \<times> {0}) \<union> page_objs M"
      | "r \<in> page_objs (P - S \<times> {0}) \<union> page_objs M" "r' \<in> page_objs (P - S \<times> {0}) \<union> page_objs M"
      unfolding L N by blast
    then show "obj_bytes r \<inter> obj_bytes r' = {}"
    proof cases
      case 1 then show ?thesis using slab_objs_apart[OF inv] \<open>r \<noteq> r'\<close> by blast
    next
      case 2 then show ?thesis by (rule slab_page_objs_apart(1)[OF inv])
    next
      case 3 then show ?thesis using slab_page_objs_apart(1)[OF inv 3] by (simp add: Int_commute)
    next
      case 4 then show ?thesis using pp \<open>r \<noteq> r'\<close> by blast
    qed
  qed
qed

lemma tails_clear_keep:
  assumes "tails_clear s" "\<And>y. b_slab (bufs s' y) = b_slab (bufs s y)"
  shows "tails_clear s'"
  using assms by (simp add: tails_clear_def)

lemma tails_clear_new:
  assumes "tails_clear s" "slab_page a" "0 < z" "\<And>y. y \<notin> slab_bufs a z \<Longrightarrow> bufs s' y = bufs s y"
  shows "tails_clear s'"
  unfolding tails_clear_def
proof (intro allI impI)
  fix b assume b: "page_aligned b"
  have "b - sizeof_Buf \<notin> slab_bufs a z"
  proof
    assume "b - sizeof_Buf \<in> slab_bufs a z"
    then obtain i where i: "i < nbufs z" "b - sizeof_Buf = buf_addr a z i" by (auto simp: slab_bufs_def)
    note u = unat_buf_addr[OF assms(2) i(1)] and f = buf_fits[OF i(1)] and p = slab_pageD[OF assms(2)]
    have "b = buf_addr a z i + sizeof_Buf" using i(2) by (simp add: diff_eq_eq)
    then have "unat b = unat a + (44 + i * (z + 8))"
      using u f p(3) assms(3) by (simp add: sizeof_Buf_def unat_word_ariths)
    moreover have "44 + i * (z + 8) < 4096" using f assms(3) by simp
    moreover obtain c where "unat a = 4096 * c" using p(1) by (auto simp: mod_eq_0_iff_dvd)
    ultimately have "unat b mod 4096 = 44 + i * (z + 8)" by simp
    then show False using b by (simp add: page_aligned_def)
  qed
  then show "\<not> is_kernel_addr (b_slab (bufs s' (b - sizeof_Buf)))"
    using assms(1,4) b by (simp add: tails_clear_def)
qed

text \<open>What \<^verbatim>\<open>kmalloc\<close> and \<^verbatim>\<open>kfree\<close> do to the live objects.\<close>

lemma small_size:
  assumes "sz \<le> MAX_SLAB_SIZE"
  defines "z \<equiv> (if sz < 4 then 4 else sz)"
  shows "unat z = max 4 (unat sz)" "0 < unat z" "3 * (unat z + 8) \<le> 4060"
  using assms(1) by (auto simp: z_def MAX_SLAB_SIZE_def word_le_nat_alt word_less_nat_alt)

lemma kmalloc_small:
  assumes inv: "heap_inv s S fr P M" and tc: "tails_clear s" and sz: "sz \<le> MAX_SLAB_SIZE"
    and k: "kmalloc sz s = Inr (p, s')"
  shows "\<exists>S' fr' P'. heap_inv s' S' fr' P' M \<and> tails_clear s' \<and> p \<noteq> 0 \<and>
     (p, kmalloc_size sz) \<notin> slab_objs s S fr \<and>
     slab_objs s' S' fr' = insert (p, kmalloc_size sz) (slab_objs s S fr) \<and>
     P' - S' \<times> {0} = P - S \<times> {0}"
proof -
  define z where "z = (if sz < 4 then 4 else sz)"
  note Z = small_size[OF sz, folded z_def]
  have kz: "kmalloc_size sz = unat z" using sz Z(1) by (simp add: kmalloc_size_def)
  have run: "kmalloc sz s = res_bind (salloc z s) (\<lambda>(out, s).
      if out \<noteq> 0 then Inr (out, s) else res_bind (createSlab z False s) (\<lambda>(_, s). salloc z s))"
    using sz unfolding kmalloc_def z_def Let_def by (simp only: if_True)
  show ?thesis
  proof (cases "has_room s S z")
    case True
    from salloc_room[OF inv this] obtain q s1 fr' where
      a: "salloc z s = Inr (q, s1)" "q \<noteq> 0" "heap_inv s1 S fr' P M" "(q, unat z) \<notin> slab_objs s S fr"
        "slab_objs s1 S fr' = insert (q, unat z) (slab_objs s S fr)"
        "\<forall>y. b_slab (bufs s1 y) = b_slab (bufs s y)" .
    then have "p = q" "s' = s1" using k run by auto
    with a tails_clear_keep[OF tc, of s1] show ?thesis unfolding kz by blast
  next
    case False
    with salloc_spec[OF inv, of z] have "salloc z s = Inr (0, s)" by simp
    with k run obtain a s1 where c: "createSlab z False s = Inr (a, s1)" "salloc z s1 = Inr (p, s')"
      by (auto simp: res_bind_Inr_iff)
    from createSlab_spec[OF inv Z(2,3) c(1)] obtain fr1 where
      s1: "a \<notin> S" "heap_inv s1 (insert a S) fr1 (insert (a, 0) P) M" "(a, 0) \<notin> P"
        "slab_objs s1 (insert a S) fr1 = slab_objs s S fr" "has_room s1 (insert a S) z"
        "\<forall>y. y \<notin> slab_bufs a (unat z) \<longrightarrow> bufs s1 y = bufs s y" by blast
    from salloc_room[OF s1(2) s1(5)] obtain q t fr' where
      t: "salloc z s1 = Inr (q, t)" "q \<noteq> 0" "heap_inv t (insert a S) fr' (insert (a, 0) P) M"
        "(q, unat z) \<notin> slab_objs s1 (insert a S) fr1"
        "slab_objs t (insert a S) fr' = insert (q, unat z) (slab_objs s1 (insert a S) fr1)"
        "\<forall>y. b_slab (bufs t y) = b_slab (bufs s1 y)" .
    have "q = p" "t = s'" using t(1) c(2) by simp_all
    note s2 = t(2-6)[unfolded this s1(4)]
    have "slab_page a" by (rule heap_inv_page[OF s1(2)]) simp
    from tails_clear_new[OF tc this Z(2)] s1(6) have "tails_clear s1" by blast
    from tails_clear_keep[OF this] s2(5) have "tails_clear s'" by blast
    moreover have "insert (a, 0) P - insert a S \<times> {0} = P - S \<times> {0}" using s1(3) by auto
    ultimately show ?thesis using s2 unfolding kz by blast
  qed
qed

lemma kmalloc_step:
  assumes "heap_rep s L N" "kmalloc sz s = Inr (p, s')"
  shows "(p, kmalloc_size sz) \<notin> L \<and> heap_rep s' (insert (p, kmalloc_size sz) L) N"
proof -
  from assms(1) obtain S fr P M where inv: "heap_inv s S fr P M" and tc: "tails_clear s"
    and L: "L = slab_objs s S fr \<union> page_objs (P - S \<times> {0})" and N: "N = page_objs M"
    unfolding heap_rep_def by blast
  show ?thesis
  proof (cases "sz \<le> MAX_SLAB_SIZE")
    case True
    from kmalloc_small[OF inv tc True assms(2)] obtain S' fr' P' where
      s': "heap_inv s' S' fr' P' M" "tails_clear s'" "(p, kmalloc_size sz) \<notin> slab_objs s S fr"
        "slab_objs s' S' fr' = insert (p, kmalloc_size sz) (slab_objs s S fr)"
        "P' - S' \<times> {0} = P - S \<times> {0}" by blast
    have "(p, kmalloc_size sz) \<notin> page_objs (P - S \<times> {0})"
      using slab_page_objs_apart(2)[OF s'(1), of "(p, kmalloc_size sz)"] s'(4,5) by auto
    with s'(3) have "(p, kmalloc_size sz) \<notin> L" by (simp add: L)
    moreover have "heap_rep s' (insert (p, kmalloc_size sz) L) N"
      unfolding heap_rep_def L N using s' by (intro conjI exI[of _ S'] exI[of _ fr'] exI[of _ P'] exI[of _ M]) auto
    ultimately show ?thesis by blast
  next
    case False
    let ?o = "unat (calc_page_order sz)"
    from False assms(2) obtain q where q: "kalloc_page ?o (pages s) = Inr (p, q)" "s' = s\<lparr>pages := q\<rparr>"
      by (auto simp: kmalloc_def res_bind_Inr_iff)
    from kernel_pages.alloc_step[OF heap_invD(1)[OF inv] q(1)] have
      n: "(p, ?o) \<notin> P" "kernel_rep q (insert (p, ?o) P) M" by auto
    have "slab_ok s' a (fr a)" if "a \<in> S" for a
      using slab_ok_frame[OF heap_invD(4)[OF inv that], of s'] q(2) by simp
    moreover have "cls_of s' = cls_of s" by (intro ext) (simp add: q(2) cls_of_def)
    ultimately have inv': "heap_inv s' S fr (insert (p, ?o) P) M"
      using n(2) heap_invD[OF inv] unfolding heap_inv_def q(2) by auto
    have objs: "slab_objs s' S fr = slab_objs s S fr" by (simp add: slab_objs_def objs_of_def q(2))
    have tc': "tails_clear s'" using tc by (simp add: tails_clear_def q(2))
    have pS: "(p, ?o) \<notin> S \<times> {0}" using n(1) heap_invD(3)[OF inv, of p] by (metis mem_Sigma_iff singletonD)
    have kz: "kmalloc_size sz = 4096 * 2 ^ ?o" using False by (simp add: kmalloc_size_def)
    have "page_objs (insert (p, ?o) P - S \<times> {0}) = insert (p, kmalloc_size sz) (page_objs (P - S \<times> {0}))"
      using pS unfolding kz by (auto simp: page_objs_def insert_Diff_if)
    then have "heap_rep s' (insert (p, kmalloc_size sz) L) N"
      unfolding heap_rep_def L N using inv' objs tc'
      by (intro conjI exI[of _ S] exI[of _ fr] exI[of _ "insert (p, ?o) P"] exI[of _ M]) auto
    moreover have "(p, kmalloc_size sz) \<notin> slab_objs s S fr"
      using slab_page_objs_apart(2)[OF inv', of "(p, kmalloc_size sz)" "(p, kmalloc_size sz)"] pS
      unfolding objs kz page_objs_Un page_objs_mem by auto
    then have "(p, kmalloc_size sz) \<notin> L"
      using n(1) unfolding L kz by (auto simp: page_objs_mem)
    ultimately show ?thesis by blast
  qed
qed

lemma kfree_step:
  assumes "heap_rep s L N" "(p, z) \<in> L"
  shows "\<exists>s'. kfree p s = Inr s' \<and> heap_rep s' (L - {(p, z)}) N"
proof -
  from assms(1) obtain S fr P M where inv: "heap_inv s S fr P M" and tc: "tails_clear s"
    and L: "L = slab_objs s S fr \<union> page_objs (P - S \<times> {0})" and N: "N = page_objs M"
    unfolding heap_rep_def by blast
  from assms(2) consider "(p, z) \<in> slab_objs s S fr" | "(p, z) \<in> page_objs (P - S \<times> {0})"
    by (auto simp: L)
  then show ?thesis
  proof cases
    case 1
    from sfree_spec[OF inv 1] obtain s' fr' where s': "sfree p s = Inr (True, s')"
      "heap_inv s' S fr' P M" "slab_objs s' S fr' = slab_objs s S fr - {(p, z)}"
      "\<forall>y. b_slab (bufs s' y) = b_slab (bufs s y)" by blast
    have "(p, z) \<notin> page_objs (P - S \<times> {0})" using slab_page_objs_apart(2)[OF inv 1] by blast
    then have "L - {(p, z)} = slab_objs s' S fr' \<union> page_objs (P - S \<times> {0})"
      unfolding L s'(3) by blast
    then have "heap_rep s' (L - {(p, z)}) N"
      unfolding heap_rep_def N using s' tails_clear_keep[OF tc, of s'] by blast
    with s'(1) show ?thesis by (simp add: kfree_def)
  next
    case 2
    then obtain order where o': "(p, order) \<in> P" "(p, order) \<notin> S \<times> {0}" and z: "z = 4096 * 2 ^ order"
      by (elim page_objsE) auto
    note I = heap_invD[OF inv]
    have "page_aligned p" using kernel_pages.rep_addr[OF I(1) o'(1)] by blast
    then have sf: "sfree p s = Inr (False, s)"
      using tc I(2) slab_lock_idem[of s]
      by (simp add: sfree_def take_lock_free Let_def tails_clear_def)
    from kernel_pages.free_step[OF I(1) o'(1)] obtain q where
      q: "kfree_page p (pages s) = Inr q" "kernel_rep q (P - {(p, order)}) M" by blast
    let ?s = "s\<lparr>pages := q\<rparr>"
    have "slab_ok ?s a (fr a)" if "a \<in> S" for a
      using slab_ok_frame[OF I(4)[OF that], of ?s] by simp
    moreover have "cls_of ?s = cls_of s" by (intro ext) (simp add: cls_of_def)
    ultimately have "heap_inv ?s S fr (P - {(p, order)}) M"
      using q(2) I o'(2) unfolding heap_inv_def by auto
    moreover have "slab_objs ?s S fr = slab_objs s S fr" by (simp add: slab_objs_def objs_of_def)
    moreover have "tails_clear ?s" using tc by (simp add: tails_clear_def)
    moreover have "L - {(p, z)} = slab_objs s S fr \<union> page_objs (P - {(p, order)} - S \<times> {0})"
    proof -
      have "(p, z) \<notin> slab_objs s S fr" using slab_page_objs_apart(2)[OF inv, of "(p, z)" "(p, z)"] 2 by blast
      moreover have "page_objs (P - {(p, order)} - S \<times> {0}) = page_objs (P - S \<times> {0}) - {(p, z)}"
        unfolding z page_objs_def by auto
      ultimately show ?thesis unfolding L by blast
    qed
    ultimately have "heap_rep ?s (L - {(p, z)}) N" unfolding heap_rep_def N by blast
    with sf q(1) show ?thesis by (simp add: kfree_def)
  qed
qed

interpretation kheap: allocator kmalloc kfree kmalloc_size heap_rep obj_bytes
  by unfold_locales (use kmalloc_step in blast, use kfree_step in blast, rule heap_apart)

end
