(* ===== verification/Slab_Props.thy ===== *)
theory Slab_Props
  imports Slab_Inv
begin

text \<open>
  The properties of \<^verbatim>\<open>kmalloc\<close> and \<^verbatim>\<open>kfree\<close>: what their clients can rely on, when a call
  returns, and the one misuse that the checks of \<^verbatim>\<open>sfree\<close> let through.
\<close>

section \<open>When kmalloc returns\<close>

lemma createSlab_returns:
  assumes inv: "heap_inv s S fr P M" and sz: "0 < unat sz" "3 * (unat sz + 8) \<le> 4060"
    and k: "kalloc_page 0 (pages s) = Inr (a, p)"
  shows "\<exists>s'. createSlab sz False s = Inr (a, s')"
proof -
  note I = heap_invD[OF inv]
  have rep: "kernel_rep p (insert (a, 0) P) M" using kernel_pages.alloc_step[OF I(1) k] by simp
  have pg: "slab_page a" using kernel_rep_page[OF rep] by blast
  define t where "t = (PAGE_SIZE - sizeof_Slab) div (sz + sizeof_Buf) - 1"
  define s1 where "s1 = s\<lparr>pages := p, slabs := (slabs s)(a := (slabs s a)\<lparr>s_size := sz, s_alloc := 0,
     s_tot := t, s_fingerprint := SLAB_FINGERPRINT, s_pinned := False, s_last_used := 0,
     s_first_free := a + sizeof_Slab\<rparr>)\<rparr>"
  have tot: "unat (s_tot (slabs s1 a)) + 1 = nbufs (unat sz)"
    using nbufs_u32[OF sz] by (simp add: s1_def t_def)
  have b0: "buf_addr a (unat sz) 0 = a + sizeof_Slab" by (simp add: buf_addr_def)
  have "0 + (unat t + 1) = nbufs (unat sz)" using tot by (simp add: s1_def)
  from init_bufs_spec[OF pg this tot refl]
  have "slab_lock (init_bufs (unat t + 1) 0 (a + sizeof_Slab) a sz s1) = LOCK_FREE"
    using I(2) by (simp add: b0 s1_def)
  then show ?thesis
    using k take_lock_free unfolding createSlab_def s1_def t_def
    by (simp add: Let_def upd_slab_def on_cache_def)
qed

lemma kmalloc_small_returns:
  assumes inv: "heap_inv s S fr P M" and sz: "sz \<le> MAX_SLAB_SIZE"
    and k: "\<exists>a p. kalloc_page 0 (pages s) = Inr (a, p)"
  shows "\<exists>p s'. kmalloc sz s = Inr (p, s')"
proof -
  define z where "z = (if sz < 4 then 4 else sz)"
  note Z = small_size[OF sz, folded z_def]
  have run: "kmalloc sz s = res_bind (salloc z s) (\<lambda>(out, s).
      if out \<noteq> 0 then Inr (out, s) else res_bind (createSlab z False s) (\<lambda>(_, s). salloc z s))"
    using sz unfolding kmalloc_def z_def Let_def by (simp only: if_True)
  show ?thesis
  proof (cases "has_room s S z")
    case True
    from salloc_room[OF inv this] obtain q t where "salloc z s = Inr (q, t)" "q \<noteq> 0" .
    then show ?thesis unfolding run by simp
  next
    case False
    with salloc_spec[OF inv, of z] have a: "salloc z s = Inr (0, s)" by simp
    from k obtain a p where "kalloc_page 0 (pages s) = Inr (a, p)" by blast
    from createSlab_returns[OF inv Z(2,3) this] obtain s1 where c: "createSlab z False s = Inr (a, s1)"
      by blast
    from createSlab_spec[OF inv Z(2,3) c] obtain fr1 where
      "heap_inv s1 (insert a S) fr1 (insert (a, 0) P) M" "has_room s1 (insert a S) z" by blast
    from salloc_room[OF this] obtain q t where "salloc z s1 = Inr (q, t)" .
    with a c show ?thesis unfolding run by simp
  qed
qed

text \<open>An empty heap over one block of pages, for the witnesses.\<close>

definition empty_heap :: kheap where
  "empty_heap = kheap.make one_block_kmem
     (LIST_INIT CacheEmpty (LIST_INIT CacheUsed (LIST_INIT CacheFree \<lparr>nxt = \<lambda>n. n, prv = \<lambda>n. n\<rparr>)))
     (\<lambda>_. slab.make 0 False 0 0 0 0 0) (\<lambda>_. buf.make 0 0) LOCK_FREE 0"

lemma empty_heap_inv: "heap_inv empty_heap {} (\<lambda>_. []) {} {}" "tails_clear empty_heap"
proof -
  let ?h = "\<lparr>nxt = \<lambda>n. n, prv = \<lambda>n. n\<rparr> :: snode list_heap"
  have 1: "rings (LIST_INIT CacheFree ?h) {CacheFree} (\<lambda>_. [])"
    using lists.rep_init[OF rings_empty, of CacheFree "\<lambda>_. []" ?h] by (simp add: linked_def fun_upd_idem)
  have 2: "rings (LIST_INIT CacheUsed (LIST_INIT CacheFree ?h)) {CacheUsed, CacheFree} (\<lambda>_. [])"
    using lists.rep_init[OF 1, of CacheUsed] by (simp add: linked_def fun_upd_idem)
  have "rings (cache empty_heap) {CacheEmpty, CacheUsed, CacheFree} (\<lambda>_. [])"
    using lists.rep_init[OF 2, of CacheEmpty]
    by (simp add: linked_def fun_upd_idem empty_heap_def kheap.make_def)
  then have "lists_cls (cache empty_heap) {} cls" for cls
    unfolding lists_cls_def cache_heads_def
    by (intro exI[of _ "\<lambda>_. []"]) (simp add: insert_commute)
  moreover have "pages empty_heap = one_block_kmem" "slab_lock empty_heap = LOCK_FREE"
    by (simp_all add: empty_heap_def kheap.make_def)
  ultimately show "heap_inv empty_heap {} (\<lambda>_. []) {} {}"
    using one_block_kmem_rep(1) by (simp add: heap_inv_def)
  show "tails_clear empty_heap"
    by (simp add: tails_clear_def empty_heap_def kheap.make_def buf.make_def is_kernel_addr_def
        KERNEL_VIRTUAL_ADDRESS_BASE_def)
qed

lemma empty_heap_rep: "heap_rep empty_heap {} {}"
  unfolding heap_rep_def using empty_heap_inv
  by (auto simp: slab_objs_def page_objs_def intro!: exI[of _ "{} :: u32 set"] exI[of _ "{}"])

lemma one_block_kmem_page: "\<exists>a p. kalloc_page 0 one_block_kmem = Inr (a, p)"
proof -
  have "kalloc_page 0 one_block_kmem = kalloc_nosleep 0 one_block_kmem"
    by (rule kalloc_page_free) (simp add: one_block_kmem_def kmem.make_def)
  moreover obtain p d where "get_buddy_new 0 (kernel_buddy_new one_block_kmem) = Inr (p, d)"
    using get_buddy_new_spec[OF one_block_desc_inv(1), of 0] one_block_desc_inv
    by (auto simp: MAX_ORDER_def one_block_kmem_def kmem.make_def split: sum.splits)
  ultimately show ?thesis using kalloc_nosleep_ok[OF one_block_kmem_inv] by fastforce
qed


section \<open>Properties\<close>

lemma kmalloc_nonnull:
  assumes "heap_rep s L N" "kmalloc sz s = Inr (p, s')"
  shows "p \<noteq> 0 \<and> unat sz \<le> kmalloc_size sz"
proof -
  from assms(1) obtain S fr P M where inv: "heap_inv s S fr P M" and tc: "tails_clear s"
    unfolding heap_rep_def by blast
  show ?thesis
  proof (cases "sz \<le> MAX_SLAB_SIZE")
    case True
    with kmalloc_small[OF inv tc True assms(2)] show ?thesis by (auto simp: kmalloc_size_def)
  next
    case False
    let ?o = "unat (calc_page_order sz)"
    from False assms(2) obtain q where q: "kalloc_page ?o (pages s) = Inr (p, q)"
      by (auto simp: kmalloc_def res_bind_Inr_iff)
    note I = heap_invD[OF inv]
    have "is_kernel_addr p"
      using kernel_pages.alloc_step[OF I(1) q] kernel_pages.rep_addr[of q "insert (p, ?o) P" M p ?o] by simp
    moreover have "unat sz \<le> 4096 * 1024"
    proof (rule ccontr)
      assume "\<not> ?thesis"
      then have "get_buddy_new ?o (kernel_buddy_new (pages s)) = Inl (Panic ''Invalid order to alloc'')"
        using page_order_fits[of sz "kernel_buddy_new (pages s)"] by (metis (no_types, lifting))
      with q show False
        by (simp add: kalloc_page_free[OF kernel_rep_counters(1)[OF I(1)]] kalloc_nosleep_def)
    qed
    ultimately show ?thesis
      using page_order_fits[of sz] False
      by (auto simp: is_kernel_addr_def KERNEL_VIRTUAL_ADDRESS_BASE_def kmalloc_size_def)
  qed
qed





text \<open>
  C22: with a page to be had, \<^verbatim>\<open>kmalloc\<close> of at most 512 bytes always returns an object; in
  particular the branch of \<^verbatim>\<open>salloc\<close> that leaves with the lock kept is never taken.
\<close>

theorem kmalloc_small_succeeds:
  assumes "heap_rep s L N" "sz \<le> MAX_SLAB_SIZE" "kalloc_page 0 (pages s) = Inr (a, q)"
  shows "\<exists>p s'. kmalloc sz s = Inr (p, s') \<and> p \<noteq> 0 \<and> slab_lock s' = LOCK_FREE \<and>
     heap_rep s' (insert (p, max 4 (unat sz)) L) N"
proof -
  from assms(1) obtain S fr P M where "heap_inv s S fr P M" unfolding heap_rep_def by blast
  from kmalloc_small_returns[OF this assms(2)] assms(3) obtain p s' where k: "kmalloc sz s = Inr (p, s')"
    by blast
  from kheap.alloc_step[OF assms(1) k] have r: "heap_rep s' (insert (p, kmalloc_size sz) L) N" by blast
  moreover from r obtain S fr P M where "heap_inv s' S fr P M" unfolding heap_rep_def by blast
  ultimately show ?thesis
    using k kmalloc_nonnull[OF assms(1) k] assms(2) by (auto simp: kmalloc_size_def dest: heap_invD(2))
qed

theorem kmalloc_small_succeeds_witness:
  "\<exists>p s'. kmalloc 24 empty_heap = Inr (p, s') \<and> p \<noteq> 0 \<and> heap_rep s' {(p, 24)} {}"
proof -
  obtain a q where "kalloc_page 0 (pages empty_heap) = Inr (a, q)"
    using one_block_kmem_page by (auto simp: empty_heap_def kheap.make_def)
  from kmalloc_small_succeeds[OF empty_heap_rep _ this, of 24] show ?thesis
    by (auto simp: MAX_SLAB_SIZE_def)
qed

section \<open>Double frees\<close>

text \<open>The slab at the head of the used list is the one a search for its size finds.\<close>

lemma search_first:
  assumes "nxt (cache s) CacheUsed = SlabHead a" "s_size (slabs s a) = sz"
  shows "search_list CacheUsed sz s = Inr (Some a)"
  using assms
  by (simp add: search_list_def list_for_each_def for_each_from.simps[of _ _ _ "SlabHead a"]
      search_body_def)

lemma lock_last:
  "slab_lock s = LOCK_FREE \<Longrightarrow> s\<lparr>slabs := f, bufs := b, slab_lock := LOCK_FREE\<rparr> = s\<lparr>slabs := f, bufs := b\<rparr>"
  "slab_lock s = LOCK_FREE \<Longrightarrow> s\<lparr>slabs := f, bufs := b, cache := c, slab_lock := LOCK_FREE\<rparr> =
     s\<lparr>slabs := f, bufs := b, cache := c\<rparr>"
  by (cases s, simp)+

lemma salloc_first:
  assumes "slab_lock s = LOCK_FREE" "nxt (cache s) CacheUsed = SlabHead a"
    "s_first_free (slabs s a) = x" "x \<noteq> 0" "s_alloc (slabs s a) + 1 < s_tot (slabs s a)"
  shows "salloc (s_size (slabs s a)) s = Inr (x + sizeof_Buf,
     s\<lparr>slabs := (slabs s)(a := (slabs s a)\<lparr>s_alloc := s_alloc (slabs s a) + 1,
          s_first_free := b_next_free (bufs s x)\<rparr>),
       bufs := (bufs s)(x := (bufs s x)\<lparr>b_next_free := 0\<rparr>)\<rparr>)"
proof -
  have "\<not> s_tot (slabs s a) \<le> s_alloc (slabs s a) + 1" using assms(5) by simp
  moreover note search_first[OF assms(2) refl]
  ultimately show ?thesis using assms(1,3,4)
    by (simp add: salloc_def take_lock_free Let_def upd_slab_def upd_buf_def lock_last)
qed

lemma sfree_again:
  assumes "slab_lock s = LOCK_FREE" "is_kernel_addr x" "x = p - sizeof_Buf" "b_slab (bufs s x) = a"
    "is_kernel_addr a" "s_fingerprint (slabs s a) = SLAB_FINGERPRINT" "1 < s_alloc (slabs s a)"
  shows "sfree p s = Inr (True,
     s\<lparr>slabs := (slabs s)(a := (slabs s a)\<lparr>s_alloc := s_alloc (slabs s a) - 1, s_first_free := x,
          s_last_used := ucast (tick_count s)\<rparr>),
       bufs := (bufs s)(x := (bufs s x)\<lparr>b_next_free := s_first_free (slabs s a)\<rparr>),
       cache := list_add_head CacheUsed (SlabHead a) (list_remove (SlabHead a) (cache s))\<rparr>)"
proof -
  have "s_alloc (slabs s a) - 1 \<noteq> 0" "\<not> s_alloc (slabs s a) \<le> 0" using assms(7) by auto
  with assms(1-6) show ?thesis
    by (simp add: sfree_def take_lock_free Let_def upd_slab_def upd_buf_def on_cache_def upd_comm lock_last)
qed

text \<open>
  C25: the check of \<^verbatim>\<open>sfree\<close> against a double free looks only at the number of objects in use.
  With at least three objects of a slab in use and a free one left, freeing one of them twice is accepted twice, and
  then two allocations of its size both return the very same object.
\<close>

theorem sfree_double_free_aliases:
  assumes "slab_lock s = LOCK_FREE" "is_kernel_addr (p - sizeof_Buf)" "b_slab (bufs s (p - sizeof_Buf)) = a"
    and "is_kernel_addr a" "s_fingerprint (slabs s a) = SLAB_FINGERPRINT"
    and "2 < s_alloc (slabs s a)" "s_alloc (slabs s a) < s_tot (slabs s a)"
  shows "\<exists>s1 s2 s3 s4. sfree p s = Inr (True, s1) \<and> sfree p s1 = Inr (True, s2) \<and>
     salloc (s_size (slabs s a)) s2 = Inr (p, s3) \<and> salloc (s_size (slabs s a)) s3 = Inr (p, s4)"
proof -
  define x where "x = p - sizeof_Buf"
  have p: "x + sizeof_Buf = p" by (simp add: x_def)
  have x0: "x \<noteq> 0" using assms(2) by (auto simp: x_def is_kernel_addr_def KERNEL_VIRTUAL_ADDRESS_BASE_def)
  define n where "n = s_alloc (slabs s a)"
  have n: "1 < n" "1 < n - 1" "n - 2 + 1 < s_tot (slabs s a)" "n < s_tot (slabs s a)"
    "n - 1 - 1 = n - 2" "n - 2 + 1 = n - 1"
    using assms(6,7) unfolding n_def[symmetric]
    by (simp_all add: word_less_nat_alt word_le_nat_alt unat_sub_if' unat_word_ariths)
  note G = assms(1) assms(2)[folded x_def] x_def assms(3)[folded x_def] assms(4,5)
  define s1 where "s1 = s\<lparr>slabs := (slabs s)(a := (slabs s a)\<lparr>s_alloc := n - 1, s_first_free := x,
          s_last_used := ucast (tick_count s)\<rparr>),
       bufs := (bufs s)(x := (bufs s x)\<lparr>b_next_free := s_first_free (slabs s a)\<rparr>),
       cache := list_add_head CacheUsed (SlabHead a) (list_remove (SlabHead a) (cache s))\<rparr>"
  have 1: "sfree p s = Inr (True, s1)"
    using sfree_again[OF G] n(1) by (simp add: s1_def n_def)
  have G1: "slab_lock s1 = LOCK_FREE" "b_slab (bufs s1 x) = a"
    "s_fingerprint (slabs s1 a) = SLAB_FINGERPRINT" "s_alloc (slabs s1 a) = n - 1"
    "s_first_free (slabs s1 a) = x" "s_size (slabs s1 a) = s_size (slabs s a)"
    "s_tot (slabs s1 a) = s_tot (slabs s a)"
    using G by (simp_all add: s1_def)
  define s2 where "s2 = s1\<lparr>slabs := (slabs s1)(a := (slabs s1 a)\<lparr>s_alloc := n - 2, s_first_free := x,
          s_last_used := ucast (tick_count s1)\<rparr>),
       bufs := (bufs s1)(x := (bufs s1 x)\<lparr>b_next_free := x\<rparr>),
       cache := list_add_head CacheUsed (SlabHead a) (list_remove (SlabHead a) (cache s1))\<rparr>"
  have 2: "sfree p s1 = Inr (True, s2)"
    using sfree_again[OF G1(1) G(2,3) G1(2) G(5) G1(3)] n G1 by (simp add: s2_def)
  have G2: "slab_lock s2 = LOCK_FREE" "nxt (cache s2) CacheUsed = SlabHead a"
    "s_first_free (slabs s2 a) = x" "s_alloc (slabs s2 a) = n - 2" "s_tot (slabs s2 a) = s_tot (slabs s a)"
    "s_size (slabs s2 a) = s_size (slabs s a)" "b_next_free (bufs s2 x) = x"
    using G1 by (simp_all add: s2_def list_add_head_def Let_def)
  define s3 where "s3 = s2\<lparr>slabs := (slabs s2)(a := (slabs s2 a)\<lparr>s_alloc := n - 1, s_first_free := x\<rparr>),
       bufs := (bufs s2)(x := (bufs s2 x)\<lparr>b_next_free := 0\<rparr>)\<rparr>"
  have 3: "salloc (s_size (slabs s a)) s2 = Inr (p, s3)"
    using salloc_first[OF G2(1-3) x0] n G2 p by (simp add: s3_def)
  have G3: "slab_lock s3 = LOCK_FREE" "nxt (cache s3) CacheUsed = SlabHead a"
    "s_first_free (slabs s3 a) = x" "s_alloc (slabs s3 a) + 1 < s_tot (slabs s3 a)"
    "s_size (slabs s3 a) = s_size (slabs s a)"
    using G2 n(4) by (simp_all add: s3_def)
  note salloc_first[OF G3(1-3) x0 G3(4)]
  with 1 2 3 G3(5) p show ?thesis by auto
qed

text \<open>A slab with three objects of 24 bytes in use.\<close>

definition busy_heap :: kheap where
  "busy_heap = kheap.make one_block_kmem \<lparr>nxt = \<lambda>n. n, prv = \<lambda>n. n\<rparr>
     (\<lambda>_. slab.make 24 False 0 SLAB_FINGERPRINT 125 3 0) (\<lambda>_. buf.make 0xC0800000 0) LOCK_FREE 0"

theorem sfree_double_free_aliases_witness:
  "\<exists>s1 s2 s3 s4. sfree 0xC080002C busy_heap = Inr (True, s1) \<and> sfree 0xC080002C s1 = Inr (True, s2) \<and>
     salloc 24 s2 = Inr (0xC080002C, s3) \<and> salloc 24 s3 = Inr (0xC080002C, s4)"
  using sfree_double_free_aliases[of busy_heap "0xC080002C" "0xC0800000"]
  by (simp add: busy_heap_def kheap.make_def slab.make_def buf.make_def sizeof_Buf_def is_kernel_addr_def
      KERNEL_VIRTUAL_ADDRESS_BASE_def)

end
