(* ===== verification/Paging_Props.thy ===== *)
theory Paging_Props
  imports Paging Slab_Props
begin

text \<open>
  The correctness of the paging code against the page walk of the processor (\<open>mmu_walk\<close>): what
  an address translates to after a page fault, in the kernel's directory and in a new process.
\<close>

section \<open>Bits of an entry\<close>

lemma pte_frame:
  "setReadWrite (setPresent (setPfn pfn x)) AND 0xFFFFF000 = push_bit 12 pfn"
  "setUsermode (setReadWrite (setPresent (setPfn pfn x))) AND 0xFFFFF000 = push_bit 12 pfn"
  unfolding and_FFFFF000 setReadWrite_def setPresent_def setUsermode_def setPfn_def and_FFF
  by (rule bit_word_eqI; force simp: bit_simps)+

lemma isPresent_bit: "isPresent x \<longleftrightarrow> bit x 0"
  using bit_iff_and_push_bit_not_eq_0[of x 0] by (simp add: isPresent_def)

lemma isUsermode_bit: "isUsermode x \<longleftrightarrow> bit x 2"
  using bit_iff_and_push_bit_not_eq_0[of x 2] by (simp add: isUsermode_def)

lemma pte_present:
  "isPresent (setReadWrite (setPresent x))" "isPresent (setUsermode (setReadWrite (setPresent x)))"
  "isPresent (setPresent x)" "isPresent (setUsermode (setPresent x))"
  "isUsermode (setUsermode x)" "\<not> isPresent 0"
  unfolding isPresent_bit isUsermode_bit setReadWrite_def setPresent_def setUsermode_def
  by (auto simp: bit_simps)

text \<open>A directory entry for a table: the frame is the table's page.\<close>

lemma pde_frame:
  assumes "page_aligned p"
  shows "VA (setPresent (setReadWrite (PA p)) AND 0xFFFFF000) = p"
    "VA (setUsermode (setPresent (setReadWrite (PA p))) AND 0xFFFFF000) = p"
    "VA (setReadWrite (setPresent (PA p)) AND 0xFFFFF000) = p"
proof -
  have "unat (PA p) mod 4096 = 0"
    using assms
    by (auto simp: PA_def KERNEL_VIRTUAL_ADDRESS_BASE_def page_aligned_def unat_sub_if' mod_eq_0_iff_dvd
        intro!: dvd_diff_nat dvd_add)
  then have "PA p AND 0xFFF = 0" using unat_and_FFF[of "PA p"] by (metis unat_eq_zero)
  then have "PA p = push_bit 12 (drop_bit 12 (PA p))"
    using and_mask_split[of "PA p"] by (simp add: and_FFFFF000)
  then obtain y where y: "PA p = push_bit 12 y" by blast
  have "setPresent (setReadWrite (push_bit 12 y)) AND 0xFFFFF000 = push_bit 12 y"
    "setUsermode (setPresent (setReadWrite (push_bit 12 y))) AND 0xFFFFF000 = push_bit 12 y"
    "setReadWrite (setPresent (push_bit 12 y)) AND 0xFFFFF000 = push_bit 12 y"
    unfolding and_FFFFF000 setReadWrite_def setPresent_def setUsermode_def
    by (rule bit_word_eqI; force simp: bit_simps)+
  then show "VA (setPresent (setReadWrite (PA p)) AND 0xFFFFF000) = p"
    "VA (setUsermode (setPresent (setReadWrite (PA p))) AND 0xFFFFF000) = p"
    "VA (setReadWrite (setPresent (PA p)) AND 0xFFFFF000) = p"
    unfolding y by (simp_all flip: y)
qed

section \<open>Addresses of entries\<close>

lemma unat_entry:
  assumes "page_aligned t" "unat i < 1024"
  shows "unat (entry t i) = unat t + 4 * unat i"
proof -
  have "unat t + 4096 \<le> 4294967296"
    using assms(1) unat_u32_less[of t] dvd_step[of 4096 "unat t" 4294967296]
    by (simp add: page_aligned_def mod_eq_0_iff_dvd)
  with assms(2) show ?thesis by (simp add: entry_def unat_word_ariths)
qed

lemma entry_inj:
  assumes "page_aligned t" "page_aligned t'" "unat i < 1024" "unat j < 1024"
  shows "entry t i = entry t' j \<longleftrightarrow> t = t' \<and> i = j"
proof
  assume "entry t i = entry t' j"
  then have e: "unat t + 4 * unat i = unat t' + 4 * unat j"
    using unat_entry assms by metis
  have "unat t = unat t'"
  proof (rule ccontr)
    assume "unat t \<noteq> unat t'"
    then have "unat t + 4096 \<le> unat t' \<or> unat t' + 4096 \<le> unat t"
      using assms(1,2) dvd_step[of 4096 "unat t" "unat t'"] dvd_step[of 4096 "unat t'" "unat t"]
      unfolding page_aligned_def mod_eq_0_iff_dvd by (metis linorder_neqE_nat)
    with e assms(3,4) show False by linarith
  qed
  with e show "t = t' \<and> i = j" by (simp add: word_unat_eq_iff)
qed simp

lemma positions:
  "unat (drop_bit 22 (a :: u32)) < 1024" "unat (drop_bit 12 (a :: u32) AND 0x3FF) < 1024"
proof -
  show "unat (drop_bit 22 a) < 1024" using unat_u32_less[of a]
    by (simp add: drop_bit_eq_div unat_div_distrib)
  have "drop_bit 12 a AND 0x3FF \<le> 0x3FF" by (rule word_and_le1)
  then show "unat (drop_bit 12 a AND 0x3FF) < 1024" by (simp add: word_le_nat_alt)
qed

lemma zero_page_words:
  "words (zero_page p s) = (\<lambda>a. if \<exists>i<1024. a = entry p (word_of_nat i) then 0 else words s a) \<and>
   kheap (zero_page p s) = kheap s \<and> kernel_page_directory (zero_page p s) = kernel_page_directory s \<and>
   vmas (zero_page p s) = vmas s \<and> vm_lists (zero_page p s) = vm_lists s"
proof -
  have "let s' = fold (\<lambda>i. upd_word (entry p (word_of_nat i)) (\<lambda>_. 0)) [0..<n] s in
    words s' = (\<lambda>a. if \<exists>i<n. a = entry p (word_of_nat i) then 0 else words s a) \<and>
    kheap s' = kheap s \<and> kernel_page_directory s' = kernel_page_directory s \<and>
    vmas s' = vmas s \<and> vm_lists s' = vm_lists s" for n
    by (induction n) (auto simp: Let_def upd_word_def fun_eq_iff less_Suc_eq)
  from this[of 1024] show ?thesis by (simp add: zero_page_def Let_def)
qed

lemma pg_views [simp]:
  "words (upd_word a f s) = (words s)(a := f (words s a))"
  "kernel_page_directory (upd_word a f s) = kernel_page_directory s"
  "kheap (upd_word a f s) = kheap s" "vmas (upd_word a f s) = vmas s"
  "vm_lists (upd_word a f s) = vm_lists s"
  "kernel_page_directory (zero_page p s) = kernel_page_directory s"
  "kheap (zero_page p s) = kheap s" "vmas (zero_page p s) = vmas s"
  "vm_lists (zero_page p s) = vm_lists s"
  using zero_page_words by (simp_all add: upd_word_def)

lemma zero_page_entry:
  assumes "page_aligned p" "page_aligned t" "unat i < 1024"
  shows "words (zero_page p s) (entry t i) = (if t = p then 0 else words s (entry t i))"
proof (cases "t = p")
  case True
  have "i = word_of_nat (unat i)" by simp
  with True assms(3) show ?thesis using zero_page_words by auto
next
  case False
  have "entry t i \<noteq> entry p (word_of_nat j)" if "j < 1024" for j
    using False entry_inj[OF assms(2,1,3), of "word_of_nat j"] unat_u32[of j] that by simp
  with False show ?thesis using zero_page_words by auto
qed

section \<open>The page walk of the processor\<close>

definition table_at :: "pgstate \<Rightarrow> u32 \<Rightarrow> u32 \<Rightarrow> u32" where
  "table_at s pd i = VA (words s (entry pd i) AND 0xFFFFF000)"

definition mmu_walk :: "pgstate \<Rightarrow> u32 \<Rightarrow> u32 \<Rightarrow> (u32 \<times> bool) option" where
  "mmu_walk s pd va =
     (let pde = words s (entry pd (drop_bit 22 va));
          pte = words s (entry (table_at s pd (drop_bit 22 va)) (drop_bit 12 va AND 0x3FF))
      in if isPresent pde \<and> isPresent pte
         then Some ((pte AND 0xFFFFF000) + (va AND 0xFFF), isUsermode pde \<and> isUsermode pte)
         else None)"

definition same_page :: "u32 \<Rightarrow> u32 \<Rightarrow> bool" where
  "same_page va va' \<longleftrightarrow> drop_bit 12 va = drop_bit 12 va'"

lemma and_3FF: "(x :: u32) AND 0x3FF = take_bit 10 x"
  by (simp add: take_bit_eq_mask mask_eq_exp_minus_1)

lemma same_pageI:
  assumes "drop_bit 22 va = drop_bit 22 (va' :: u32)" "drop_bit 12 va AND 0x3FF = drop_bit 12 va' AND 0x3FF"
  shows "same_page va va'"
proof -
  have "drop_bit 10 (drop_bit 12 va) = drop_bit 10 (drop_bit 12 va')" using assms(1) by simp
  moreover have "take_bit 10 (drop_bit 12 va) = take_bit 10 (drop_bit 12 va')"
    using assms(2) by (simp add: and_3FF)
  ultimately show ?thesis unfolding same_page_def by (metis bits_ident)
qed

lemma page_aligned_VA: "page_aligned (VA (x AND 0xFFFFF000))"
proof -
  let ?y = "x AND 0xFFFFF000"
  have y: "4096 dvd unat ?y" using unat_and_FFFFF000[of x] round_page_mod(2)[of "unat x"]
    by (simp add: mod_eq_0_iff_dvd)
  have "unat (VA ?y) = (unat ?y + 3221225472) mod 4294967296"
    by (simp add: VA_def KERNEL_VIRTUAL_ADDRESS_BASE_def unat_word_ariths)
  moreover have "4096 dvd (unat ?y + 3221225472) mod (4294967296 :: nat)"
    using y by (intro dvd_mod dvd_add) simp_all
  ultimately show ?thesis by (simp add: page_aligned_def mod_eq_0_iff_dvd)
qed

lemma table_aligned: "page_aligned (table_at s pd i)"
  by (simp add: table_at_def page_aligned_VA)

text \<open>A page is covered when the page allocator counts it as allocated; the directory and the
  tables of a process are, and they are different pages.\<close>

definition covered :: "u32 \<Rightarrow> (u32 \<times> nat) set \<Rightarrow> bool" where
  "covered p L \<longleftrightarrow> {unat p..<unat p + 4096} \<subseteq> (\<Union>r\<in>L. bytes_of r)"

definition pt_wf :: "pgstate \<Rightarrow> u32 \<Rightarrow> (u32 \<times> nat) set \<Rightarrow> bool" where
  "pt_wf s pd L \<longleftrightarrow>
     page_aligned pd \<and> page_aligned (kernel_page_directory s) \<and>
     covered pd L \<and> covered (kernel_page_directory s) L \<and>
     (\<forall>i. unat i < 1024 \<and> isPresent (words s (entry pd i)) \<longrightarrow>
        covered (table_at s pd i) L \<and> table_at s pd i \<noteq> pd \<and>
        table_at s pd i \<noteq> kernel_page_directory s) \<and>
     (\<forall>i j. unat i < 1024 \<and> unat j < 1024 \<and> isPresent (words s (entry pd i)) \<and>
        isPresent (words s (entry pd j)) \<and> i \<noteq> j \<longrightarrow> table_at s pd i \<noteq> table_at s pd j)"

lemma calc_page_order_PAGE_SIZE: "unat (calc_page_order PAGE_SIZE) = 0"
proof (rule ccontr)
  assume "unat (calc_page_order PAGE_SIZE) \<noteq> 0"
  with page_order_fits[of PAGE_SIZE] show False by (simp add: PAGE_SIZE_def)
qed

lemma fmalloc_new_page:
  assumes "fast_rep k L M" "fmalloc PAGE_SIZE k = Inr (a, k')"
  shows "page_aligned a" "covered p (L \<union> M) \<Longrightarrow> p \<noteq> a"
    "fast_rep k' (insert (a, 0) L) M"
proof -
  from fast_pages.alloc_step[OF assms] calc_page_order_PAGE_SIZE
  show r: "fast_rep k' (insert (a, 0) L) M" by simp
  show "page_aligned a" using fast_pages.rep_addr[OF r, of a 0] by simp
  from assms(1) obtain K F where inv: "kmem_inv k K F"
    and LM: "L = live (fast_buddy_new k) F" "M = live (kernel_buddy_new k) K"
    unfolding fast_rep_def by blast
  from fmalloc_inv[OF inv assms(2)] calc_page_order_PAGE_SIZE obtain q where
    q: "kmem_inv k' K (insert q F)" "kernel_buddy_new k' = kernel_buddy_new k"
      "live (fast_buddy_new k') (insert q F) = insert (a, 0) (live (fast_buddy_new k) F)"
      "\<forall>r\<in>live (fast_buddy_new k) F. bytes_of (a, 0) \<inter> bytes_of r = {}" by auto
  have "bytes_of (a, 0) \<inter> bytes_of r = {}" if "r \<in> L \<union> M" for r
    using that q LM regions_disjoint[OF q(1), of r "(a, 0)"] by (auto simp: Int_commute)
  moreover have "unat a \<in> bytes_of (a, 0)" by (simp add: bytes_of_def)
  ultimately have "unat a \<notin> (\<Union>r\<in>L \<union> M. bytes_of r)" by blast
  then show "p \<noteq> a" if "covered p (L \<union> M)" using that unfolding covered_def by force
qed

section \<open>Memory areas\<close>

definition in_area :: "pgstate \<Rightarrow> u32 \<Rightarrow> u32 \<Rightarrow> bool" where
  "in_area s addr v \<longleftrightarrow> v_start (vmas s v) \<le> addr \<and> addr < v_end (vmas s v)"

lemma area_fold:
  "fold_until (area_body addr s) (map VmArea vs) (Inr None) = Inr (List.find (in_area s addr) vs)"
  by (induction vs) (auto simp: area_body_def in_area_def)

lemma area_of_ring:
  assumes "ring (vm_lists s) (VmAreas m) (map VmArea vs)"
  shows "area_of addr m s = Inr (List.find (in_area s addr) vs)"
  unfolding area_of_def
  using list_for_each_ring[OF assms, of "\<lambda>_. nxt (vm_lists s)" "area_body addr s" "Inr None"]
  by (simp add: area_fold)

lemma offset_in_page:
  assumes "start AND 0xFFF = phys AND (0xFFF :: u32)"
  shows "(phys + (va - start) AND 0xFFFFF000) + (va AND 0xFFF) = phys + (va - start)"
proof -
  define d where "d = va - start"
  have add: "unat (x + y) mod 4096 = (unat x mod 4096 + unat y mod 4096) mod 4096" for x y :: u32
    by (simp add: unat_word_ariths mod_mod_cancel mod_add_eq)
  have "unat start mod 4096 = unat phys mod 4096" using assms by (metis unat_and_FFF)
  then have "unat (phys + d) mod 4096 = unat (start + d) mod 4096" by (simp only: add)
  then have "unat (phys + d AND 0xFFF) = unat (va AND 0xFFF)" by (simp add: unat_and_FFF d_def)
  then have "phys + (va - start) AND 0xFFF = va AND 0xFFF" by (simp add: word_unat_eq_iff d_def)
  then show ?thesis using and_mask_split[of "phys + (va - start)"] by (simp add: add.commute)
qed

section \<open>The page fault handler\<close>

definition mapped_pte :: "u32 \<Rightarrow> bool \<Rightarrow> u32 \<Rightarrow> u32" where
  "mapped_pte pfn usermode x =
     (let x = setReadWrite (setPresent (setPfn pfn x)) in if usermode then setUsermode x else x)"

definition mapped_pde :: "u32 \<Rightarrow> bool \<Rightarrow> u32" where
  "mapped_pde p usermode =
     (let x = setPresent (setReadWrite (PA p)) in if usermode then setUsermode x else x)"

lemma map_page_eq:
  "map_page a pfn usermode s = upd_word a (mapped_pte pfn usermode) s"
  by (simp add: map_page_def upd_word_def mapped_pte_def Let_def)

lemma mapped_pte_views:
  "isPresent (mapped_pte pfn u x)" "mapped_pte pfn u x AND 0xFFFFF000 = push_bit 12 pfn"
  "u \<Longrightarrow> isUsermode (mapped_pte pfn u x)" "\<not> u \<Longrightarrow> \<not> isUsermode (mapped_pte pfn u 0)"
  using pte_present pte_frame[of pfn x]
  by (auto simp: mapped_pte_def Let_def setReadWrite_def setPresent_def setPfn_def isUsermode_bit bit_simps)

lemma mapped_pde_views:
  assumes "page_aligned p"
  shows "isPresent (mapped_pde p u)" "VA (mapped_pde p u AND 0xFFFFF000) = p"
    "u \<Longrightarrow> isUsermode (mapped_pde p u)"
  using pte_present pde_frame[OF assms] by (auto simp: mapped_pde_def Let_def)

text \<open>What the handler does to memory, in the two cases that map a page.\<close>

lemma fault_existing_table:
  assumes "area_of fault (t_mem t) s = Inr (Some v)"
    and "err AND PF_P = 0" "\<not> ((err AND PF_U \<noteq> 0) \<and> is_kernel_addr fault)"
    and "isPresent (words s (entry (VA (t_page_dir t)) (drop_bit 22 fault)))"
  defines "a \<equiv> entry (table_at s (VA (t_page_dir t)) (drop_bit 22 fault)) (drop_bit 12 fault AND 0x3FF)"
  shows "pageFaultHandler fault err (Some t) s = Inr (Handled,
     if isPresent (words s a) then s
     else upd_word a (mapped_pte (drop_bit 12 (v_phys_start (vmas s v) + (fault - v_start (vmas s v))))
            (err AND PF_U \<noteq> 0)) s)"
  using assms(1-4)
  by (simp add: pageFaultHandler_def Let_def calc_pfn_def is_valid_va_def map_page_eq a_def table_at_def)

lemma fault_new_table:
  assumes "area_of fault (t_mem t) s = Inr (Some v)"
    and "err AND PF_P = 0" "\<not> ((err AND PF_U \<noteq> 0) \<and> is_kernel_addr fault)"
    and "\<not> isPresent (words s (entry (VA (t_page_dir t)) (drop_bit 22 fault)))"
    and "fmalloc PAGE_SIZE (pages (kheap s)) = Inr (p, k)"
  defines "u \<equiv> err AND PF_U \<noteq> 0"
  defines "s1 \<equiv> upd_word (entry p (drop_bit 12 fault AND 0x3FF))
      (mapped_pte (drop_bit 12 (v_phys_start (vmas s v) + (fault - v_start (vmas s v)))) u)
      (zero_page p (s\<lparr>kheap := (kheap s)\<lparr>pages := k\<rparr>\<rparr>))"
  defines "s2 \<equiv> upd_word (entry (VA (t_page_dir t)) (drop_bit 22 fault)) (\<lambda>_. mapped_pde p u) s1"
  shows "pageFaultHandler fault err (Some t) s = Inr (Handled,
     if u then s2
     else upd_word (entry (kernel_page_directory s) (drop_bit 22 fault)) (\<lambda>_. mapped_pde p u) s2)"
proof -
  show ?thesis
    using assms(1-5)
    unfolding s2_def s1_def u_def mapped_pde_def
    by (simp add: pageFaultHandler_def Let_def calc_pfn_def is_valid_va_def map_page_eq)
qed

section \<open>What an address translates to after a fault\<close>

lemma positions_of:
  assumes "\<not> same_page va fault"
  shows "drop_bit 22 va \<noteq> drop_bit 22 fault \<or>
     (drop_bit 12 va AND 0x3FF) \<noteq> (drop_bit 12 fault AND 0x3FF)"
  using same_pageI assms by blast

lemma walk_cong:
  assumes "words s' (entry pd (drop_bit 22 va)) = words s (entry pd (drop_bit 22 va))"
    and "isPresent (words s (entry pd (drop_bit 22 va))) \<Longrightarrow>
      words s' (entry (table_at s pd (drop_bit 22 va)) (drop_bit 12 va AND 0x3FF)) =
      words s (entry (table_at s pd (drop_bit 22 va)) (drop_bit 12 va AND 0x3FF))"
  shows "mmu_walk s' pd va = mmu_walk s pd va"
  using assms
  by (cases "isPresent (words s (entry pd (drop_bit 22 va)))") (simp_all add: mmu_walk_def table_at_def Let_def)

lemma existing_table_walk:
  fixes pfn :: u32 and u :: bool
  assumes wf: "pt_wf s pd L" and pde: "isPresent (words s (entry pd (drop_bit 22 fault)))"
  defines "a \<equiv> entry (table_at s pd (drop_bit 22 fault)) (drop_bit 12 fault AND 0x3FF)"
  defines "s' \<equiv> upd_word a (mapped_pte pfn u) s"
  shows "mmu_walk s' pd fault = Some (push_bit 12 pfn + (fault AND 0xFFF),
      isUsermode (words s (entry pd (drop_bit 22 fault))) \<and> isUsermode (mapped_pte pfn u (words s a)))"
    "\<not> same_page va fault \<Longrightarrow> mmu_walk s' pd va = mmu_walk s pd va"
proof -
  let ?i = "drop_bit 22 fault" and ?j = "drop_bit 12 fault AND 0x3FF"
  have al: "page_aligned pd" and tne: "table_at s pd ?i \<noteq> pd"
    using wf pde positions(1)[of fault] by (auto simp: pt_wf_def)
  have pde_same: "words s' (entry pd i) = words s (entry pd i)" if "unat i < 1024" for i
    using entry_inj[OF al table_aligned that positions(2), of s pd ?i fault] tne
    by (auto simp: s'_def a_def)
  show "mmu_walk s' pd fault = Some (push_bit 12 pfn + (fault AND 0xFFF),
      isUsermode (words s (entry pd ?i)) \<and> isUsermode (mapped_pte pfn u (words s a)))"
    using pde mapped_pte_views(1,2) pde_same[OF positions(1)]
    by (simp add: mmu_walk_def table_at_def Let_def s'_def a_def)
  assume ne: "\<not> same_page va fault"
  show "mmu_walk s' pd va = mmu_walk s pd va"
  proof (rule walk_cong)
    show "words s' (entry pd (drop_bit 22 va)) = words s (entry pd (drop_bit 22 va))"
      by (rule pde_same[OF positions(1)])
    assume p: "isPresent (words s (entry pd (drop_bit 22 va)))"
    have "table_at s pd (drop_bit 22 va) \<noteq> table_at s pd ?i \<or> (drop_bit 12 va AND 0x3FF) \<noteq> ?j"
    proof (cases "drop_bit 22 va = ?i")
      case True
      then show ?thesis using positions_of[OF ne] by simp
    next
      case False
      then show ?thesis using wf p pde positions(1)[of va] positions(1)[of fault] by (auto simp: pt_wf_def)
    qed
    then show "words s' (entry (table_at s pd (drop_bit 22 va)) (drop_bit 12 va AND 0x3FF)) =
        words s (entry (table_at s pd (drop_bit 22 va)) (drop_bit 12 va AND 0x3FF))"
      using entry_inj[OF table_aligned table_aligned positions(2) positions(2)]
      by (auto simp: s'_def a_def)
  qed
qed

lemma new_table_walk:
  fixes pfn :: u32 and u :: bool
  assumes wf: "pt_wf s pd L" and pde: "\<not> isPresent (words s (entry pd (drop_bit 22 fault)))"
    and p: "page_aligned p" "\<And>q. covered q L \<Longrightarrow> q \<noteq> p"
    and k: "words sk = words s" "kernel_page_directory sk = kernel_page_directory s"
  defines "s1 \<equiv> upd_word (entry p (drop_bit 12 fault AND 0x3FF)) (mapped_pte pfn u) (zero_page p sk)"
  defines "s2 \<equiv> upd_word (entry pd (drop_bit 22 fault)) (\<lambda>_. mapped_pde p u) s1"
  defines "s' \<equiv> if u then s2
     else upd_word (entry (kernel_page_directory s) (drop_bit 22 fault)) (\<lambda>_. mapped_pde p u) s2"
  shows "mmu_walk s' pd fault = Some (push_bit 12 pfn + (fault AND 0xFFF),
      isUsermode (mapped_pde p u) \<and> u)"
    "\<not> same_page va fault \<Longrightarrow> mmu_walk s' pd va = mmu_walk s pd va"
    "\<not> u \<Longrightarrow> words s' (entry (kernel_page_directory s) (drop_bit 22 fault)) = mapped_pde p u"
    "words s' (entry p (drop_bit 12 fault AND 0x3FF)) = mapped_pte pfn u 0"
proof -
  let ?i = "drop_bit 22 fault" and ?j = "drop_bit 12 fault AND 0x3FF" and ?k = "kernel_page_directory s"
  have al: "page_aligned pd" "page_aligned ?k" and ne: "pd \<noteq> p" "?k \<noteq> p"
    using wf p(2) by (auto simp: pt_wf_def)
  have word: "words s' (entry t j) =
      (if t = p then if j = ?j then mapped_pte pfn u 0 else 0
       else if (t = pd \<or> t = ?k \<and> \<not> u) \<and> j = ?i then mapped_pde p u else words s (entry t j))"
    if "page_aligned t" "unat j < 1024" for t j
  proof -
    have e: "entry t j = entry p ?j \<longleftrightarrow> t = p \<and> j = ?j" "entry t j = entry pd ?i \<longleftrightarrow> t = pd \<and> j = ?i"
      "entry t j = entry ?k ?i \<longleftrightarrow> t = ?k \<and> j = ?i"
      using entry_inj[OF that(1) p(1) that(2) positions(2)] entry_inj[OF that(1) al(1) that(2) positions(1)]
        entry_inj[OF that(1) al(2) that(2) positions(1)] by blast+
    have z: "words (zero_page p sk) (entry t j) = (if t = p then 0 else words s (entry t j))"
      "words (zero_page p sk) (entry p ?j) = 0"
      using zero_page_entry[OF p(1) that] zero_page_entry[OF p(1) p(1) positions(2)] by (simp_all add: k)
    show ?thesis
    proof (cases "t = p")
      case True
      show ?thesis using ne unfolding True
        by (cases u) (simp_all add: s'_def s2_def s1_def e[unfolded True] z[unfolded True])
    next
      case False
      then show ?thesis using ne by (cases u) (simp_all add: s'_def s2_def s1_def e z)
    qed
  qed
  have "words s' (entry pd ?i) = mapped_pde p u"
    using word[OF al(1) positions(1)] ne by simp
  moreover have pte: "words s' (entry p ?j) = mapped_pte pfn u 0"
    using word[OF p(1) positions(2)] by simp
  ultimately show "mmu_walk s' pd fault = Some (push_bit 12 pfn + (fault AND 0xFFF),
      isUsermode (mapped_pde p u) \<and> u)"
    using mapped_pde_views(1,2)[OF p(1), of u] mapped_pte_views(1,2)[of pfn u 0]
      mapped_pte_views(3)[of u pfn 0] mapped_pte_views(4)[of u pfn]
    by (cases u) (simp_all add: mmu_walk_def table_at_def Let_def)
  show "words s' (entry p ?j) = mapped_pte pfn u 0" by (rule pte)
  show "words s' (entry ?k ?i) = mapped_pde p u" if "\<not> u"
    using word[OF al(2) positions(1)] ne that by simp
  assume np: "\<not> same_page va fault"
  let ?i' = "drop_bit 22 va" and ?j' = "drop_bit 12 va AND 0x3FF"
  show "mmu_walk s' pd va = mmu_walk s pd va"
  proof (cases "?i' = ?i")
    case True
    then have "?j' \<noteq> ?j" using positions_of[OF np] by simp
    then have "words s' (entry p ?j') = 0" using word[OF p(1) positions(2)] by simp
    with True \<open>words s' (entry pd ?i) = mapped_pde p u\<close> show ?thesis
      using mapped_pde_views(2)[OF p(1)] pde pte_present(6) by (simp add: mmu_walk_def table_at_def Let_def)
  next
    case False
    then have pd': "words s' (entry pd ?i') = words s (entry pd ?i')"
      using word[OF al(1) positions(1)] ne by simp
    show ?thesis
    proof (rule walk_cong[OF pd'])
      assume pr: "isPresent (words s (entry pd ?i'))"
      then have t: "table_at s pd ?i' \<noteq> pd" "table_at s pd ?i' \<noteq> ?k" "covered (table_at s pd ?i') L"
        using wf positions(1)[of va] by (auto simp: pt_wf_def)
      then show "words s' (entry (table_at s pd ?i') ?j') = words s (entry (table_at s pd ?i') ?j')"
        using word[OF table_aligned positions(2)] p(2) by auto
    qed
  qed
qed

lemma fault_outcome:
  assumes wf: "pt_wf s pd (L \<union> M)" and rep: "fast_rep (pages (kheap s)) L M" and pd: "pd = VA (t_page_dir t)"
    and v: "area_of fault (t_mem t) s = Inr (Some v)"
    and ok: "err AND PF_P = 0" "\<not> ((err AND PF_U \<noteq> 0) \<and> is_kernel_addr fault)"
    and mem: "fmalloc PAGE_SIZE (pages (kheap s)) = Inr (p, k)"
  defines "phys \<equiv> v_phys_start (vmas s v) + (fault - v_start (vmas s v))"
    and "user \<equiv> err AND PF_U \<noteq> 0"
  shows "\<exists>s'. pageFaultHandler fault err (Some t) s = Inr (Handled, s') \<and>
     (mmu_walk s pd fault = None \<longrightarrow>
        (\<exists>w. mmu_walk s' pd fault = Some (push_bit 12 (drop_bit 12 phys) + (fault AND 0xFFF), w) \<and>
           (\<not> isPresent (words s (entry pd (drop_bit 22 fault))) \<longrightarrow> w = user))) \<and>
     (mmu_walk s pd fault \<noteq> None \<longrightarrow> s' = s) \<and>
     (\<forall>va. \<not> same_page va fault \<longrightarrow> mmu_walk s' pd va = mmu_walk s pd va)"
proof (cases "isPresent (words s (entry pd (drop_bit 22 fault)))")
  case True
  note f = fault_existing_table[OF v ok True[unfolded pd]]
  let ?a = "entry (table_at s pd (drop_bit 22 fault)) (drop_bit 12 fault AND 0x3FF)"
  show ?thesis
  proof (cases "isPresent (words s ?a)")
    case pte: True
    then have "mmu_walk s pd fault \<noteq> None" using True by (simp add: mmu_walk_def Let_def)
    then show ?thesis using f pte by (simp add: pd)
  next
    case pte: False
    then have "mmu_walk s pd fault = None" by (simp add: mmu_walk_def Let_def)
    then show ?thesis
      using f pte existing_table_walk[OF wf True, where pfn = "drop_bit 12 phys" and u = user] True
      by (simp add: pd phys_def user_def)
  qed
next
  case False
  define s2 where "s2 = upd_word (entry pd (drop_bit 22 fault)) (\<lambda>_. mapped_pde p user)
    (upd_word (entry p (drop_bit 12 fault AND 0x3FF)) (mapped_pte (drop_bit 12 phys) user)
      (zero_page p (s\<lparr>kheap := (kheap s)\<lparr>pages := k\<rparr>\<rparr>)))"
  define s' where "s' = (if user then s2
     else upd_word (entry (kernel_page_directory s) (drop_bit 22 fault)) (\<lambda>_. mapped_pde p user) s2)"
  have f: "pageFaultHandler fault err (Some t) s = Inr (Handled, s')"
    using fault_new_table[OF v ok False[unfolded pd] mem]
    unfolding s'_def s2_def user_def phys_def pd .
  have "mmu_walk s pd fault = None" using False by (simp add: mmu_walk_def Let_def)
  moreover have "isUsermode (mapped_pde p user) \<and> user \<longleftrightarrow> user"
    using mapped_pde_views(3)[OF fmalloc_new_page(1)[OF rep mem]] by blast
  moreover have "mmu_walk s' pd fault = Some (push_bit 12 (drop_bit 12 phys) + (fault AND 0xFFF),
      isUsermode (mapped_pde p user) \<and> user)"
    "\<And>va. \<not> same_page va fault \<Longrightarrow> mmu_walk s' pd va = mmu_walk s pd va"
    unfolding s'_def s2_def
    using new_table_walk(1,2)[OF wf False fmalloc_new_page(1,2)[OF rep mem],
      of "s\<lparr>kheap := (kheap s)\<lparr>pages := k\<rparr>\<rparr>"] by simp_all
  ultimately show ?thesis
    using f False by simp
qed

section \<open>Directories\<close>

lemma init_user_paging_words:
  assumes "page_aligned user_pd" "page_aligned (kernel_page_directory s)"
    "user_pd \<noteq> kernel_page_directory s"
  defines "s' \<equiv> init_user_paging user_pd s"
  shows "unat i < 1024 \<Longrightarrow> words s' (entry user_pd i) =
      (let k = words s (entry (kernel_page_directory s) i)
       in if k \<noteq> 0 then setReadWrite (setPresent k) else 0)"
    "page_aligned t \<Longrightarrow> t \<noteq> user_pd \<Longrightarrow> unat i < 1024 \<Longrightarrow> words s' (entry t i) = words s (entry t i)"
    "kernel_page_directory s' = kernel_page_directory s"
proof -
  let ?k = "kernel_page_directory s"
  define f where "f i s = (let k = words s (entry (kernel_page_directory s) (word_of_nat i))
       in if k \<noteq> 0
          then upd_word (entry user_pd (word_of_nat i)) (\<lambda>_. setReadWrite (setPresent k)) s
          else upd_word (entry user_pd (word_of_nat i)) (\<lambda>_. 0) s)" for i s
  define v where "v i = (let k = words s (entry ?k i) in if k \<noteq> 0 then setReadWrite (setPresent k) else 0)" for i
  have inj: "entry user_pd (word_of_nat j) = entry user_pd i \<longleftrightarrow> i = word_of_nat j"
    "page_aligned t \<Longrightarrow> t \<noteq> user_pd \<Longrightarrow> entry t i \<noteq> entry user_pd (word_of_nat j)"
    if "j < 1024" "unat i < 1024" for i j t
    using entry_inj[OF assms(1) assms(1), of "word_of_nat j" i] entry_inj[OF _ assms(1), of t i "word_of_nat j"]
      unat_u32[of j] that by auto
  have *: "kernel_page_directory (fold f [0..<n] s) = ?k \<and>
      (\<forall>i. unat i < 1024 \<longrightarrow> words (fold f [0..<n] s) (entry user_pd i) =
         (if unat i < n then v i else words s (entry user_pd i))) \<and>
      (\<forall>t i. page_aligned t \<and> t \<noteq> user_pd \<and> unat i < 1024 \<longrightarrow>
         words (fold f [0..<n] s) (entry t i) = words s (entry t i))" if "n \<le> 1024" for n
    using that
  proof (induction n)
    case (Suc n)
    then have n: "n < 1024" "unat (word_of_nat n :: u32) = n" using unat_u32[of n] by simp_all
    let ?s = "fold f [0..<n] s"
    from Suc have IH: "kernel_page_directory ?s = ?k"
      "\<And>i. unat i < 1024 \<Longrightarrow> words ?s (entry user_pd i) = (if unat i < n then v i else words s (entry user_pd i))"
      "\<And>t i. page_aligned t \<Longrightarrow> t \<noteq> user_pd \<Longrightarrow> unat i < 1024 \<Longrightarrow> words ?s (entry t i) = words s (entry t i)"
      by auto
    have step: "fold f [0..<Suc n] s = upd_word (entry user_pd (word_of_nat n)) (\<lambda>_. v (word_of_nat n)) ?s"
      using IH(1) IH(3)[OF assms(2), of "word_of_nat n"] assms(3) n
      by (simp add: f_def v_def Let_def)
    show ?case
    proof (intro conjI allI impI)
      show "kernel_page_directory (fold f [0..<Suc n] s) = ?k" unfolding step by (simp add: IH(1))
      fix i :: u32 assume i: "unat i < 1024"
      have "entry user_pd (word_of_nat n) = entry user_pd i \<longleftrightarrow> unat i = n"
        unfolding inj(1)[OF n(1) i] using n(2) by (auto simp: word_unat_eq_iff)
      moreover have "unat i = n \<Longrightarrow> v (word_of_nat n) = v i" by auto
      ultimately show "words (fold f [0..<Suc n] s) (entry user_pd i) =
          (if unat i < Suc n then v i else words s (entry user_pd i))"
        unfolding step using IH(2)[OF i] by (cases "unat i = n") (simp_all add: less_Suc_eq)
    next
      fix t i :: u32 assume t: "page_aligned t \<and> t \<noteq> user_pd \<and> unat i < 1024"
      then have "entry t i \<noteq> entry user_pd (word_of_nat n)" using inj(2)[OF n(1)] by blast
      then show "words (fold f [0..<Suc n] s) (entry t i) = words s (entry t i)"
        unfolding step using IH(3) t by simp
    qed
  qed simp
  have s': "s' = fold f [0..<1024] s"
    unfolding s'_def init_user_paging_def f_def PD_SIZE_def ..
  from *[OF order_refl] show "unat i < 1024 \<Longrightarrow> words s' (entry user_pd i) =
      (let k = words s (entry ?k i) in if k \<noteq> 0 then setReadWrite (setPresent k) else 0)"
    "page_aligned t \<Longrightarrow> t \<noteq> user_pd \<Longrightarrow> unat i < 1024 \<Longrightarrow> words s' (entry t i) = words s (entry t i)"
    "kernel_page_directory s' = ?k"
    unfolding s' by (simp_all add: v_def)
qed

lemma setRP_frame:
  "setReadWrite (setPresent x) AND 0xFFFFF000 = x AND 0xFFFFF000"
  "isUsermode (setReadWrite (setPresent x)) = isUsermode x"
  unfolding and_FFFFF000 setReadWrite_def setPresent_def isUsermode_bit
  by (rule bit_word_eqI, force simp: bit_simps, simp add: bit_simps)

lemma init_user_paging_walk:
  assumes "page_aligned user_pd" "page_aligned (kernel_page_directory s)"
    "user_pd \<noteq> kernel_page_directory s"
    and k: "let k = words s (entry (kernel_page_directory s) (drop_bit 22 va)) in
      (isPresent k \<longrightarrow> table_at s (kernel_page_directory s) (drop_bit 22 va) \<noteq> user_pd) \<and> (k \<noteq> 0 \<longrightarrow> isPresent k)"
  shows "mmu_walk (init_user_paging user_pd s) user_pd va = mmu_walk s (kernel_page_directory s) va"
proof -
  let ?s = "init_user_paging user_pd s" and ?i = "drop_bit 22 va"
  let ?k = "words s (entry (kernel_page_directory s) ?i)"
  note W = init_user_paging_words[OF assms(1-3)]
  have pde: "words ?s (entry user_pd ?i) = (if ?k \<noteq> 0 then setReadWrite (setPresent ?k) else 0)"
    using W(1)[OF positions(1)] by (simp add: Let_def)
  show ?thesis
  proof (cases "?k = 0")
    case True
    then show ?thesis using pde pte_present(6) by (simp add: mmu_walk_def Let_def)
  next
    case False
    with k have pr: "isPresent ?k" and ne: "table_at s (kernel_page_directory s) ?i \<noteq> user_pd"
      by (auto simp: Let_def)
    have t: "table_at ?s user_pd ?i = table_at s (kernel_page_directory s) ?i"
      using False by (simp add: table_at_def pde setRP_frame)
    have "words ?s (entry (table_at s (kernel_page_directory s) ?i) (drop_bit 12 va AND 0x3FF)) =
        words s (entry (table_at s (kernel_page_directory s) ?i) (drop_bit 12 va AND 0x3FF))"
      by (rule W(2)[OF table_aligned ne positions(2)])
    then show ?thesis
      using pr False pte_present(1) by (simp add: mmu_walk_def Let_def t pde setRP_frame)
  qed
qed

end
