(* ===== verification/Paging_Thms.thy ===== *)
theory Paging_Thms
  imports Paging_Props
begin

text \<open>
  The properties of the paging code: what a page fault maps, what a fault in kernel mode leaves
  behind for the processes created later, and what the kernel's directory maps.
\<close>

section \<open>A process with one area\<close>

definition one_area_state :: "u32 \<Rightarrow> kmem \<Rightarrow> pgstate" where
  "one_area_state pd k = pgstate.make (busy_heap\<lparr>pages := k\<rparr>) (\<lambda>_. 0) pd 0
     (\<lambda>_. vma.make 0 0x08048000 0x08049000 0x00C00000 0x1000 0)
     \<lparr>nxt = \<lambda>n. (case n of VmAreas _ \<Rightarrow> VmArea 2 | VmArea _ \<Rightarrow> VmAreas 1),
      prv = \<lambda>n. (case n of VmAreas _ \<Rightarrow> VmArea 2 | VmArea _ \<Rightarrow> VmAreas 1)\<rparr>"

lemma one_area_state_views [simp]:
  "words (one_area_state pd k) = (\<lambda>_. 0)" "kernel_page_directory (one_area_state pd k) = pd"
  "pages (kheap (one_area_state pd k)) = k"
  "vmas (one_area_state pd k) v = vma.make 0 0x08048000 0x08049000 0x00C00000 0x1000 0"
  by (simp_all add: one_area_state_def pgstate.make_def)

lemma one_area_ring: "ring (vm_lists (one_area_state pd k)) (VmAreas 1) (map VmArea [2])"
  by (simp add: one_area_state_def pgstate.make_def ring_def)

lemma one_area_find:
  assumes "0x08048000 \<le> va" "va < 0x08049000"
  shows "List.find (in_area (one_area_state pd k) va) [2] = Some 2"
  using assms by (simp add: in_area_def vma.make_def)

text \<open>A page can be had while not all pages are used.\<close>

lemma page_available:
  assumes "buddy_inv d A" "used_pages d A < tot_pages d"
  shows "\<exists>p d'. get_buddy_new 0 d = Inr (p, d')"
proof -
  have "free_set d \<noteq> {}"
    using pages_balance(1)[OF assms(1)] assms(2) by (auto simp: free_pages_def)
  then show ?thesis
    using get_buddy_new_spec[OF assms(1), of 0] by (auto split: sum.splits)
qed

lemma one_block_pages:
  "tot_pages (kernel_buddy_new one_block_kmem) = 1024" "tot_pages (fast_buddy_new one_block_kmem) = 1024"
  using one_block_desc_inv by (simp_all add: one_block_kmem_def kmem.make_def)

lemma one_area_exists:
  "\<exists>pd k p k'. pt_wf (one_area_state pd k) pd ({} \<union> {(pd, 0)}) \<and> fast_rep k {} {(pd, 0)} \<and>
     fmalloc PAGE_SIZE k = Inr (p, k')"
proof -
  note inv = one_block_kmem_inv
  obtain pd k where k: "kalloc_nosleep 0 one_block_kmem = Inr (pd, k)"
    using page_available[OF kmem_invD(1)[OF inv]] kalloc_nosleep_ok[OF inv]
    by (fastforce simp: used_pages_def one_block_pages)
  from kalloc_nosleep_inv[OF inv k] obtain q where
    q: "kmem_inv k {q} {}" "live (kernel_buddy_new k) {q} = {(pd, 0)}"
      "fast_buddy_new k = fast_buddy_new one_block_kmem" by (auto simp: live_def)
  then have rep: "fast_rep k {} {(pd, 0)}"
    unfolding fast_rep_def by (intro exI[of _ "{q}"] exI[of _ "{}"]) (simp add: live_def)
  have al: "page_aligned pd"
    using kernel_pages_nosleep.alloc_step[OF one_block_kmem_rep(1) k] kernel_pages_nosleep.rep_addr
    by blast
  have "pt_wf (one_area_state pd k) pd ({} \<union> {(pd, 0)})"
    using al pte_present(6) by (simp add: pt_wf_def covered_def bytes_of_def)
  moreover have "\<exists>p k'. fmalloc PAGE_SIZE k = Inr (p, k')"
    using page_available[OF kmem_invD(3)[OF q(1)]] fmalloc_ok[OF q(1), of PAGE_SIZE]
    by (fastforce simp: used_pages_def q(3) one_block_pages calc_page_order_PAGE_SIZE)
  ultimately show ?thesis using rep by blast
qed

section \<open>Page faults\<close>



text \<open>
  C16: a fault of the kernel on behalf of one process, where that process has no page table yet,
  is entered in the kernel's own directory as well: in every process set up afterwards the
  address translates to the first process's frame, and without the right to use it from user
  mode, so that the new process cannot fault its own page in.
\<close>

theorem kernel_fault_leaks:
  assumes "pt_wf s (VA (t_page_dir t)) (L \<union> M)" "fast_rep (pages (kheap s)) L M"
    and "ring (vm_lists s) (VmAreas (t_mem t)) (map VmArea vs)" "List.find (in_area s fault) vs = Some v"
    and "v_start (vmas s v) AND 0xFFF = v_phys_start (vmas s v) AND 0xFFF"
    and "err AND PF_P = 0" "err AND PF_U = 0"
    and "\<not> isPresent (words s (entry (VA (t_page_dir t)) (drop_bit 22 fault)))"
    and "fmalloc PAGE_SIZE (pages (kheap s)) = Inr (p, k)"
    and "page_aligned user_pd" "user_pd \<noteq> p" "user_pd \<noteq> kernel_page_directory s"
  shows "\<exists>s'. pageFaultHandler fault err (Some t) s = Inr (Handled, s') \<and>
     mmu_walk (init_user_paging user_pd s') user_pd fault =
       Some (v_phys_start (vmas s v) + (fault - v_start (vmas s v)), False)"
proof -
  let ?phys = "v_phys_start (vmas s v) + (fault - v_start (vmas s v))" and ?kpd = "kernel_page_directory s"
  let ?i = "drop_bit 22 fault" and ?j = "drop_bit 12 fault AND 0x3FF"
  have v: "area_of fault (t_mem t) s = Inr (Some v)" using area_of_ring[OF assms(3)] assms(4) by simp
  obtain s' where f: "pageFaultHandler fault err (Some t) s = Inr (Handled, s')"
    and kpd: "kernel_page_directory s' = ?kpd" "page_aligned ?kpd"
    and pde: "words s' (entry ?kpd ?i) = mapped_pde p False"
    and pte: "words s' (entry p ?j) = mapped_pte (drop_bit 12 ?phys) False 0"
    using fault_new_table[OF v assms(6) _ assms(8,9)] assms(1,7)
      new_table_walk(3)[where u = False and pfn = "drop_bit 12 ?phys" and sk = "s\<lparr>kheap := (kheap s)\<lparr>pages := k\<rparr>\<rparr>",
        OF assms(1,8) fmalloc_new_page(1,2)[OF assms(2,9)]]
      new_table_walk(4)[where u = False and pfn = "drop_bit 12 ?phys" and sk = "s\<lparr>kheap := (kheap s)\<lparr>pages := k\<rparr>\<rparr>",
        OF assms(1,8) fmalloc_new_page(1,2)[OF assms(2,9)]]
    by (simp add: pt_wf_def)
  note pd = mapped_pde_views[OF fmalloc_new_page(1)[OF assms(2,9)]]
  have t: "table_at s' ?kpd ?i = p" using pde pd(2) by (simp add: table_at_def)
  have "mmu_walk (init_user_paging user_pd s') user_pd fault = mmu_walk s' ?kpd fault"
    using init_user_paging_walk[OF assms(10), of s' fault] kpd t assms(11,12) pde pd(1) by simp
  also have "\<dots> = Some (?phys, False)"
    using pde pte t pd(1) mapped_pte_views(1,2)[where pfn = "drop_bit 12 ?phys"]
      mapped_pte_views(4)[where pfn = "drop_bit 12 ?phys" and u = False] offset_in_page[OF assms(5), of fault]
    by (simp add: mmu_walk_def Let_def and_FFFFF000)
  finally show ?thesis using f by blast
qed

theorem kernel_fault_leaks_witness:
  "\<exists>s s' t user_pd. pageFaultHandler 0x08048123 0 (Some t) s = Inr (Handled, s') \<and>
     mmu_walk s (VA (t_page_dir t)) 0x08048123 = None \<and>
     mmu_walk (init_user_paging user_pd s') user_pd 0x08048123 = Some (0x00C00123, False)"
proof -
  from one_area_exists obtain pd k p k' where
    W: "pt_wf (one_area_state pd k) pd ({} \<union> {(pd, 0)})" "fast_rep k {} {(pd, 0)}"
      "fmalloc PAGE_SIZE k = Inr (p, k')" by blast
  let ?s = "one_area_state pd k" and ?t = "pthread.make (PA pd) 1"
  have n: "mmu_walk ?s pd 0x08048123 = None" using pte_present(6) by (simp add: mmu_walk_def)
  obtain u :: u32 where u: "page_aligned u" "u \<noteq> p" "u \<noteq> pd"
  proof -
    have "page_aligned 0" "page_aligned 0x1000" "page_aligned 0x2000" by (simp_all add: page_aligned_def)
    then show ?thesis using that[of 0] that[of "0x1000"] that[of "0x2000"]
      by (cases "p = 0"; cases "pd = 0"; cases "p = 0x1000"; cases "pd = 0x1000") auto
  qed
  obtain s' where "pageFaultHandler 0x08048123 0 (Some ?t) ?s = Inr (Handled, s')"
      "mmu_walk (init_user_paging u s') u 0x08048123 = Some (0x00C00123, False)"
    using kernel_fault_leaks[of ?s ?t "{}" "{(pd, 0)}" "[2]" "0x08048123" 2 0 p k' u] W u
      one_area_ring one_area_find[of "0x08048123" pd k] pte_present(6)
    by (simp add: pthread.make_def vma.make_def) blast
  with n show ?thesis
    by (intro exI[of _ ?s] exI[of _ s'] exI[of _ ?t] exI[of _ u]) (simp add: pthread.make_def)
qed

section \<open>The directory of the kernel\<close>


















section \<open>What the directory translates\<close>









end
