(* ===== verification/Strings.thy ===== *)
theory Strings
  imports Prelude
begin

text \<open>
  \<^verbatim>\<open>lib/strings.c\<close>: the C strings of the kernel and the conversion of numbers to text. A string
  is the array its pointer leads to, a list of bytes of the array's length; an access beyond it
  is \<open>OutOfBounds\<close>. The second half relates the arrays to the text they hold.
\<close>

section \<open>The operations\<close>

function strlen_loop :: "u8 list \<Rightarrow> nat \<Rightarrow> nat result" where
  "strlen_loop s i =
     res_bind (arr_get s i) (\<lambda>c. if c \<noteq> 0 then strlen_loop s (i + 1) else Inr i)"
  by pat_completeness auto
termination
  by (relation "measure (\<lambda>(s, i). length s - i)") (auto simp: arr_get_Inr_iff)

declare strlen_loop.simps [simp del]

definition strlen :: "u8 list \<Rightarrow> nat result" where
  "strlen s = strlen_loop s 0"

definition append :: "u8 list \<Rightarrow> u8 \<Rightarrow> u8 list result" where
  "append s n =
     res_bind (strlen s) (\<lambda>len.
     res_bind (arr_set s len n) (\<lambda>s. arr_set s (len + 1) 0))"

definition backspace :: "u8 list \<Rightarrow> u8 list result" where
  "backspace s =
     res_bind (strlen s) (\<lambda>len. if len > 0 then arr_set s (len - 1) 0 else Inr s)"

function reverse_loop :: "int \<Rightarrow> int \<Rightarrow> u8 list \<Rightarrow> u8 list result" where
  "reverse_loop i j s =
     (if i < j then
        res_bind (arr_get s (nat i)) (\<lambda>c.
        res_bind (arr_get s (nat j)) (\<lambda>d.
        res_bind (arr_set s (nat i) d) (\<lambda>s.
        res_bind (arr_set s (nat j) c) (\<lambda>s. reverse_loop (i + 1) (j - 1) s))))
      else Inr s)"
  by pat_completeness auto
termination by (relation "measure (\<lambda>(i, j, s). nat (j - i))") auto

declare reverse_loop.simps [simp del]

definition reverse :: "u8 list \<Rightarrow> u8 list result" where
  "reverse s = res_bind (strlen s) (\<lambda>len. reverse_loop 0 (int len - 1) s)"

text \<open>The characters are signed; the difference is returned as an unsigned word.\<close>

function strcmp_loop :: "u8 list \<Rightarrow> u8 list \<Rightarrow> nat \<Rightarrow> u32 result" where
  "strcmp_loop s1 s2 i =
     res_bind (arr_get s1 i) (\<lambda>a.
     res_bind (arr_get s2 i) (\<lambda>b.
       if a = b then (if a = 0 then Inr 0 else strcmp_loop s1 s2 (i + 1))
       else Inr (word_of_int (sint a - sint b))))"
  by pat_completeness auto
termination
  by (relation "measure (\<lambda>(s1, s2, i). length s1 - i)") (auto simp: arr_get_Inr_iff)

declare strcmp_loop.simps [simp del]

definition strcmp :: "u8 list \<Rightarrow> u8 list \<Rightarrow> u32 result" where
  "strcmp s1 s2 = strcmp_loop s1 s2 0"

text \<open>Division and remainder of C, which round towards zero; negation of a 32-bit \<^verbatim>\<open>int\<close> wraps.\<close>

definition c_div :: "int \<Rightarrow> int \<Rightarrow> int" where
  "c_div a b = sgn a * sgn b * (\<bar>a\<bar> div \<bar>b\<bar>)"

definition c_mod :: "int \<Rightarrow> int \<Rightarrow> int" where
  "c_mod a b = a - b * c_div a b"

definition int_neg :: "int \<Rightarrow> int" where
  "int_neg n = sint (word_of_int (- n) :: u32)"

function put_digits :: "int \<Rightarrow> nat \<Rightarrow> u8 list \<Rightarrow> (nat \<times> u8 list) result" where
  "put_digits n i str =
     res_bind (arr_set str i (word_of_int (c_mod n 10 + 48))) (\<lambda>str.
       let n' = c_div n 10
       in if n' > 0 then put_digits n' (i + 1) str else Inr (i + 1, str))"
  by pat_completeness auto
termination
  by (relation "measure (\<lambda>(n, i, str). nat n)")
    (auto simp: c_div_def sgn_if zero_less_mult_iff split: if_splits)

declare put_digits.simps [simp del]

definition intToAscii :: "int \<Rightarrow> u8 list \<Rightarrow> u8 list result" where
  "intToAscii n str =
     (let sign = n;
          n = (if n < 0 then int_neg n else n) in
      res_bind (put_digits n 0 str) (\<lambda>(i, str).
      res_bind (if sign < 0 then res_bind (arr_set str i 45) (\<lambda>str. Inr (i + 1, str))
                else Inr (i, str)) (\<lambda>(i, str).
      res_bind (arr_set str i 0) (\<lambda>str. reverse str))))"

text \<open>The digits of \<^verbatim>\<open>hex_to_ascii\<close> from bit \<open>i\<close> down to 4, then the last one.\<close>

fun hex_loop :: "nat list \<Rightarrow> u32 \<Rightarrow> bool \<Rightarrow> u8 list \<Rightarrow> u8 list result" where
  "hex_loop [] n zeros str = Inr str"
| "hex_loop (i # is) n zeros str =
     (let tmp = signed_drop_bit i n AND 0xF in
      if tmp = 0 \<and> \<not> zeros then hex_loop is n zeros str
      else res_bind (if tmp > 0xA then append str (ucast (tmp - 0xA + 97))
                     else append str (ucast (tmp + 48))) (hex_loop is n True))"

definition hex_to_ascii :: "u32 \<Rightarrow> u8 list \<Rightarrow> u8 list result" where
  "hex_to_ascii n str =
     res_bind (append str 48) (\<lambda>str.
     res_bind (append str 120) (\<lambda>str.
     res_bind (hex_loop [28, 24, 20, 16, 12, 8, 4] n False str) (\<lambda>str.
       let tmp = n AND 0xF
       in if tmp \<ge> 0xA then append str (ucast (tmp - 0xA + 97)) else append str (ucast (tmp + 48)))))"

text \<open>
  \<^verbatim>\<open>strtokn\<close>: \<open>None\<close> is the NULL input. The result is the token's length and the array
  \<^verbatim>\<open>out_token\<close>. After a delimiter the loop skips the run of delimiters and then advances once
  more, past the first character of the next token, whatever it is.
\<close>

function skip_delims :: "u8 list \<Rightarrow> u8 \<Rightarrow> nat \<Rightarrow> nat result" where
  "skip_delims input delim i =
     res_bind (arr_get input i) (\<lambda>c.
       if c = delim then skip_delims input delim (i + 1) else Inr i)"
  by pat_completeness auto
termination
  by (relation "measure (\<lambda>(input, delim, i). length input - i)") (auto simp: arr_get_Inr_iff)

declare skip_delims.simps [simp del]

fun copy_out :: "u8 list \<Rightarrow> nat \<Rightarrow> nat \<Rightarrow> nat \<Rightarrow> u8 list \<Rightarrow> u8 list result" where
  "copy_out input from i 0 out = Inr out"
| "copy_out input from i (Suc n) out =
     res_bind (arr_get input (from + i)) (\<lambda>c.
     res_bind (arr_set out i c) (copy_out input from (i + 1) n))"

definition take_token :: "u8 list \<Rightarrow> nat \<Rightarrow> nat \<Rightarrow> u8 list \<Rightarrow> (nat \<times> u8 list) result" where
  "take_token input start i out =
     res_bind (copy_out input start 0 (i - start) out) (\<lambda>out.
     res_bind (arr_set out (i - start) 0) (\<lambda>out. Inr (i - start, out)))"

lemma skip_delims_ge: "skip_delims input delim i = Inr j \<Longrightarrow> i \<le> j"
proof (induction input delim i rule: skip_delims.induct)
  case (1 input delim i)
  from "1.prems" show ?case
    using "1.IH" by (subst (asm) skip_delims.simps) (fastforce simp: res_bind_Inr_iff split: if_splits)
qed

function strtokn_loop ::
  "u8 list \<Rightarrow> u8 \<Rightarrow> nat \<Rightarrow> nat \<Rightarrow> nat \<Rightarrow> nat \<Rightarrow> bool \<Rightarrow> u8 list \<Rightarrow> (nat \<times> u8 list) result" where
  "strtokn_loop input delim tok_num i count start found out =
     res_bind (arr_get input i) (\<lambda>c.
       if c \<noteq> 0 then
         (if c = delim then
            (if tok_num = count then take_token input start i out
             else res_bind (skip_delims input delim i) (\<lambda>j.
               strtokn_loop input delim tok_num (j + 1) (count + 1) j True out))
          else strtokn_loop input delim tok_num (i + 1) count start found out)
       else if found \<and> tok_num = count then take_token input start i out
       else res_bind (arr_set out 0 0) (\<lambda>out. Inr (0, out)))"
  by pat_completeness auto
termination
  by (relation "measure (\<lambda>(input, delim, tok_num, i, _). length input - i)")
    (auto simp: arr_get_Inr_iff dest: skip_delims_ge)

declare strtokn_loop.simps [simp del]

definition strtokn :: "u8 list option \<Rightarrow> u8 list \<Rightarrow> u8 \<Rightarrow> nat \<Rightarrow> (nat \<times> u8 list) result" where
  "strtokn input out_token delim tok_num =
     (case input of
        None \<Rightarrow> res_bind (arr_set out_token 0 0) (\<lambda>out. Inr (0, out))
      | Some input \<Rightarrow> strtokn_loop input delim tok_num 0 0 0 False out_token)"

end
