(* ===== verification/Boot.thy ===== *)
theory Boot
  imports Memory
begin

text \<open>
  What the kernel reads from the boot loader (\<^verbatim>\<open>boot/multiboot.h\<close>, \<^verbatim>\<open>parse_multiboot_info\<close> of
  \<^verbatim>\<open>mem/mem.c\<close>, \<^verbatim>\<open>getModule\<close>, \<^verbatim>\<open>save_multiboot2_info\<close> and the sums of \<^verbatim>\<open>printMultibootInfo\<close> of
  \<^verbatim>\<open>lib/utils.c\<close>) and the random numbers of \<^verbatim>\<open>lib/utils.c\<close>. The structures are read from the byte
  store field by field, at the offsets the compiler gives them.
\<close>

section \<open>Fields in memory\<close>

definition read16 :: "bytes \<Rightarrow> u32 \<Rightarrow> u16" where
  "read16 m a = ucast (m a) OR push_bit 8 (ucast (m (a + 1)))"

definition read32 :: "bytes \<Rightarrow> u32 \<Rightarrow> u32" where
  "read32 m a = ucast (m a) OR push_bit 8 (ucast (m (a + 1))) OR push_bit 16 (ucast (m (a + 2)))
     OR push_bit 24 (ucast (m (a + 3)))"

definition read64 :: "bytes \<Rightarrow> u32 \<Rightarrow> u64" where
  "read64 m a = ucast (read32 m a) OR push_bit 32 (ucast (read32 m (a + 4)))"

definition put16 :: "u32 \<Rightarrow> u16 \<Rightarrow> bytes \<Rightarrow> bytes" where
  "put16 a v m = m(a := ucast v, a + 1 := ucast (drop_bit 8 v))"

definition put32 :: "u32 \<Rightarrow> u32 \<Rightarrow> bytes \<Rightarrow> bytes" where
  "put32 a v m = m(a := ucast v, a + 1 := ucast (drop_bit 8 v), a + 2 := ucast (drop_bit 16 v),
     a + 3 := ucast (drop_bit 24 v))"

section \<open>Tags\<close>

definition MULTIBOOT2_BOOTLOADER_MAGIC :: u32 where "MULTIBOOT2_BOOTLOADER_MAGIC = 0x36d76289"
definition MULTIBOOT_TAG_TYPE_END :: u32 where "MULTIBOOT_TAG_TYPE_END = 0"
definition MULTIBOOT_TAG_TYPE_MODULE :: u32 where "MULTIBOOT_TAG_TYPE_MODULE = 3"
definition MULTIBOOT_TAG_TYPE_MMAP :: u32 where "MULTIBOOT_TAG_TYPE_MMAP = 6"

record multiboot_tag =
  tag_type :: u32
  tag_size :: u32

record multiboot_tag_module =
  mod_tag :: multiboot_tag
  mod_start :: u32
  mod_end :: u32

record multiboot_tag_mmap =
  mmap_tag :: multiboot_tag
  entry_size :: u32
  entry_version :: u32

record multiboot_mmap_entry =
  mm_addr :: u64
  mm_len :: u64
  mm_type :: u32

record KMultiBoot2Info =
  mbi_info :: u32
  mbi_magic :: u32

definition tag_at :: "bytes \<Rightarrow> u32 \<Rightarrow> multiboot_tag" where
  "tag_at m a = \<lparr>tag_type = read32 m a, tag_size = read32 m (a + 4)\<rparr>"

definition module_at :: "bytes \<Rightarrow> u32 \<Rightarrow> multiboot_tag_module" where
  "module_at m a = \<lparr>mod_tag = tag_at m a, mod_start = read32 m (a + 8), mod_end = read32 m (a + 12)\<rparr>"

definition mmap_at :: "bytes \<Rightarrow> u32 \<Rightarrow> multiboot_tag_mmap" where
  "mmap_at m a = \<lparr>mmap_tag = tag_at m a, entry_size = read32 m (a + 8), entry_version = read32 m (a + 12)\<rparr>"

definition entry_at :: "bytes \<Rightarrow> u32 \<Rightarrow> multiboot_mmap_entry" where
  "entry_at m a = \<lparr>mm_addr = read64 m a, mm_len = read64 m (a + 8), mm_type = read32 m (a + 16)\<rparr>"

definition next_tag :: "bytes \<Rightarrow> u32 \<Rightarrow> u32" where
  "next_tag m tag = tag + ((tag_size (tag_at m tag) + 7) AND NOT 7)"

text \<open>
  The two loops, for what is done at each tag and at each entry of a memory map. A tag of size 0 or
  an entry size of 0 makes them run for ever: \<open>None\<close>.
\<close>

partial_function (option) mmap_loop ::
  "bytes \<Rightarrow> u32 \<Rightarrow> (multiboot_mmap_entry \<Rightarrow> 'a \<Rightarrow> 'a) \<Rightarrow> u32 \<Rightarrow> 'a \<Rightarrow> 'a option" where
  "mmap_loop m tag f mmap x =
     (if mmap < tag + tag_size (tag_at m tag)
      then mmap_loop m tag f (mmap + entry_size (mmap_at m tag)) (f (entry_at m mmap) x)
      else Some x)"

definition mmap_entries ::
  "bytes \<Rightarrow> u32 \<Rightarrow> (multiboot_mmap_entry \<Rightarrow> 'a \<Rightarrow> 'a) \<Rightarrow> 'a \<Rightarrow> 'a option" where
  "mmap_entries m tag f x = mmap_loop m tag f (tag + 16) x"

section \<open>parse_multiboot_info\<close>

record BootMmap =
  highest_mem_addess :: u32
  total_pages :: u32

text \<open>The two halves of the 64-bit base and length are added, not joined.\<close>

definition fold_halves :: "u64 \<Rightarrow> u32" where
  "fold_halves x = ucast (drop_bit 32 x) + ucast (x AND 0xffffffff)"

definition max_end :: "multiboot_mmap_entry \<Rightarrow> u32 \<Rightarrow> u32" where
  "max_end e max_mem_address =
     (let base_addr = fold_halves (mm_addr e);
          len = fold_halves (mm_len e);
          type = mm_type e
      in if type = 1 \<and> base_addr + len > max_mem_address then base_addr + len else max_mem_address)"

partial_function (option) parse_loop :: "bytes \<Rightarrow> u32 \<Rightarrow> u32 \<Rightarrow> u32 option" where
  "parse_loop m tag max_mem_address =
     (if tag_type (tag_at m tag) \<noteq> MULTIBOOT_TAG_TYPE_END then
        (if tag_type (tag_at m tag) = MULTIBOOT_TAG_TYPE_MMAP then
           (case mmap_entries m tag max_end max_mem_address of
              None \<Rightarrow> None
            | Some x \<Rightarrow> parse_loop m (next_tag m tag) x)
         else parse_loop m (next_tag m tag) max_mem_address)
      else Some max_mem_address)"

text \<open>The result is the code returned and the new \<^verbatim>\<open>boot_mmap\<close>.\<close>

definition parse_multiboot_info ::
  "bytes \<Rightarrow> KMultiBoot2Info \<Rightarrow> BootMmap \<Rightarrow> (u8 \<times> BootMmap) result" where
  "parse_multiboot_info m info boot_mmap =
     (if mbi_magic info \<noteq> MULTIBOOT2_BOOTLOADER_MAGIC then Inr (- 1, boot_mmap)
      else res_bind (returns (parse_loop m (mbi_info info + 8) 0)) (\<lambda>max_mem_address.
        Inr (0, \<lparr>highest_mem_addess = max_mem_address,
                 total_pages = (max_mem_address AND 0xFFFFF000) div 0x1000\<rparr>)))"

section \<open>Other readers of the tags\<close>

text \<open>The first module, \<open>Some None\<close> when there is none.\<close>

partial_function (option) find_module :: "bytes \<Rightarrow> u32 \<Rightarrow> u32 option option" where
  "find_module m tag =
     (if tag_type (tag_at m tag) \<noteq> MULTIBOOT_TAG_TYPE_END then
        (if tag_type (tag_at m tag) = MULTIBOOT_TAG_TYPE_MODULE then Some (Some tag)
         else find_module m (next_tag m tag))
      else Some None)"

definition getModule :: "bytes \<Rightarrow> KMultiBoot2Info \<Rightarrow> u32 option result" where
  "getModule m info = returns (find_module m (mbi_info info + 8))"

text \<open>The sums that \<^verbatim>\<open>printMultibootInfo\<close> prints: reserved and free bytes.\<close>

definition add_region :: "multiboot_mmap_entry \<Rightarrow> u64 \<times> u64 \<Rightarrow> u64 \<times> u64" where
  "add_region e = (\<lambda>(resMemSize, freeMemSize).
     if mm_type e = 1 then (resMemSize, freeMemSize + mm_len e) else (resMemSize + mm_len e, freeMemSize))"

partial_function (option) sum_regions :: "bytes \<Rightarrow> u32 \<Rightarrow> u64 \<times> u64 \<Rightarrow> (u64 \<times> u64) option" where
  "sum_regions m tag sums =
     (if tag_type (tag_at m tag) \<noteq> MULTIBOOT_TAG_TYPE_END then
        (if tag_type (tag_at m tag) = MULTIBOOT_TAG_TYPE_MMAP then
           (case mmap_entries m tag add_region sums of
              None \<Rightarrow> None
            | Some x \<Rightarrow> sum_regions m (next_tag m tag) x)
         else sum_regions m (next_tag m tag) sums)
      else Some sums)"

text \<open>The copy of the boot information at the kernel's first free address; \<^verbatim>\<open>addr\<close> is where the
  loader left it. The result is the description and the new memory and \<^verbatim>\<open>free_mem_addr\<close>.\<close>

definition save_multiboot2_info ::
  "u32 \<Rightarrow> u32 \<Rightarrow> bytes \<Rightarrow> u32 \<Rightarrow> KMultiBoot2Info \<times> bytes \<times> u32" where
  "save_multiboot2_info addr magic m free_mem_addr =
     (let sz = ucast (read16 m addr);
          (info, free_mem_addr) = boot_alloc sz 1 free_mem_addr;
          m = memcopy addr info sz m
      in (\<lparr>mbi_info = info, mbi_magic = magic\<rparr>, m, free_mem_addr))"

section \<open>Random numbers\<close>

definition RAND_MAX :: u32 where "RAND_MAX = 0xFFFFFF"

definition rand :: "u64 \<Rightarrow> u32 \<times> u64" where
  "rand next =
     (let next = next * 1103515245 + 313154
      in (ucast (next div 65536) mod RAND_MAX, next))"

definition srand :: "u32 \<Rightarrow> u64" where
  "srand seed = ucast seed"

end
