(* ===== verification/Kernel.thy ===== *)
theory Kernel
  imports Paging Strings Boot
begin

text \<open>
  The state of the running kernel (\<^verbatim>\<open>proc/thread.h\<close>, \<^verbatim>\<open>lock/lock.h\<close>, \<^verbatim>\<open>kernel/timer.h\<close>,
  \<^verbatim>\<open>kernel/files.h\<close>, \<^verbatim>\<open>users/user.h\<close>) and the queue operations of \<^verbatim>\<open>proc/thread.c\<close>.
  Objects are views of memory indexed by their address. The list nodes embedded in them form one
  heap of pointers: \<open>THead t\<close> is the field \<^verbatim>\<open>head\<close> of the thread at \<open>t\<close>, and so on.
\<close>

section \<open>State\<close>

datatype knode =
    SleepQueue | RunningQueue | StoppedQueue | KThreads | KernelTimers | KernelLocks | UserList
  | FileDescriptors | KworkQueue
  | THead u32 | TProc u32 | TSiblings u32 | TChildren u32 | TWaitq u32 | TFiles u32
  | TimerQ u32 | ThreadsWaiting u32 | LockHead u32 | UserQ u32 | FdQ u32 | FdK u32 | WorkQ u32

record thread =
  th_esp :: u32
  th_tss :: u32
  th_page_dir :: u32
  th_ret_value :: u32
  user_stack_bot :: u32
  kernel_stack_bot :: u32
  command :: u32
  th_state :: u32
  th_pid :: u16
  tgid :: u16
  ring0 :: bool
  th_mem :: u32
  sig_pending :: u32
  sig_active :: u32
  nice :: u8
  runtime :: u64
  last_activation :: u64
  timeslice :: u32
  sleeping_lock :: u32
  wait_flags :: u8
  std_files :: "u32 \<times> u32 \<times> u32"
  father :: u32
  owner :: u32
  wait4child :: bool
  wait4 :: u32
  exit_value :: u32

record ktimer =
  expiration :: u32
  tm_thread :: u32

record lock =
  l_state :: u32
  l_id :: u32
  l_owner :: u32
  l_wait_q :: u32

record FD =
  f_type :: u8
  f_fd :: u32
  f_name :: "u8 list"
  f_lock :: u32
  f_read_lock :: u32
  f_buffer :: "u8 list"
  f_size :: u32
  f_pos :: u32
  f_last :: u32
  f_available :: u32

record mem_desc =
  areas_count :: u32
  usage_counter :: u32
  md_page_directory :: u32

record user =
  uid :: u32
  gid :: u32
  username :: "u8 list"

record work =
  w_type :: u8
  w_data :: u32
  w_size :: u32

text \<open>
  \<open>queues\<close> is the heap of list nodes; \<open>clock n\<close> is what the \<open>n\<close>-th execution of the \<^verbatim>\<open>rdtsc\<close>
  instruction reads, and \<open>tsc_reads\<close> counts them; \<open>ints\<close> is the interrupt flag; \<open>next_pid\<close> is the
  global \<^verbatim>\<open>pid\<close>.
\<close>

record kernel =
  paging :: pgstate
  queues :: "knode list_heap"
  threads :: "u32 \<Rightarrow> thread"
  timers :: "u32 \<Rightarrow> ktimer"
  locks :: "u32 \<Rightarrow> lock"
  files :: "u32 \<Rightarrow> FD"
  mems :: "u32 \<Rightarrow> mem_desc"
  users :: "u32 \<Rightarrow> user"
  works :: "u32 \<Rightarrow> work"
  names :: "u32 \<Rightarrow> u8 list"
  current_thread :: u32
  idle_thread :: u32
  init_thread :: u32
  kwork_thread :: u32
  kernel_mem :: u32
  next_pid :: u32
  ints :: bool
  clock :: "nat \<Rightarrow> u64"
  tsc_reads :: nat
  locks_id :: u32
  next_fd :: u32
  stdin :: u32
  stdout :: u32
  stderr :: u32
  next_uid :: u32
  root_user :: u32
  total_packets :: u32
  keyboard_buffer :: "u8 list"
  key_buf_avail :: u32
  key_buf_last :: u32
  rand_next :: u64

definition NULL :: u32 where "NULL = 0"
definition IDLE_PID :: u16 where "IDLE_PID = 0"
definition MIN_PRIORITY :: u8 where "MIN_PRIORITY = 20"
definition MAX_PRIORITY :: u8 where "MAX_PRIORITY = 0"
definition MAX_QUANTUM_MS :: u32 where "MAX_QUANTUM_MS = 200"
definition MIN_QUANTUM_MS :: u32 where "MIN_QUANTUM_MS = 1"
definition P_PENALTY :: u32 where "P_PENALTY = 5"
definition TASK_RUNNABLE :: u32 where "TASK_RUNNABLE = 0"
definition TASK_INTERRUPTIBLE :: u32 where "TASK_INTERRUPTIBLE = 2"
definition TASK_ZOMBIE :: u32 where "TASK_ZOMBIE = 3"
definition TASK_STOPPED :: u32 where "TASK_STOPPED = 4"
definition NO_RET_VAL :: u32 where "NO_RET_VAL = 0xFFFFFFFF"

lemmas thread_consts = NULL_def IDLE_PID_def TASK_RUNNABLE_def TASK_INTERRUPTIBLE_def
  TASK_ZOMBIE_def TASK_STOPPED_def

definition upd_thread :: "u32 \<Rightarrow> (thread \<Rightarrow> thread) \<Rightarrow> kernel \<Rightarrow> kernel" where
  "upd_thread t f s = s\<lparr>threads := (threads s)(t := f (threads s t))\<rparr>"

text \<open>A C string constant.\<close>

definition cstr :: "string \<Rightarrow> u8 list" where
  "cstr t = map of_char t @ [0]"

definition on_queues :: "(knode list_heap \<Rightarrow> knode list_heap) \<Rightarrow> kernel \<Rightarrow> kernel" where
  "on_queues f s = s\<lparr>queues := f (queues s)\<rparr>"

definition upd_lock :: "u32 \<Rightarrow> (lock \<Rightarrow> lock) \<Rightarrow> kernel \<Rightarrow> kernel" where
  "upd_lock l f s = s\<lparr>locks := (locks s)(l := f (locks s l))\<rparr>"

definition upd_file :: "u32 \<Rightarrow> (FD \<Rightarrow> FD) \<Rightarrow> kernel \<Rightarrow> kernel" where
  "upd_file x f s = s\<lparr>files := (files s)(x := f (files s x))\<rparr>"

text \<open>The allocators of the lower layers, run on the kernel's state.\<close>

definition on_pages :: "(kmem \<Rightarrow> ('a \<times> kmem) result) \<Rightarrow> kernel \<Rightarrow> ('a \<times> kernel) result" where
  "on_pages f s = res_bind (f (pages (kheap (paging s)))) (\<lambda>(x, p).
     Inr (x, s\<lparr>paging := (paging s)\<lparr>kheap := (kheap (paging s))\<lparr>pages := p\<rparr>\<rparr>\<rparr>))"

definition pages_do :: "(kmem \<Rightarrow> kmem result) \<Rightarrow> kernel \<Rightarrow> kernel result" where
  "pages_do f s = res_bind (f (pages (kheap (paging s)))) (\<lambda>p.
     Inr (s\<lparr>paging := (paging s)\<lparr>kheap := (kheap (paging s))\<lparr>pages := p\<rparr>\<rparr>\<rparr>))"

definition on_heap :: "(kheap \<Rightarrow> ('a \<times> kheap) result) \<Rightarrow> kernel \<Rightarrow> ('a \<times> kernel) result" where
  "on_heap f s = res_bind (f (kheap (paging s))) (\<lambda>(x, h). Inr (x, s\<lparr>paging := (paging s)\<lparr>kheap := h\<rparr>\<rparr>))"

definition heap_do :: "(kheap \<Rightarrow> kheap result) \<Rightarrow> kernel \<Rightarrow> kernel result" where
  "heap_do f s = res_bind (f (kheap (paging s))) (\<lambda>h. Inr (s\<lparr>paging := (paging s)\<lparr>kheap := h\<rparr>\<rparr>))"

text \<open>The counter of clock ticks is kept with the heap, which stamps its slabs with it.\<close>

definition ticks :: "kernel \<Rightarrow> u64" where
  "ticks s = tick_count (kheap (paging s))"

definition rdtscl :: "kernel \<Rightarrow> u64 \<times> kernel" where
  "rdtscl s = (clock s (tsc_reads s), s\<lparr>tsc_reads := tsc_reads s + 1\<rparr>)"

section \<open>Interrupts\<close>

definition disable_int :: "kernel \<Rightarrow> bool \<times> kernel" where
  "disable_int s = (ints s, s\<lparr>ints := False\<rparr>)"

definition enable_int :: "bool \<Rightarrow> kernel \<Rightarrow> kernel" where
  "enable_int prev_state s = (if prev_state then s\<lparr>ints := True\<rparr> else s)"

section \<open>The queues of threads\<close>

definition stop_thread :: "u32 \<Rightarrow> kernel \<Rightarrow> kernel" where
  "stop_thread p s =
     (if th_pid (threads s p) = IDLE_PID then s
      else
        let (pi, s) = disable_int s;
            s = upd_thread p (\<lambda>t. t\<lparr>th_state := TASK_STOPPED\<rparr>) s;
            s = on_queues (list_remove (THead p)) s;
            s = on_queues (list_add_head StoppedQueue (THead p)) s
        in enable_int pi s)"

definition sleep_thread :: "u32 \<Rightarrow> kernel \<Rightarrow> kernel" where
  "sleep_thread p s =
     (if th_pid (threads s p) = IDLE_PID then s
      else
        let (pi, s) = disable_int s;
            s = upd_thread p (\<lambda>t. t\<lparr>th_state := TASK_INTERRUPTIBLE\<rparr>) s;
            s = on_queues (list_remove (THead p)) s;
            s = on_queues (list_add_head SleepQueue (THead p)) s
        in enable_int pi s)"

definition wake_up_thread :: "u32 \<Rightarrow> kernel \<Rightarrow> kernel" where
  "wake_up_thread p s =
     (let (pi, s) = disable_int s;
          s = upd_thread p (\<lambda>t. t\<lparr>th_state := TASK_RUNNABLE\<rparr>) s;
          s = on_queues (list_remove (THead p)) s;
          s = on_queues (list_add_tail RunningQueue (THead p)) s
      in enable_int pi s)"

definition sleep_on_lock :: "u32 \<Rightarrow> u32 \<Rightarrow> kernel \<Rightarrow> kernel" where
  "sleep_on_lock t l s = sleep_thread t (upd_thread t (\<lambda>x. x\<lparr>sleeping_lock := l\<rparr>) s)"

section \<open>Searching and adopting\<close>

definition get_thread_body ::
  "u32 \<Rightarrow> kernel \<Rightarrow> knode \<Rightarrow> u32 option result \<Rightarrow> u32 option result \<times> bool" where
  "get_thread_body pid s l found =
     (case l of
        TProc t \<Rightarrow> if ucast (th_pid (threads s t)) = pid then (Inr (Some t), True) else (found, False)
      | _ \<Rightarrow> (Inl BadPointer, True))"

definition get_thread :: "u32 \<Rightarrow> kernel \<Rightarrow> (u32 option \<times> kernel) result" where
  "get_thread pid s =
     (let (pi, s) = disable_int s in
      res_bind (returns (list_for_each_safe (\<lambda>_. nxt (queues s)) (get_thread_body pid s) KThreads (Inr None)))
        (\<lambda>found. res_bind found (\<lambda>t. Inr (t, enable_int pi s))))"

text \<open>Loops whose body changes the kernel: a failure of the body ends the loop.\<close>

definition state_next :: "('k \<Rightarrow> kernel) \<Rightarrow> 'k result \<Rightarrow> knode \<Rightarrow> knode" where
  "state_next st r = (case r of Inr k \<Rightarrow> nxt (queues (st k)) | Inl _ \<Rightarrow> (\<lambda>n. n))"

definition body_of :: "(knode \<Rightarrow> 'k \<Rightarrow> ('k \<times> bool) result) \<Rightarrow> knode \<Rightarrow> 'k result \<Rightarrow> 'k result \<times> bool" where
  "body_of f l r =
     (case r of
        Inl e \<Rightarrow> (Inl e, True)
      | Inr k \<Rightarrow> (case f l k of Inl e \<Rightarrow> (Inl e, True) | Inr (k', stop) \<Rightarrow> (Inr k', stop)))"

definition each ::
  "('k \<Rightarrow> kernel) \<Rightarrow> (knode \<Rightarrow> 'k \<Rightarrow> ('k \<times> bool) result) \<Rightarrow> knode \<Rightarrow> 'k \<Rightarrow> 'k result" where
  "each st f head k =
     res_bind (returns (list_for_each (state_next st) (body_of f) head (Inr k))) (\<lambda>r. r)"

definition each_safe ::
  "('k \<Rightarrow> kernel) \<Rightarrow> (knode \<Rightarrow> 'k \<Rightarrow> ('k \<times> bool) result) \<Rightarrow> knode \<Rightarrow> 'k \<Rightarrow> 'k result" where
  "each_safe st f head k =
     res_bind (returns (list_for_each_safe (state_next st) (body_of f) head (Inr k))) (\<lambda>r. r)"

text \<open>The adopter is always \<^verbatim>\<open>init_thread\<close>, whatever is passed. The result has no second component
  that stops the loop.\<close>

definition reparent_body :: "u32 \<Rightarrow> knode \<Rightarrow> kernel \<Rightarrow> (kernel \<times> bool) result" where
  "reparent_body adopter l s =
     (case l of
        TSiblings p1 \<Rightarrow>
          let s = on_queues (list_remove (TSiblings p1)) s;
              s = upd_thread p1 (\<lambda>t. t\<lparr>father := adopter\<rparr>) s;
              s = on_queues (list_add_head (TChildren adopter) (TSiblings p1)) s
          in Inr (s, False)
      | _ \<Rightarrow> Inl BadPointer)"

definition reparent :: "u32 \<Rightarrow> knode \<Rightarrow> kernel \<Rightarrow> kernel result" where
  "reparent adopter adoptees s =
     (let adopter = init_thread s in each_safe (\<lambda>s. s) (reparent_body adopter) adoptees s)"

end
