(* ===== verification/Threads.thy ===== *)
theory Threads
  imports Kernel
begin

text \<open>
  \<^verbatim>\<open>kernel/signals.c\<close>, the rest of \<^verbatim>\<open>proc/thread.c\<close>, \<^verbatim>\<open>kernel/scheduler.c\<close> and the handler of
  \<^verbatim>\<open>drivers/timer.c\<close>: signals, the death of a process, timers and the scheduler.
\<close>

section \<open>Signals\<close>

definition SIG_NUM :: nat where "SIG_NUM = 32"
definition ALL_SIGNALS :: u32 where "ALL_SIGNALS = 0xFFFFFFFF"
definition SIGKILL :: u32 where "SIGKILL = push_bit 9 1"
definition SIGCKO :: u32 where "SIGCKO = push_bit 10 1"

definition init_signals :: "u32 \<Rightarrow> kernel \<Rightarrow> kernel" where
  "init_signals t s = upd_thread t (\<lambda>x. x\<lparr>sig_active := ALL_SIGNALS, sig_pending := 0\<rparr>) s"

definition sys_kill :: "u32 \<Rightarrow> u32 \<Rightarrow> kernel \<Rightarrow> (u32 \<times> kernel) result" where
  "sys_kill pid signal s =
     res_bind (get_thread pid s) (\<lambda>(t, s).
       case t of
         Some t \<Rightarrow>
           Inr (signal, upd_thread t (\<lambda>x. x\<lparr>sig_pending := sig_pending x OR (sig_active x AND signal)\<rparr>) s)
       | None \<Rightarrow> Inr (- 1, s))"

definition child_awoken :: "u32 \<Rightarrow> kernel \<Rightarrow> (u32 \<times> kernel) result" where
  "child_awoken pid s =
     res_bind (get_thread pid s) (\<lambda>(t, s).
       case t of
         Some t \<Rightarrow>
           let s = upd_thread t (\<lambda>x. x\<lparr>sig_pending := sig_pending x OR (sig_active x AND SIGCKO)\<rparr>) s;
               prev_state = th_state (threads s t);
               (pi, s) = disable_int s;
               s = wake_up_thread t s;
               s = upd_thread t (\<lambda>x. x\<lparr>th_state := prev_state\<rparr>) s
           in Inr (SIGCKO, enable_int pi s)
       | None \<Rightarrow> Inr (- 1, s))"

section \<open>The death of a process\<close>

definition kill_timer_body :: "u32 \<Rightarrow> knode \<Rightarrow> kernel \<Rightarrow> (kernel \<times> bool) result" where
  "kill_timer_body p l s =
     (case l of
        TimerQ t \<Rightarrow>
          if th_pid (threads s (tm_thread (timers s t))) = th_pid (threads s p)
          then res_bind (pages_do (ffree t) (on_queues (list_remove (TimerQ t)) s)) (\<lambda>s. Inr (s, True))
          else Inr (s, False)
      | _ \<Rightarrow> Inl BadPointer)"

definition kill_process :: "u32 \<Rightarrow> kernel \<Rightarrow> kernel result" where
  "kill_process p s =
     (if th_pid (threads s p) = IDLE_PID then Inr s
      else
        let s = stop_thread p s;
            (pi, s) = disable_int s in
        res_bind (each_safe (\<lambda>s. s) (kill_timer_body p) KernelTimers s) (\<lambda>s.
        let s = enable_int pi s in
        res_bind (child_awoken (ucast (th_pid (threads s (father (threads s p))))) s) (\<lambda>(_, s). Inr s)))"

section \<open>Delivering signals\<close>

text \<open>\<^verbatim>\<open>handle_signals\<close> for \<^verbatim>\<open>SIGCKO\<close>: the loops over the children of the thread, one that sees
  whether they have all ended and adopts the children of the one that is waited for, and one
  that adopts the children of all, turning stopped children into zombies.\<close>

definition ended :: "u32 \<Rightarrow> kernel \<Rightarrow> bool" where
  "ended t s \<longleftrightarrow> th_state (threads s t) = TASK_STOPPED \<or> th_state (threads s t) = TASK_ZOMBIE"

definition cko_body :: "u32 \<Rightarrow> knode \<Rightarrow> bool \<times> bool \<times> kernel \<Rightarrow> ((bool \<times> bool \<times> kernel) \<times> bool) result" where
  "cko_body t l = (\<lambda>(all_ko, wait4pid, s).
     (case l of
        TSiblings p1 \<Rightarrow>
          let all_ko = (if \<not> ended p1 s then False else all_ko)
          in if wait4 (threads s t) = ucast (th_pid (threads s p1)) \<and> ended p1 s
             then res_bind (reparent t (TChildren p1) s) (\<lambda>s. Inr ((all_ko, True, s), False))
             else Inr ((all_ko, wait4pid, s), False)
      | _ \<Rightarrow> Inl BadPointer))"

definition adopt_body :: "u32 \<Rightarrow> knode \<Rightarrow> kernel \<Rightarrow> (kernel \<times> bool) result" where
  "adopt_body t l s =
     (case l of
        TSiblings p1 \<Rightarrow> res_bind (reparent t (TChildren p1) s) (\<lambda>s. Inr (s, False))
      | _ \<Rightarrow> Inl BadPointer)"

definition zombie_body :: "u32 \<Rightarrow> knode \<Rightarrow> kernel \<Rightarrow> (kernel \<times> bool) result" where
  "zombie_body t l s =
     (case l of
        TSiblings p1 \<Rightarrow>
          if th_state (threads s p1) = TASK_STOPPED
          then res_bind (reparent t (TChildren p1) s) (\<lambda>s.
                 Inr (upd_thread p1 (\<lambda>x. x\<lparr>th_state := TASK_ZOMBIE\<rparr>) s, False))
          else Inr (s, False)
      | _ \<Rightarrow> Inl BadPointer)"

definition handle_cko :: "u32 \<Rightarrow> bool \<Rightarrow> kernel \<Rightarrow> (bool \<times> kernel) result" where
  "handle_cko t ret s =
     res_bind (each (\<lambda>(_, _, s). s) (cko_body t) (TChildren t) (True, False, s)) (\<lambda>(all_ko, wait4pid, s).
     res_bind (if wait4child (threads s t) \<and> all_ko then each (\<lambda>s. s) (adopt_body t) (TChildren t) s
               else Inr s) (\<lambda>s.
     let (ret, s) = (if wait4child (threads s t) \<and> \<not> all_ko then (False, sleep_thread t s) else (ret, s)) in
     if \<not> wait4child (threads s t) \<and> \<not> wait4pid then
       res_bind (each (\<lambda>s. s) (zombie_body t) (TChildren t) s) (\<lambda>s.
         if th_state (threads s t) = TASK_INTERRUPTIBLE then Inr (False, sleep_thread t s)
         else Inr (ret, s))
     else Inr (ret, s)))"

text \<open>One round of the loop over the signal numbers. The shift count 32 of the last round is
  undefined in C; the processor takes it modulo 32.\<close>

definition signal_bit :: "nat \<Rightarrow> u32" where
  "signal_bit i = push_bit (i mod 32) 1"

definition signal_round :: "u32 \<Rightarrow> nat \<Rightarrow> bool \<times> kernel \<Rightarrow> (bool \<times> kernel) result" where
  "signal_round t i = (\<lambda>(ret, s).
     if (sig_pending (threads s t) AND sig_active (threads s t)) AND signal_bit i \<noteq> 0 then
       let s = upd_thread t (\<lambda>x. x\<lparr>sig_pending := sig_pending x AND NOT (signal_bit i)\<rparr>) s in
       if signal_bit i = SIGKILL then
         res_bind (kill_process t s) (\<lambda>s. Inr (False, upd_thread t (\<lambda>x. x\<lparr>exit_value := 0\<rparr>) s))
       else if signal_bit i = SIGCKO then handle_cko t ret s
       else Inr (ret, s)
     else Inr (ret, s))"

fun signal_rounds :: "u32 \<Rightarrow> nat list \<Rightarrow> bool \<times> kernel \<Rightarrow> (bool \<times> kernel) result" where
  "signal_rounds t [] rs = Inr rs"
| "signal_rounds t (i # is) rs = res_bind (signal_round t i rs) (signal_rounds t is)"

definition handle_signals :: "u32 \<Rightarrow> kernel \<Rightarrow> (bool \<times> kernel) result" where
  "handle_signals t s =
     (if t = NULL then Inr (True, s)
      else if sig_pending (threads s t) = 0 then Inr (True, s)
      else signal_rounds t [1..<SIG_NUM + 1] (True, s))"

section \<open>Time\<close>

definition RTC_PHASE :: nat where "RTC_PHASE = 5"
definition RTC_FREQ :: u32 where "RTC_FREQ = drop_bit (RTC_PHASE - 1) 32768"

text \<open>The product is taken in 32 bits in \<^verbatim>\<open>millis_to_ticks\<close>, in 64 bits in \<^verbatim>\<open>ticks_to_millis\<close>.\<close>

definition millis_to_ticks :: "u32 \<Rightarrow> u64" where
  "millis_to_ticks millis = ucast (millis * RTC_FREQ div 1000)"

definition ticks_to_millis :: "u64 \<Rightarrow> u32" where
  "ticks_to_millis tickCount = ucast (1000 * tickCount div ucast RTC_FREQ)"

definition get_uptime :: "kernel \<Rightarrow> u32" where
  "get_uptime s = ticks_to_millis (ticks s)"

section \<open>The scheduler\<close>

text \<open>The loop over the running queue keeps the number of threads, the sum of their \<^verbatim>\<open>nice\<close> values,
  the least runtime and its thread.\<close>

record pick =
  proc_num :: u32
  pTot :: u32
  min_runtime :: u64
  next_pick :: u32

definition pick_body :: "kernel \<Rightarrow> knode \<Rightarrow> pick result \<Rightarrow> pick result \<times> bool" where
  "pick_body s l r =
     (case r of Inl e \<Rightarrow> (Inl e, True) | Inr k \<Rightarrow>
     (case l of
        THead p \<Rightarrow>
          let k = (if proc_num k = 0 then k\<lparr>min_runtime := runtime (threads s p), next_pick := p\<rparr>
                   else if runtime (threads s p) < min_runtime k
                   then k\<lparr>min_runtime := runtime (threads s p), next_pick := p\<rparr> else k)
          in (Inr (k\<lparr>pTot := pTot k + ucast (nice (threads s p)), proc_num := proc_num k + 1\<rparr>), False)
      | _ \<Rightarrow> (Inl BadPointer, True)))"

definition new_timeslice :: "u32 \<Rightarrow> u32 \<Rightarrow> u8 \<Rightarrow> u32" where
  "new_timeslice n tot nc =
     (let pAvg = tot div n;
          q = MAX_QUANTUM_MS div n;
          penalty = (pAvg - ucast nc) * P_PENALTY;
          q = q + penalty
      in if sint q \<le> 0 then ucast (millis_to_ticks MIN_QUANTUM_MS) else ucast (millis_to_ticks q))"

definition pick_next_thread :: "kernel \<Rightarrow> (u32 \<times> kernel) result" where
  "pick_next_thread s =
     (let (pi, s) = disable_int s in
      res_bind (returns (list_for_each (\<lambda>_. nxt (queues s)) (pick_body s) RunningQueue
        (Inr \<lparr>proc_num = 0, pTot = 0, min_runtime = 0, next_pick = NULL\<rparr>))) (\<lambda>r.
      res_bind r (\<lambda>k.
        if proc_num k = 0 then Inl DivideError
        else
          let s = upd_thread (next_pick k)
                (\<lambda>x. x\<lparr>timeslice := new_timeslice (proc_num k) (pTot k) (nice x)\<rparr>) s
          in Inr (next_pick k, enable_int pi s))))"

text \<open>\<^verbatim>\<open>_switch_to_thread\<close>: the processor goes on with the other thread's stack and directory.\<close>

definition switch_to_thread :: "u32 \<Rightarrow> kernel \<Rightarrow> kernel" where
  "switch_to_thread next s = s\<lparr>current_thread := next\<rparr>"

partial_function (option) reschedule_loop :: "kernel \<Rightarrow> kernel result option" where
  "reschedule_loop s =
     (case pick_next_thread s of
        Inl e \<Rightarrow> Some (Inl e)
      | Inr (next, s) \<Rightarrow>
          (let (now, s) = rdtscl s;
               s = upd_thread next (\<lambda>x. x\<lparr>last_activation := now\<rparr>) s;
               c = current_thread s;
               s = (if c \<noteq> idle_thread s
                    then upd_thread c (\<lambda>x. x\<lparr>runtime := runtime x + (now - last_activation x),
                           timeslice := timeslice x - 1\<rparr>) s
                    else s)
           in case handle_signals next s of
                Inl e \<Rightarrow> Some (Inl e)
              | Inr (ok, s) \<Rightarrow>
                  if ok then Some (Inr (switch_to_thread next s)) else reschedule_loop s))"

definition reschedule :: "kernel \<Rightarrow> kernel result" where
  "reschedule s = res_bind (returns (reschedule_loop s)) (\<lambda>r. r)"

section \<open>Timers\<close>

definition wake_timer_body :: "knode \<Rightarrow> u32 \<times> kernel \<Rightarrow> ((u32 \<times> kernel) \<times> bool) result" where
  "wake_timer_body l = (\<lambda>(c, s).
     (case l of
        TimerQ t \<Rightarrow>
          if ticks s \<ge> ucast (expiration (timers s t)) then
            let s = on_queues (list_remove (TimerQ t)) s;
                th = tm_thread (timers s t);
                s = upd_thread th (\<lambda>x. x\<lparr>th_state := TASK_RUNNABLE\<rparr>) s;
                s = on_queues (list_remove (THead th)) s;
                s = on_queues (list_add_tail RunningQueue (THead th)) s
            in res_bind (pages_do (ffree t) s) (\<lambda>s. Inr ((c + 1, s), False))
          else Inr ((c, s), False)
      | _ \<Rightarrow> Inl BadPointer))"

definition wake_up_timers :: "kernel \<Rightarrow> (u32 \<times> kernel) result" where
  "wake_up_timers s =
     (let (pi, s) = disable_int s in
      res_bind (each_safe snd wake_timer_body KernelTimers (0, s)) (\<lambda>(c, s).
        Inr (c, enable_int pi s)))"

text \<open>\<^verbatim>\<open>sizeof(Timer)\<close> is 16 on the 32-bit target. The 64-bit expiry is stored in 32 bits.\<close>

definition add_timer :: "u32 \<Rightarrow> kernel \<Rightarrow> kernel result" where
  "add_timer ms s =
     (let (pi, s) = disable_int s in
      res_bind (on_pages (fmalloc 16) s) (\<lambda>(t, s).
        let s = s\<lparr>timers := (timers s)(t := \<lparr>expiration = ucast (millis_to_ticks ms + ticks s),
                  tm_thread = current_thread s\<rparr>)\<rparr>;
            s = on_queues (list_add_head KernelTimers (TimerQ t)) s
        in Inr (enable_int pi s)))"

definition sleep_ms :: "u32 \<Rightarrow> kernel \<Rightarrow> kernel result" where
  "sleep_ms ms s =
     res_bind (add_timer ms s) (\<lambda>s. reschedule (sleep_thread (current_thread s) s))"

text \<open>The handler of the clock interrupt; the acknowledgements written to the ports are left out.
  What \<^verbatim>\<open>handle_signals\<close> returns is ignored at the end.\<close>

definition clock_end :: "kernel \<Rightarrow> kernel result" where
  "clock_end s =
     (let (now, s) = rdtscl s;
          c = current_thread s;
          s = (if c \<noteq> idle_thread s
               then upd_thread c (\<lambda>x. x\<lparr>runtime := runtime x + (now - last_activation x)\<rparr>) s else s);
          s = upd_thread c (\<lambda>x. x\<lparr>last_activation := now\<rparr>) s;
          s = (if timeslice (threads s c) > 0 then upd_thread c (\<lambda>x. x\<lparr>timeslice := timeslice x - 1\<rparr>) s else s)
      in res_bind (handle_signals c s) (\<lambda>(_, s). Inr s))"

definition scheduler_handler :: "kernel \<Rightarrow> kernel result" where
  "scheduler_handler s =
     (let s = s\<lparr>paging := (paging s)\<lparr>kheap := (kheap (paging s))\<lparr>tick_count := ticks s + 1\<rparr>\<rparr>\<rparr> in
      res_bind (wake_up_timers s) (\<lambda>(_, s).
        if current_thread s \<noteq> NULL \<and> timeslice (threads s (current_thread s)) > 0 then clock_end s
        else res_bind (pick_next_thread s) (\<lambda>(next, s).
          if current_thread s = next then clock_end s
          else if next \<noteq> NULL then
            let s = (if timeslice (threads s next) > 0
                     then upd_thread next (\<lambda>x. x\<lparr>timeslice := timeslice x - 1\<rparr>) s else s);
                (now, s) = rdtscl s;
                s = upd_thread next (\<lambda>x. x\<lparr>last_activation := now\<rparr>) s;
                c = current_thread s;
                s = (if c \<noteq> NULL \<and> c \<noteq> idle_thread s
                     then upd_thread c (\<lambda>x. x\<lparr>runtime := runtime x +
                            (last_activation (threads s next) - last_activation x)\<rparr>) s
                     else s)
            in Inr (switch_to_thread next s)
          else clock_end s)))"

end
