(* ===== verification/Sched_Props.thy ===== *)
theory Sched_Props
  imports Threads
begin

text \<open>
  What the scheduler does with the queues of threads: the queues as three sequences, the
  operations on them, the choice of the next thread, signals and the end of \<^verbatim>\<open>reschedule\<close>.
\<close>

section \<open>Interrupts\<close>

lemma ints_restored [simp]:
  "enable_int (ints s) (s\<lparr>ints := False\<rparr>) = s"
  by (simp add: enable_int_def)

section \<open>Bounds on time\<close>

lemma RTC_FREQ_val: "RTC_FREQ = 2048"
  by (simp add: RTC_FREQ_def RTC_PHASE_def)

lemma millis_to_ticks_val: "unat (millis_to_ticks ms) = unat ms * 2048 mod 4294967296 div 1000"
proof -
  have "unat (ms * 2048 div 1000 :: u32) = unat ms * 2048 mod 4294967296 div 1000"
    by (simp add: unat_div unat_word_ariths)
  moreover have "unat (ucast (ms * 2048 div 1000 :: u32) :: u64) = unat (ms * 2048 div 1000 :: u32)"
    using unsigned_less[of "ms * 2048 div 1000", where 'a = nat]
    by (simp add: unsigned_ucast_eq take_bit_eq_mod)
  ultimately show ?thesis by (simp add: millis_to_ticks_def RTC_FREQ_val)
qed

lemma ticks_small: "unat q < 2097152 \<Longrightarrow> unat (ucast (millis_to_ticks q) :: u32) = unat q * 2048 div 1000"
  using millis_to_ticks_val[of q] by (simp add: unsigned_ucast_eq take_bit_eq_mod less_mult_imp_div_less)

text \<open>
  C37: \<^verbatim>\<open>millis_to_ticks\<close> is exact for fewer than 2097152 milliseconds (35 minutes); from there on
  the 32-bit product wraps.
\<close>

theorem millis_to_ticks_exact_iff:
  "unat (millis_to_ticks ms) = unat ms * 2048 div 1000 \<longleftrightarrow> unat ms < 2097152"
proof -
  note eq = millis_to_ticks_val[of ms]
  show ?thesis
  proof
    assume "unat ms < 2097152"
    then show "unat (millis_to_ticks ms) = unat ms * 2048 div 1000" by (simp add: eq)
  next
    assume e: "unat (millis_to_ticks ms) = unat ms * 2048 div 1000"
    show "unat ms < 2097152"
    proof (rule ccontr)
      assume "\<not> unat ms < 2097152"
      define x where "x = unat ms * 2048"
      have "x = 4294967296 * (x div 4294967296) + x mod 4294967296" by simp
      moreover have "1 \<le> x div 4294967296"
        using \<open>\<not> unat ms < 2097152\<close> by (simp add: x_def less_eq_div_iff_mult_less_eq)
      ultimately have "4294967000 + x mod 4294967296 \<le> x" by linarith
      then have "(4294967000 + x mod 4294967296) div 1000 \<le> x div 1000" by (rule div_le_mono)
      then show False using e eq by (simp add: x_def)
    qed
  qed
qed

section \<open>Bounds on the timeslice\<close>

text \<open>Whatever the priorities, the timeslice is at least 2 and at most 3020 ticks: the penalty for the
  priority never starves a thread, and the arithmetic on 32 bits never wraps.\<close>

lemma timeslice_bounds:
  assumes "0 < n" "unat tot \<le> 255 * unat n"
  shows "2 \<le> new_timeslice n tot nc \<and> new_timeslice n tot nc \<le> 3020"
proof -
  define q where "q = MAX_QUANTUM_MS div n + (tot div n - ucast nc) * P_PENALTY"
  have n: "0 < unat n" using assms(1) by (simp add: word_less_nat_alt)
  have a: "unat (tot div n) \<le> 255" "unat (200 div n) \<le> 200"
    using assms(2) n by (auto simp: unat_div div_le_mono less_eq_div_iff_mult_less_eq div_le_dividend
        intro: order_trans[OF div_le_mono[OF assms(2)]])
  have b: "unat (ucast nc :: u32) \<le> 255"
    using unsigned_less[of nc, where 'a = nat] by (simp add: unsigned_ucast_eq take_bit_eq_mod)
  have "q = word_of_int (int (unat (200 div n)) + (int (unat (tot div n)) - int (unat (ucast nc :: u32))) * 5)"
    by (simp add: q_def MAX_QUANTUM_MS_def P_PENALTY_def)
  moreover define z where "z = int (unat (200 div n)) + (int (unat (tot div n)) - int (unat (ucast nc :: u32))) * 5"
  ultimately have q: "q = word_of_int z" by simp
  have "i \<le> 255 \<Longrightarrow> j \<le> 200 \<Longrightarrow> k \<le> 255 \<Longrightarrow>
      - 1275 \<le> int j + (int i - int k) * 5 \<and> int j + (int i - int k) * 5 \<le> 1475" for i j k :: nat
    by (auto simp: algebra_simps)
  from this[OF a(1,2) b] have z: "- 1275 \<le> z" "z \<le> 1475" unfolding z_def by blast+
  have s: "sint q = z" using z by (simp add: q sint_sbintrunc' signed_take_bit_int_eq_self)
  show ?thesis
  proof (cases "sint q \<le> 0")
    case True
    then show ?thesis
      by (simp add: new_timeslice_def Let_def flip: q_def)
        (simp add: millis_to_ticks_def RTC_FREQ_val MIN_QUANTUM_MS_def)
  next
    case False
    then have u: "unat q = nat z" using z s by (simp add: q unsigned_of_int take_bit_int_eq_self)
    have "unat (ucast (millis_to_ticks q) :: u32) = nat z * 2048 div 1000"
      using z u ticks_small[of q] by simp
    moreover have "2 \<le> nat z * 2048 div 1000" "nat z * 2048 div 1000 \<le> 3020"
      using z False s by auto
    ultimately show ?thesis using False
      by (simp add: new_timeslice_def Let_def word_le_nat_alt flip: q_def)
  qed
qed

section \<open>The queues as sequences\<close>

text \<open>\<open>sched s q\<close>: the three queues carry the threads of \<open>q\<close>, and every thread has the state of its
  queue. A thread that was just created is on none: its node is linked to itself.\<close>

datatype place = Running | Sleeping | Stopped

primrec head_of :: "place \<Rightarrow> knode" where
  "head_of Running = RunningQueue"
| "head_of Sleeping = SleepQueue"
| "head_of Stopped = StoppedQueue"

primrec state_of :: "place \<Rightarrow> u32" where
  "state_of Running = TASK_RUNNABLE"
| "state_of Sleeping = TASK_INTERRUPTIBLE"
| "state_of Stopped = TASK_STOPPED"

fun seq_at :: "(place \<Rightarrow> u32 list) \<Rightarrow> knode \<Rightarrow> knode list" where
  "seq_at q RunningQueue = map THead (q Running)"
| "seq_at q SleepQueue = map THead (q Sleeping)"
| "seq_at q StoppedQueue = map THead (q Stopped)"
| "seq_at q _ = []"

definition queue_heads :: "knode set" where
  "queue_heads = {RunningQueue, SleepQueue, StoppedQueue}"

definition on_queue :: "(place \<Rightarrow> u32 list) \<Rightarrow> u32 \<Rightarrow> bool" where
  "on_queue q t \<longleftrightarrow> t \<in> set (q Running) \<or> t \<in> set (q Sleeping) \<or> t \<in> set (q Stopped)"

definition in_place :: "kernel \<Rightarrow> (place \<Rightarrow> u32 list) \<Rightarrow> place \<Rightarrow> bool" where
  "in_place s q p \<longleftrightarrow> (\<forall>t\<in>set (q p). th_state (threads s t) = state_of p)"

definition sched :: "kernel \<Rightarrow> (place \<Rightarrow> u32 list) \<Rightarrow> bool" where
  "sched s q \<longleftrightarrow> rings (queues s) queue_heads (seq_at q) \<and>
     in_place s q Running \<and> in_place s q Sleeping \<and> in_place s q Stopped"

definition fresh :: "kernel \<Rightarrow> u32 \<Rightarrow> bool" where
  "fresh s t \<longleftrightarrow> nxt (queues s) (THead t) = THead t \<and> prv (queues s) (THead t) = THead t"

definition without :: "u32 \<Rightarrow> (place \<Rightarrow> u32 list) \<Rightarrow> place \<Rightarrow> u32 list" where
  "without t q p = filter (\<lambda>u. u \<noteq> t) (q p)"

lemma head_of_heads [simp]: "head_of p \<in> queue_heads"
  by (cases p) (auto simp: queue_heads_def)

lemma seq_at_head_of [simp]: "seq_at q (head_of p) = map THead (q p)"
  by (cases p) auto

lemma head_of_eq [simp]: "head_of p = head_of p' \<longleftrightarrow> p = p'"
  by (cases p; cases p') auto

lemma THead_not_head [simp]: "THead t \<notin> queue_heads"
  by (auto simp: queue_heads_def)

lemma heads_cases: "h \<in> queue_heads \<longleftrightarrow> (\<exists>p. h = head_of p)"
  unfolding queue_heads_def
proof safe
  show "\<exists>p. RunningQueue = head_of p" by (rule exI[of _ Running]) simp
  show "\<exists>p. SleepQueue = head_of p" by (rule exI[of _ Sleeping]) simp
  show "\<exists>p. StoppedQueue = head_of p" by (rule exI[of _ Stopped]) simp
next
  fix p assume "head_of p \<noteq> RunningQueue" "head_of p \<noteq> SleepQueue"
  then show "head_of p = StoppedQueue" by (cases p) auto
qed

lemma linked_heads: "THead t \<in> linked queue_heads (seq_at q) \<longleftrightarrow> on_queue q t"
  by (auto simp: linked_def on_queue_def queue_heads_def)

lemma linked_eq: "linked queue_heads (seq_at q) = queue_heads \<union> THead ` {t. on_queue q t}"
  by (auto simp: linked_def on_queue_def queue_heads_def)

lemma on_queue_place: "on_queue q t \<longleftrightarrow> (\<exists>p. t \<in> set (q p))"
proof
  show "on_queue q t \<Longrightarrow> \<exists>p. t \<in> set (q p)" by (auto simp: on_queue_def)
  show "\<exists>p. t \<in> set (q p) \<Longrightarrow> on_queue q t"
  proof (elim exE)
    fix p assume "t \<in> set (q p)"
    then show "on_queue q t" by (cases p) (auto simp: on_queue_def)
  qed
qed

lemma rings_seq_cong:
  "(\<And>a. a \<in> Hs \<Longrightarrow> ls a = ls' a) \<Longrightarrow> rings h Hs ls = rings h Hs ls'"
  by (simp add: rings_def cong: ball_cong)

lemma rings_neighbours:
  assumes "rings h Hs ls" "a \<in> Hs" "x \<in> set (a # ls a)"
  shows "nxt h x \<in> linked Hs ls \<and> prv h x \<in> linked Hs ls"
  using ring_neighbours[OF rings_ring[OF assms(1,2)] assms(3)] assms(2) unfolding linked_def by auto

lemma remove1_THead:
  "distinct xs \<Longrightarrow> remove1 (THead t) (map THead xs) = map THead (filter (\<lambda>u. u \<noteq> t) xs)"
proof (induction xs)
  case (Cons x xs)
  then have "x = t \<Longrightarrow> filter (\<lambda>u. u \<noteq> t) xs = xs" by (intro filter_True) auto
  with Cons show ?case by (cases "x = t") simp_all
qed simp

text \<open>Taking a thread off its queue: the sequences without it, and no list leads to it.\<close>

lemma take_off:
  assumes r: "rings h queue_heads (seq_at q)"
    and t: "on_queue q t \<or> (nxt h (THead t) = THead t \<and> prv h (THead t) = THead t)"
  shows "rings (list_remove (THead t) h) queue_heads (seq_at (without t q)) \<and>
    THead t \<notin> linked queue_heads (seq_at (without t q))"
proof
  show "THead t \<notin> linked queue_heads (seq_at (without t q))"
    by (auto simp: linked_heads on_queue_def without_def)
  show "rings (list_remove (THead t) h) queue_heads (seq_at (without t q))"
  proof (cases "on_queue q t")
    case False
    then have "list_remove (THead t) h = h"
      using t list_remove_unlinked[of h "THead t"] by simp
    moreover have "without t q p = q p" for p
    proof -
      have "\<forall>u\<in>set (q p). u \<noteq> t" using False unfolding on_queue_place by metis
      then show ?thesis unfolding without_def by (rule filter_True)
    qed
    then have "without t q = q" by (rule ext)
    ultimately show ?thesis using r by simp
  next
    case True
    then obtain p where p: "t \<in> set (q p)" by (auto simp: on_queue_place)
    have d: "distinct (map THead (q p))" using rings_distinct[OF r, of "head_of p"] by simp
    have other: "t \<notin> set (q p')" if "p' \<noteq> p" for p'
      using rings_mem_unique[OF r, of "head_of p" "head_of p'" "THead t"] p that by auto
    have "rings (list_remove (THead t) h) queue_heads
        ((seq_at q)(head_of p := remove1 (THead t) (seq_at q (head_of p))))"
      by (rule rings_remove[OF r]) (use p in auto)
    then show ?thesis
    proof (rule rings_seq_cong[THEN iffD1, rotated])
      fix a assume "a \<in> queue_heads"
      then obtain p' where a: "a = head_of p'" by (auto simp: heads_cases)
      show "((seq_at q)(head_of p := remove1 (THead t) (seq_at q (head_of p)))) a = seq_at (without t q) a"
      proof (cases "p' = p")
        case True
        have "remove1 (THead t) (map THead (q p)) = map THead (filter (\<lambda>u. u \<noteq> t) (q p))"
          using d by (intro remove1_THead) (simp add: distinct_map)
        then show ?thesis using True by (simp add: a without_def)
      next
        case False
        then have "\<forall>u\<in>set (q p'). u \<noteq> t" using other[OF False] by metis
        then have "filter (\<lambda>u. u \<noteq> t) (q p') = q p'" by (rule filter_True)
        then show ?thesis using False by (simp add: a without_def)
      qed
    qed
  qed
qed

text \<open>Putting a thread on a queue: at its end for the running queue, at the front of the others.\<close>

definition moved :: "place \<Rightarrow> u32 \<Rightarrow> (place \<Rightarrow> u32 list) \<Rightarrow> place \<Rightarrow> u32 list" where
  "moved p t q = (without t q)(p := (if p = Running then without t q p @ [t] else t # without t q p))"

definition link :: "place \<Rightarrow> u32 \<Rightarrow> knode list_heap \<Rightarrow> knode list_heap" where
  "link p t h = (if p = Running then list_add_tail else list_add_head) (head_of p) (THead t)
     (list_remove (THead t) h)"

definition schedulable :: "kernel \<Rightarrow> (place \<Rightarrow> u32 list) \<Rightarrow> u32 \<Rightarrow> bool" where
  "schedulable s q t \<longleftrightarrow> on_queue q t \<or> fresh s t"

lemma on_queue_moved: "on_queue (moved p t q) u \<longleftrightarrow> u = t \<or> on_queue q u"
  by (cases p) (auto simp: on_queue_def moved_def without_def)

lemma link_rings:
  assumes r: "rings h queue_heads (seq_at q)"
    and t: "on_queue q t \<or> (nxt h (THead t) = THead t \<and> prv h (THead t) = THead t)"
  shows "rings (link p t h) queue_heads (seq_at (moved p t q))"
proof -
  let ?w = "without t q"
  note off = take_off[OF assms]
  have "rings (link p t h) queue_heads ((seq_at ?w)(head_of p :=
      (if p = Running then map THead (?w p) @ [THead t] else THead t # map THead (?w p))))"
    using rings_add_tail[OF conjunct1[OF off] head_of_heads[of p] conjunct2[OF off]]
      rings_add_head[OF conjunct1[OF off] head_of_heads[of p] conjunct2[OF off]]
    by (cases "p = Running") (simp_all add: link_def)
  then show ?thesis
    by (rule rings_seq_cong[THEN iffD1, rotated]) (auto simp: heads_cases moved_def)
qed

lemma link_frame:
  assumes r: "rings h queue_heads (seq_at q)"
    and t: "on_queue q t \<or> (nxt h (THead t) = THead t \<and> prv h (THead t) = THead t)"
    and u: "u \<noteq> THead t" "u \<notin> linked queue_heads (seq_at q)"
  shows "nxt (link p t h) u = nxt h u \<and> prv (link p t h) u = prv h u"
proof -
  let ?h = "list_remove (THead t) h"
  have 1: "nxt ?h u = nxt h u \<and> prv ?h u = prv h u"
  proof (cases "on_queue q t")
    case True
    then obtain p' where p': "t \<in> set (q p')" by (auto simp: on_queue_place)
    have "nxt h (THead t) \<in> linked queue_heads (seq_at q) \<and> prv h (THead t) \<in> linked queue_heads (seq_at q)"
      by (rule rings_neighbours[OF r head_of_heads[of p']]) (use p' in simp)
    then have "nxt h (THead t) \<noteq> u" "prv h (THead t) \<noteq> u" using u(2) by metis+
    then show ?thesis by (simp add: list_remove_def Let_def)
  next
    case False
    then show ?thesis using t u(1) by (auto simp: list_remove_def Let_def)
  qed
  note off = take_off[OF r t]
  have sub: "linked queue_heads (seq_at (without t q)) \<subseteq> linked queue_heads (seq_at q)"
    by (auto simp: linked_eq on_queue_def without_def)
  have "nxt ?h (head_of p) \<in> linked queue_heads (seq_at (without t q)) \<and>
      prv ?h (head_of p) \<in> linked queue_heads (seq_at (without t q))"
    by (rule rings_neighbours[OF conjunct1[OF off] head_of_heads[of p]]) simp
  then have "nxt ?h (head_of p) \<noteq> u" "prv ?h (head_of p) \<noteq> u" using sub u(2) by (metis subsetD)+
  moreover have "u \<noteq> head_of p" using u(2) head_of_heads[of p] by (auto simp: linked_def)
  ultimately show ?thesis
    using 1 u(1) by (cases "p = Running") (auto simp: link_def list_add_tail_def list_add_head_def Let_def)
qed

lemma sched_moved:
  assumes "sched s q" "schedulable s q t"
    and q': "queues s' = link p t (queues s)"
    and th: "threads s' = (threads s)(t := x)" "th_state x = state_of p"
  shows "sched s' (moved p t q) \<and> (\<forall>u. schedulable s q u \<longrightarrow> schedulable s' (moved p t q) u)"
proof
  have r: "rings (queues s) queue_heads (seq_at q)" using assms(1) by (simp add: sched_def)
  note t = assms(2)[unfolded schedulable_def fresh_def]
  have pl: "in_place s q p'" for p' using assms(1) by (cases p') (auto simp: sched_def)
  have "in_place s' (moved p t q) p'" for p'
    using pl[of p'] th by (auto simp: in_place_def moved_def without_def)
  with link_rings[OF r t] show "sched s' (moved p t q)" by (simp add: sched_def q')
  show "\<forall>u. schedulable s q u \<longrightarrow> schedulable s' (moved p t q) u"
  proof (intro allI impI)
    fix u assume u: "schedulable s q u"
    show "schedulable s' (moved p t q) u"
    proof (cases "u = t \<or> on_queue q u")
      case True
      then have "on_queue (moved p t q) u" unfolding on_queue_moved .
      then show ?thesis by (simp add: schedulable_def)
    next
      case False
      then have "fresh s u" using u by (simp add: schedulable_def)
      then show ?thesis using link_frame[OF r t, of "THead u" p] False
        by (simp add: schedulable_def fresh_def q' linked_heads)
    qed
  qed
qed

text \<open>The operations of \<^verbatim>\<open>proc/thread.c\<close> and what they do to the sequences.\<close>

lemma wake_up_thread_eq:
  "wake_up_thread t s = s\<lparr>threads := (threads s)(t := (threads s t)\<lparr>th_state := TASK_RUNNABLE\<rparr>),
     queues := link Running t (queues s)\<rparr>"
  by (simp add: wake_up_thread_def disable_int_def enable_int_def upd_thread_def on_queues_def link_def Let_def)

lemma sleep_thread_eq:
  "sleep_thread t s = (if th_pid (threads s t) = IDLE_PID then s else
     s\<lparr>threads := (threads s)(t := (threads s t)\<lparr>th_state := TASK_INTERRUPTIBLE\<rparr>),
       queues := link Sleeping t (queues s)\<rparr>)"
  by (simp add: sleep_thread_def disable_int_def enable_int_def upd_thread_def on_queues_def link_def Let_def)

lemma stop_thread_eq:
  "stop_thread t s = (if th_pid (threads s t) = IDLE_PID then s else
     s\<lparr>threads := (threads s)(t := (threads s t)\<lparr>th_state := TASK_STOPPED\<rparr>),
       queues := link Stopped t (queues s)\<rparr>)"
  by (simp add: stop_thread_def disable_int_def enable_int_def upd_thread_def on_queues_def link_def Let_def)

datatype qop = Wake u32 | Sleep u32 | Stop u32

primrec do_op :: "qop \<Rightarrow> kernel \<Rightarrow> kernel" where
  "do_op (Wake t) = wake_up_thread t"
| "do_op (Sleep t) = sleep_thread t"
| "do_op (Stop t) = stop_thread t"

primrec spec_op :: "qop \<Rightarrow> (place \<Rightarrow> u32 list) \<Rightarrow> place \<Rightarrow> u32 list" where
  "spec_op (Wake t) = moved Running t"
| "spec_op (Sleep t) = moved Sleeping t"
| "spec_op (Stop t) = moved Stopped t"

primrec subject :: "qop \<Rightarrow> u32" where
  "subject (Wake t) = t"
| "subject (Sleep t) = t"
| "subject (Stop t) = t"

lemma do_op_step:
  assumes "sched s q" "schedulable s q (subject op)" "th_pid (threads s (subject op)) \<noteq> IDLE_PID"
  shows "sched (do_op op s) (spec_op op q)"
    and "schedulable s q u \<Longrightarrow> schedulable (do_op op s) (spec_op op q) u"
    and "th_pid (threads (do_op op s) u) = th_pid (threads s u)" "ints (do_op op s) = ints s"
proof -
  obtain p t x where op: "spec_op op = moved p t" "subject op = t"
    "queues (do_op op s) = link p t (queues s)" "threads (do_op op s) = (threads s)(t := x)"
    "th_state x = state_of p" "th_pid x = th_pid (threads s t)" "ints (do_op op s) = ints s"
    using assms(3) by (cases op) (auto simp: wake_up_thread_eq sleep_thread_eq stop_thread_eq)
  have m: "sched (do_op op s) (moved p t q) \<and> (\<forall>u. schedulable s q u \<longrightarrow> schedulable (do_op op s) (moved p t q) u)"
    by (rule sched_moved[OF assms(1) _ op(3,4,5)]) (use assms(2) op(2) in simp)
  from m show "sched (do_op op s) (spec_op op q)" by (simp add: op(1))
  from m show "schedulable s q u \<Longrightarrow> schedulable (do_op op s) (spec_op op q) u" by (simp add: op(1))
  show "th_pid (threads (do_op op s) u) = th_pid (threads s u)" "ints (do_op op s) = ints s"
    using op(4,6,7) by simp_all
qed

lemma run_ops_refine:
  assumes "sched s q"
    and "\<And>op. op \<in> set ops \<Longrightarrow> schedulable s q (subject op)"
    and "\<And>op. op \<in> set ops \<Longrightarrow> th_pid (threads s (subject op)) \<noteq> IDLE_PID"
  shows "sched (fold do_op ops s) (fold spec_op ops q) \<and> ints (fold do_op ops s) = ints s"
  using assms
proof (induction ops arbitrary: s q)
  case (Cons op ops)
  note st = do_op_step[OF Cons.prems(1) Cons.prems(2)[of op] Cons.prems(3)[of op]]
  have "sched (fold do_op ops (do_op op s)) (fold spec_op ops (spec_op op q)) \<and>
      ints (fold do_op ops (do_op op s)) = ints (do_op op s)"
  proof (rule Cons.IH)
    show "sched (do_op op s) (spec_op op q)" by (rule st(1)) simp_all
    fix op' assume o: "op' \<in> set ops"
    show "schedulable (do_op op s) (spec_op op q) (subject op')"
      by (rule st(2)) (use Cons.prems(2)[of op'] o in simp_all)
    show "th_pid (threads (do_op op s) (subject op')) \<noteq> IDLE_PID"
      using st(3)[of "subject op'"] Cons.prems(3)[of op'] o by simp
  qed
  then show ?case using st(4) by simp
qed simp

text \<open>
  C7: any sequence of \<^verbatim>\<open>wake_up_thread\<close>, \<^verbatim>\<open>sleep_thread\<close> and \<^verbatim>\<open>stop_thread\<close>, on threads that are on a
  queue or were just created, does on the pointers what the same sequence does on three sequences
  of threads: each thread moves to the end of the running queue or to the front of the other two,
  no thread is ever on two queues or lost, and every thread has the state of its queue. The
  interrupt flag comes out as it went in.
\<close>

theorem thread_queues_refine:
  assumes "sched s q"
    and "\<And>op. op \<in> set ops \<Longrightarrow> schedulable s q (subject op)"
    and "\<And>op. op \<in> set ops \<Longrightarrow> th_pid (threads s (subject op)) \<noteq> IDLE_PID"
  shows "sched (fold do_op ops s) (fold spec_op ops q) \<and> ints (fold do_op ops s) = ints s"
  by (rule run_ops_refine[OF assms])

section \<open>Concrete states\<close>

text \<open>A kernel whose nodes are all linked to themselves, with nothing allocated, for the witnesses.\<close>

definition self_linked :: "'n list_heap" where
  "self_linked = \<lparr>nxt = \<lambda>n. n, prv = \<lambda>n. n\<rparr>"

definition no_blocks :: buddy_mem_desc where
  "no_blocks = buddy_mem_desc.make 0 0 [] self_linked"

definition no_heap :: kheap where
  "no_heap = kheap.make (kmem.make no_blocks no_blocks no_blocks 0 0 0 0 0 0 0 LOCK_FREE) self_linked
     (\<lambda>_. slab.make 0 False 0 0 0 0 0) (\<lambda>_. buf.make 0 0) LOCK_FREE 0"

definition plain_thread :: thread where
  "plain_thread = thread.make 0 0 0 0 0 0 0 0 1 1 True 0 0 0xFFFFFFFF 0 0 0 0 0 1 (0, 0, 0) 0 0 False 0 0"

definition start_kernel :: "(u32 \<Rightarrow> thread) \<Rightarrow> kernel" where
  "start_kernel th = kernel.make (pgstate.make no_heap (\<lambda>_. 0) 0 0 (\<lambda>_. vma.make 0 0 0 0 0 0) self_linked)
     self_linked th (\<lambda>_. ktimer.make 0 0) (\<lambda>_. lock.make LOCK_FREE 0 0 0)
     (\<lambda>_. FD.make 0 0 [] 0 0 [] 0 0 0 0) (\<lambda>_. mem_desc.make 0 0 0) (\<lambda>_. user.make 0 0 [])
     (\<lambda>_. work.make 0 0 0) (\<lambda>_. []) 0 0 0 0 0 2 True (\<lambda>_. 0) 0 0 0 0 0 0 0 0 0 [] 0 0 1"

lemma start_kernel_views [simp]:
  "queues (start_kernel th) = self_linked" "threads (start_kernel th) = th"
  "ints (start_kernel th) = True" "locks (start_kernel th) l = lock.make LOCK_FREE 0 0 0"
  "current_thread (start_kernel th) = 0"
  by (simp_all add: start_kernel_def kernel.make_def)

lemma start_sched: "sched (start_kernel th) (\<lambda>_. [])"
proof -
  have "seq_at (\<lambda>_. []) = (\<lambda>_. [])"
  proof
    fix h show "seq_at (\<lambda>_. []) h = []" by (cases h) auto
  qed
  then show ?thesis
    by (auto simp: sched_def in_place_def rings_def ring_def self_linked_def)
qed

lemma start_fresh: "fresh (start_kernel th) t"
  by (simp add: fresh_def self_linked_def)

theorem thread_queues_refine_witness:
  "sched (fold do_op [Wake 8, Wake 16, Sleep 8] (start_kernel (\<lambda>_. plain_thread)))
     ((\<lambda>_. [])(Running := [16], Sleeping := [8]))"
proof -
  have "fold spec_op [Wake 8, Wake 16, Sleep 8] (\<lambda>_. []) = (\<lambda>_. [])(Running := [16], Sleeping := [8])"
    by (rule ext) (simp add: moved_def without_def)
  moreover have "sched (fold do_op [Wake 8, Wake 16, Sleep 8] (start_kernel (\<lambda>_. plain_thread)))
      (fold spec_op [Wake 8, Wake 16, Sleep 8] (\<lambda>_. []))"
    using thread_queues_refine[OF start_sched[of "\<lambda>_. plain_thread"], of "[Wake 8, Wake 16, Sleep 8]"]
    by (simp only: start_kernel_views) (auto simp: schedulable_def start_fresh plain_thread_def thread.make_def IDLE_PID_def)
  ultimately show ?thesis by simp
qed

section \<open>The choice of the next thread\<close>

definition first_min :: "('a \<Rightarrow> u64) \<Rightarrow> 'a list \<Rightarrow> 'a \<Rightarrow> bool" where
  "first_min rt xs p \<longleftrightarrow>
     (\<exists>as bs. xs = as @ p # bs \<and> (\<forall>a\<in>set as. rt p < rt a) \<and> (\<forall>b\<in>set bs. rt p \<le> rt b))"

lemma first_min_snoc:
  assumes "first_min rt xs p"
  shows "first_min rt (xs @ [x]) (if rt x < rt p then x else p)"
proof -
  obtain as bs where xs: "xs = as @ p # bs" "\<forall>a\<in>set as. rt p < rt a" "\<forall>b\<in>set bs. rt p \<le> rt b"
    using assms by (auto simp: first_min_def)
  show ?thesis
  proof (cases "rt x < rt p")
    case True
    then have "\<forall>a\<in>set xs. rt x < rt a" using xs by auto
    then show ?thesis using True unfolding first_min_def by (intro exI[of _ xs] exI[of _ "[]"]) simp
  next
    case False
    then show ?thesis using xs unfolding first_min_def
      by (intro exI[of _ as] exI[of _ "bs @ [x]"]) auto
  qed
qed

text \<open>What the loop has found after the threads \<open>xs\<close>.\<close>

definition nices :: "kernel \<Rightarrow> u32 list \<Rightarrow> u32" where
  "nices s xs = (\<Sum>t\<leftarrow>xs. ucast (nice (threads s t)))"

definition picked :: "kernel \<Rightarrow> u32 list \<Rightarrow> pick \<Rightarrow> bool" where
  "picked s xs k \<longleftrightarrow> proc_num k = word_of_nat (length xs) \<and> pTot k = nices s xs \<and>
     (xs \<noteq> [] \<longrightarrow> first_min (\<lambda>t. runtime (threads s t)) xs (next_pick k) \<and>
        min_runtime k = runtime (threads s (next_pick k)))"

lemma pick_body_step:
  assumes "picked s xs k" "length xs < 4294967296"
  shows "\<exists>k'. pick_body s (THead t) (Inr k) = (Inr k', False) \<and> picked s (xs @ [t]) k'"
proof (cases "xs = []")
  case True
  have "first_min (\<lambda>t. runtime (threads s t)) [t] t" by (simp add: first_min_def) (rule exI[of _ "[]"], simp)
  with True assms show ?thesis by (simp add: pick_body_def picked_def nices_def Let_def)
next
  case False
  have "(word_of_nat (length xs) :: u32) \<noteq> 0"
    using False assms(2) by (simp add: word_of_nat_eq_0_iff nat_dvd_not_less)
  then show ?thesis
    using False assms first_min_snoc[of "\<lambda>t. runtime (threads s t)" xs "next_pick k" t]
    by (auto simp: pick_body_def picked_def nices_def Let_def add.commute)
qed

lemma pick_loop:
  assumes "picked s xs k" "length xs + length ys < 4294967296"
  shows "\<exists>k'. fold_until (pick_body s) (map THead ys) (Inr k) = Inr k' \<and> picked s (xs @ ys) k'"
  using assms
proof (induction ys arbitrary: xs k)
  case (Cons y ys)
  from pick_body_step[OF Cons.prems(1), of y] Cons.prems(2) obtain k' where
    "pick_body s (THead y) (Inr k) = (Inr k', False)" "picked s (xs @ [y]) k'" by auto
  with Cons.IH[of "xs @ [y]" k'] Cons.prems(2) show ?case by simp
qed auto

lemma list_for_each_const:
  "ring h head xs \<Longrightarrow> list_for_each (\<lambda>_. nxt h) body head s = Some (fold_until body xs s)"
  by (rule list_for_each_ring) simp_all

lemma nices_bound: "length xs < 16777216 \<Longrightarrow> unat (nices s xs) \<le> 255 * length xs"
proof (induction xs)
  case (Cons x xs)
  have "unat (ucast (nice (threads s x)) :: u32) \<le> 255"
    using unsigned_less[of "nice (threads s x)", where 'a = nat]
    by (simp add: unsigned_ucast_eq take_bit_eq_mod)
  with Cons have "unat (ucast (nice (threads s x)) + nices s xs) \<le> 255 * length (x # xs)"
    by (subst unat_word_ariths) (simp add: order_trans[OF mod_less_eq_dividend])
  then show ?case by (simp add: nices_def)
qed (simp add: nices_def)

lemma pick_next_thread_eq:
  assumes "ring (queues s) RunningQueue (map THead R)" "length R < 16777216" "R \<noteq> []"
  shows "\<exists>p. first_min (\<lambda>t. runtime (threads s t)) R p \<and>
     pick_next_thread s = Inr (p, upd_thread p (\<lambda>x. x\<lparr>timeslice :=
       new_timeslice (word_of_nat (length R)) (nices s R) (nice x)\<rparr>) s)"
proof -
  let ?s = "s\<lparr>ints := False\<rparr>"
  have "picked ?s [] \<lparr>proc_num = 0, pTot = 0, min_runtime = 0, next_pick = NULL\<rparr>"
    by (simp add: picked_def nices_def)
  from pick_loop[OF this, of R] assms(2) obtain k where
    k: "fold_until (pick_body ?s) (map THead R) (Inr \<lparr>proc_num = 0, pTot = 0, min_runtime = 0, next_pick = NULL\<rparr>) = Inr k"
      "picked ?s R k" by auto
  have n: "proc_num k \<noteq> 0"
    using k(2) assms(2,3) by (simp add: picked_def word_of_nat_eq_0_iff nat_dvd_not_less)
  have l: "list_for_each (\<lambda>_. nxt (queues s)) (pick_body ?s) RunningQueue
      (Inr \<lparr>proc_num = 0, pTot = 0, min_runtime = 0, next_pick = NULL\<rparr>) = Some (Inr k)"
    unfolding list_for_each_const[OF assms(1)] k(1) ..
  have "nices ?s R = nices s R" by (simp add: nices_def)
  then show ?thesis
    using k(2) n assms(3) l
    by (auto simp: pick_next_thread_def disable_int_def enable_int_def picked_def Let_def upd_thread_def)
qed

text \<open>
  C9: \<^verbatim>\<open>pick_next_thread\<close> returns the thread of least runtime, the first of them in the queue, and
  gives it a timeslice between 2 and 3020 ticks whatever the priorities; nothing else changes. With
  an empty running queue it divides by zero, which the idle thread is there to prevent.
\<close>

theorem pick_next_thread_least:
  assumes "ring (queues s) RunningQueue (map THead R)" "length R < 16777216"
  shows "if R = [] then pick_next_thread s = Inl DivideError
    else \<exists>p ts. pick_next_thread s = Inr (p, upd_thread p (\<lambda>x. x\<lparr>timeslice := ts\<rparr>) s) \<and>
      first_min (\<lambda>t. runtime (threads s t)) R p \<and> 2 \<le> ts \<and> ts \<le> 3020"
proof (cases "R = []")
  case True
  then have "list_for_each (\<lambda>_. nxt (queues s)) f RunningQueue x = Some x" for f and x :: "pick result"
    unfolding list_for_each_const[OF assms(1)] by simp
  with True show ?thesis by (simp add: pick_next_thread_def disable_int_def)
next
  case False
  then obtain p where p: "first_min (\<lambda>t. runtime (threads s t)) R p"
    "pick_next_thread s = Inr (p, upd_thread p (\<lambda>x. x\<lparr>timeslice :=
       new_timeslice (word_of_nat (length R)) (nices s R) (nice x)\<rparr>) s)"
    using pick_next_thread_eq[OF assms] by blast
  have len: "unat (word_of_nat (length R) :: u32) = length R"
    using assms(2) by (intro unat_u32) simp
  define ts where "ts = new_timeslice (word_of_nat (length R)) (nices s R) (nice (threads s p))"
  have "2 \<le> ts \<and> ts \<le> 3020" unfolding ts_def
    by (rule timeslice_bounds)
      (use False len nices_bound[OF assms(2)] in \<open>simp_all add: word_less_nat_alt\<close>)
  moreover have "pick_next_thread s = Inr (p, upd_thread p (\<lambda>x. x\<lparr>timeslice := ts\<rparr>) s)"
    unfolding p(2) by (simp add: upd_thread_def ts_def)
  ultimately show ?thesis unfolding if_not_P[OF False] using p(1) by blast
qed

theorem pick_next_thread_least_witness:
  "\<exists>p s'. pick_next_thread (do_op (Wake 16) (do_op (Wake 8) (start_kernel (\<lambda>t. plain_thread\<lparr>runtime := 100 - ucast t\<rparr>)))) =
     Inr (p, s') \<and> p = 16"
proof -
  let ?s = "do_op (Wake 16) (do_op (Wake 8) (start_kernel (\<lambda>t. plain_thread\<lparr>runtime := 100 - ucast t\<rparr>)))"
  have "sched (fold do_op [Wake 8, Wake 16] (start_kernel (\<lambda>t. plain_thread\<lparr>runtime := 100 - ucast t\<rparr>)))
      (fold spec_op [Wake 8, Wake 16] (\<lambda>_. []))"
    using run_ops_refine[OF start_sched, of "[Wake 8, Wake 16]" "\<lambda>t. plain_thread\<lparr>runtime := 100 - ucast t\<rparr>"]
    by (simp only: start_kernel_views) (auto simp: schedulable_def start_fresh plain_thread_def thread.make_def IDLE_PID_def)
  then have "sched ?s (fold spec_op [Wake 8, Wake 16] (\<lambda>_. []))" by simp
  then have r: "ring (queues ?s) RunningQueue (map THead [8, 16])"
    using rings_ring[of _ queue_heads _ RunningQueue] by (fastforce simp: sched_def queue_heads_def moved_def without_def)
  have "first_min (\<lambda>t. runtime (threads ?s t)) [8, 16] p \<Longrightarrow> p = 16" for p
    by (auto simp: first_min_def wake_up_thread_eq Cons_eq_append_conv)
  then show ?thesis using pick_next_thread_least[OF r] by auto
qed

end
