(* ===== verification/Signal_Props.thy ===== *)
theory Signal_Props
  imports Sched_Props
begin

text \<open>
  Signals: whom \<^verbatim>\<open>sys_kill\<close> reaches, what the death of a process does to its father, and why the
  recursion of \<^verbatim>\<open>reschedule\<close> ends.
\<close>

section \<open>Finding a thread\<close>

lemma list_for_each_safe_const:
  assumes r: "ring h head xs"
  shows "list_for_each_safe (\<lambda>_. nxt h) body head s = Some (fold_until body xs s)"
proof (rule list_for_each_safe_fold[where I = "\<lambda>ys _. distinct (head # ys) \<and> links h (ys @ [head])"])
  show "nxt h head = hd (xs @ [head])"
    using r ring_nxt_chain[of h head xs head] by (simp add: ring_def)
  show "distinct (head # xs) \<and> links h (xs @ [head])"
    using r by (cases xs) (auto simp: ring_def)
next
  fix y ys s'
  assume "distinct (head # y # ys) \<and> links h ((y # ys) @ [head])"
  then show "y \<noteq> head \<and> nxt h y = hd (ys @ [head]) \<and>
      (snd (body y s') \<or> distinct (head # ys) \<and> links h (ys @ [head]))"
    by (cases ys) auto
qed

definition has_pid :: "u32 \<Rightarrow> kernel \<Rightarrow> u32 \<Rightarrow> bool" where
  "has_pid pid s t \<longleftrightarrow> ucast (th_pid (threads s t)) = pid"

lemma get_thread_eq:
  assumes "ring (queues s) KThreads (map TProc P)"
  shows "get_thread pid s = Inr (List.find (has_pid pid s) P, s)"
proof -
  have "fold_until (get_thread_body pid (s\<lparr>ints := False\<rparr>)) (map TProc xs) (Inr None) =
      Inr (List.find (has_pid pid s) xs)" for xs
    by (induction xs) (auto simp: get_thread_body_def has_pid_def)
  then have "list_for_each_safe (\<lambda>_. nxt (queues s)) (get_thread_body pid (s\<lparr>ints := False\<rparr>)) KThreads (Inr None) =
      Some (Inr (List.find (has_pid pid s) P))"
    unfolding list_for_each_safe_const[OF assms] by simp
  then show ?thesis by (simp add: get_thread_def disable_int_def)
qed

text \<open>
  \<^verbatim>\<open>sys_kill\<close> marks the signal as pending for the first thread with that pid if it accepts it, for
  no other thread, and returns it; without such a thread it changes nothing and returns -1.
\<close>

theorem sys_kill_reaches:
  assumes "ring (queues s) KThreads (map TProc P)"
  shows "case List.find (has_pid pid s) P of
      None \<Rightarrow> sys_kill pid sig s = Inr (- 1, s)
    | Some t \<Rightarrow> \<exists>s'. sys_kill pid sig s = Inr (sig, s') \<and> queues s' = queues s \<and>
        sig_pending (threads s' t) = sig_pending (threads s t) OR (sig_active (threads s t) AND sig) \<and>
        (\<forall>u. u \<noteq> t \<longrightarrow> threads s' u = threads s u)"
  using get_thread_eq[OF assms, of pid]
  by (auto simp: sys_kill_def upd_thread_def split: option.split)

text \<open>One thread, of pid 1, in the list of all threads, for the witnesses.\<close>

definition one_thread :: kernel where
  "one_thread = on_queues (list_add_head KThreads (TProc 8)) (start_kernel (\<lambda>_. plain_thread))"

lemma one_thread_list: "ring (queues one_thread) KThreads (map TProc [8])"
  by (simp add: ring_def one_thread_def on_queues_def list_add_head_def self_linked_def Let_def)

lemma one_thread_pid: "threads one_thread t = plain_thread" "th_pid plain_thread = 1"
  "List.find (has_pid 1 one_thread) [8] = Some 8"
  by (simp_all add: has_pid_def one_thread_def on_queues_def plain_thread_def thread.make_def)

theorem sys_kill_reaches_witness:
  "\<exists>s'. sys_kill 1 SIGKILL one_thread = Inr (SIGKILL, s') \<and> sig_pending (threads s' 8) = SIGKILL"
  using sys_kill_reaches[OF one_thread_list, of 1 SIGKILL] one_thread_pid
  by (auto simp: plain_thread_def thread.make_def SIGKILL_def)

section \<open>The death of a child\<close>

lemma child_awoken_eq:
  assumes "ring (queues s) KThreads (map TProc P)" "List.find (has_pid pid s) P = Some f"
  shows "child_awoken pid s = Inr (SIGCKO, s\<lparr>
     threads := (threads s)(f := (threads s f)\<lparr>sig_pending := sig_pending (threads s f) OR
       (sig_active (threads s f) AND SIGCKO)\<rparr>),
     queues := link Running f (queues s)\<rparr>)"
  using get_thread_eq[OF assms(1), of pid] assms(2)
  by (simp add: child_awoken_def wake_up_thread_eq upd_thread_def disable_int_def enable_int_def Let_def)

text \<open>
  C26: a child that dies after its father has brings the father back: \<^verbatim>\<open>child_awoken\<close> takes the father
  off the queue of the stopped threads and puts it at the end of the running queue, where it keeps
  the state of a stopped thread; if its runtime is the least the scheduler runs it next.
\<close>

theorem dead_father_runs_again:
  assumes "sched s q" "ring (queues s) KThreads (map TProc P)" "List.find (has_pid pid s) P = Some f"
    and "f \<in> set (q Stopped)" "length (q Running) < 16777215"
    and "\<forall>t\<in>set (q Running). runtime (threads s f) < runtime (threads s t)"
  shows "\<exists>s' s''. child_awoken pid s = Inr (SIGCKO, s') \<and>
     ring (queues s') RunningQueue (map THead (q Running @ [f])) \<and>
     th_state (threads s' f) = TASK_STOPPED \<and> pick_next_thread s' = Inr (f, s'')"
proof -
  let ?s = "s\<lparr>threads := (threads s)(f := (threads s f)\<lparr>sig_pending := sig_pending (threads s f) OR
       (sig_active (threads s f) AND SIGCKO)\<rparr>), queues := link Running f (queues s)\<rparr>"
  have r: "rings (queues s) queue_heads (seq_at q)" using assms(1) by (simp add: sched_def)
  have on: "on_queue q f" using assms(4) by (simp add: on_queue_def)
  have "f \<notin> set (q Running)"
    using rings_mem_unique[OF r head_of_heads[of Stopped] head_of_heads[of Running], of "THead f"] assms(4) by auto
  then have "without f q Running = q Running"
    unfolding without_def by (intro filter_True) metis
  then have ring: "ring (queues ?s) RunningQueue (map THead (q Running @ [f]))"
    using rings_ring[OF link_rings[OF r, of f Running] head_of_heads[of Running]] on by (simp add: moved_def)
  have "\<exists>p s''. pick_next_thread ?s = Inr (p, s'') \<and> first_min (\<lambda>t. runtime (threads ?s t)) (q Running @ [f]) p"
    using pick_next_thread_eq[OF ring] assms(5) by auto
  then obtain p s'' where p: "pick_next_thread ?s = Inr (p, s'')"
    "first_min (\<lambda>t. runtime (threads ?s t)) (q Running @ [f]) p" by blast
  have "p = f"
  proof (rule ccontr)
    assume n: "p \<noteq> f"
    from p(2) obtain as bs where
      e: "q Running @ [f] = as @ p # bs" "\<forall>b\<in>set bs. runtime (threads ?s p) \<le> runtime (threads ?s b)"
      by (auto simp: first_min_def)
    have "p \<in> set (q Running @ [f])" "f \<in> set bs"
      using e(1) n by (metis in_set_conv_decomp, metis append_is_Nil_conv last.simps last_append last_in_set last_snoc list.discI)
    then have "runtime (threads s p) \<le> runtime (threads s f)" "p \<in> set (q Running)" using e(2) n by auto
    then show False using assms(6) by (auto simp: not_less[symmetric])
  qed
  moreover have "th_state (threads s f) = TASK_STOPPED"
    using assms(1,4) by (simp add: sched_def in_place_def)
  ultimately show ?thesis using child_awoken_eq[OF assms(2,3)] ring p(1)
    by (intro exI[of _ ?s] exI[of _ s'']) auto
qed

theorem dead_father_runs_again_witness:
  "\<exists>s' s''. child_awoken 1 (stop_thread 8 one_thread) = Inr (SIGCKO, s') \<and>
     th_state (threads s' 8) = TASK_STOPPED \<and> pick_next_thread s' = Inr (8, s'')"
proof -
  let ?s = "stop_thread 8 one_thread" and ?q = "(\<lambda>_. [])(Stopped := [8])"
  have eq: "queues ?s = link Stopped 8 (list_add_head KThreads (TProc 8) self_linked)"
    "threads ?s t = (if t = 8 then plain_thread\<lparr>th_state := TASK_STOPPED\<rparr> else plain_thread)" for t
    by (simp_all add: stop_thread_eq one_thread_def on_queues_def plain_thread_def thread.make_def IDLE_PID_def)
  have "sched ?s ?q"
    by (simp add: sched_def in_place_def rings_def ring_def queue_heads_def eq link_def list_add_head_def
        list_remove_def self_linked_def Let_def)
  moreover have "ring (queues ?s) KThreads (map TProc [8])"
    by (simp add: ring_def eq link_def list_add_head_def list_remove_def self_linked_def Let_def)
  moreover have "List.find (has_pid 1 ?s) [8] = Some 8"
    using one_thread_pid by (simp add: has_pid_def eq)
  ultimately show ?thesis using dead_father_runs_again[of ?s ?q "[8]" 1 8] by auto
qed

section \<open>The end of \<^verbatim>\<open>reschedule\<close>\<close>

text \<open>What a loop keeps when its body keeps it.\<close>

lemma for_each_from_inv:
  assumes "for_each_from nx body head pos s = Some s'" "J s" "\<And>pos s. J s \<Longrightarrow> J (fst (body pos s))"
  shows "J s'"
proof -
  have "(\<forall>pos s. J s \<longrightarrow> J (fst (body pos s))) \<longrightarrow> J s \<longrightarrow> J s'"
  proof (rule for_each_from.raw_induct[where P = "\<lambda>_ body _ _ s s'. (\<forall>pos s. J s \<longrightarrow> J (fst (body pos s))) \<longrightarrow> J s \<longrightarrow> J s'",
        OF _ assms(1)])
    fix fe :: "('a \<Rightarrow> 'b \<Rightarrow> 'b) \<Rightarrow> ('b \<Rightarrow> 'a \<Rightarrow> 'a \<times> bool) \<Rightarrow> 'b \<Rightarrow> 'b \<Rightarrow> 'a \<Rightarrow> 'a option" and nx body head pos s r
    assume IH: "\<And>nx body head pos s y. fe nx body head pos s = Some y \<Longrightarrow>
        (\<forall>pos s. J s \<longrightarrow> J (fst (body pos s))) \<longrightarrow> J s \<longrightarrow> J y"
      and e: "(if pos = head then Some s else let r = body pos s in if snd r then Some (fst r)
        else fe nx body head (nx (fst r) pos) (fst r)) = Some r"
    show "(\<forall>pos s. J s \<longrightarrow> J (fst (body pos s))) \<longrightarrow> J s \<longrightarrow> J r"
      using e IH[of nx body head "nx (fst (body pos s)) pos" "fst (body pos s)" r]
      by (auto simp: Let_def split: if_splits)
  qed
  with assms(2,3) show ?thesis by blast
qed

lemma for_each_safe_from_inv:
  assumes "for_each_safe_from nx body head pos n s = Some s'" "J s" "\<And>pos s. J s \<Longrightarrow> J (fst (body pos s))"
  shows "J s'"
proof -
  have "(\<forall>pos s. J s \<longrightarrow> J (fst (body pos s))) \<longrightarrow> J s \<longrightarrow> J s'"
  proof (rule for_each_safe_from.raw_induct[where P = "\<lambda>_ body _ _ _ s s'. (\<forall>pos s. J s \<longrightarrow> J (fst (body pos s))) \<longrightarrow> J s \<longrightarrow> J s'",
        OF _ assms(1)])
    fix fe :: "('a \<Rightarrow> 'b \<Rightarrow> 'b) \<Rightarrow> ('b \<Rightarrow> 'a \<Rightarrow> 'a \<times> bool) \<Rightarrow> 'b \<Rightarrow> 'b \<Rightarrow> 'b \<Rightarrow> 'a \<Rightarrow> 'a option" and nx body head pos n s r
    assume IH: "\<And>nx body head pos n s y. fe nx body head pos n s = Some y \<Longrightarrow>
        (\<forall>pos s. J s \<longrightarrow> J (fst (body pos s))) \<longrightarrow> J s \<longrightarrow> J y"
      and e: "(if pos = head then Some s else let r = body pos s in if snd r then Some (fst r)
        else fe nx body head n (nx (fst r) n) (fst r)) = Some r"
    show "(\<forall>pos s. J s \<longrightarrow> J (fst (body pos s))) \<longrightarrow> J s \<longrightarrow> J r"
      using e IH[of nx body head n "nx (fst (body pos s)) n" "fst (body pos s)" r]
      by (auto simp: Let_def split: if_splits)
  qed
  with assms(2,3) show ?thesis by blast
qed

lemma body_of_inv:
  assumes "\<And>l k k' b. f l k = Inr (k', b) \<Longrightarrow> I k \<Longrightarrow> I k'"
    and "case r of Inl _ \<Rightarrow> True | Inr k \<Rightarrow> I k"
  shows "case fst (body_of f l r) of Inl _ \<Rightarrow> True | Inr k \<Rightarrow> I k"
  using assms(2) by (auto simp: body_of_def split: sum.splits prod.splits intro: assms(1))

lemma each_inv:
  assumes "each st f head k = Inr k' \<or> each_safe st f head k = Inr k'" "I k"
    and "\<And>l k k' b. f l k = Inr (k', b) \<Longrightarrow> I k \<Longrightarrow> I k'"
  shows "I k'"
proof -
  let ?J = "\<lambda>r. case (r :: _ result) of Inl _ \<Rightarrow> True | Inr k \<Rightarrow> I k"
  have *: "\<And>pos s. ?J s \<Longrightarrow> ?J (fst (body_of f pos s))" by (rule body_of_inv[of f I]) (rule assms(3))
  have "list_for_each (state_next st) (body_of f) head (Inr k) = Some (Inr k') \<or>
      list_for_each_safe (state_next st) (body_of f) head (Inr k) = Some (Inr k')"
    using assms(1) by (auto simp: each_def each_safe_def returns_def res_bind_Inr_iff split: option.splits)
  then have "?J (Inr k')"
  proof
    assume "list_for_each (state_next st) (body_of f) head (Inr k) = Some (Inr k')"
    then show ?thesis unfolding list_for_each_def
      by (rule for_each_from_inv[where J = ?J]) (use assms(2) * in auto)
  next
    assume "list_for_each_safe (state_next st) (body_of f) head (Inr k) = Some (Inr k')"
    then show ?thesis unfolding list_for_each_safe_def
      by (rule for_each_safe_from_inv[where J = ?J]) (use assms(2) * in auto)
  qed
  then show ?thesis by simp
qed

text \<open>The signals that are pending, and the operations that leave them alone.\<close>

definition pend :: "kernel \<Rightarrow> u32 \<Rightarrow> u32" where
  "pend s t = sig_pending (threads s t)"

lemma pend_upd [simp]:
  "pend (on_queues f s) = pend s"
  "pend (s\<lparr>ints := b\<rparr>) = pend s"
  "pend (s\<lparr>tsc_reads := n\<rparr>) = pend s"
  "pend (s\<lparr>current_thread := c\<rparr>) = pend s"
  "pend (enable_int b s) = pend s"
  by (auto simp: pend_def on_queues_def enable_int_def)

lemma threads_enable_int [simp]: "threads (enable_int b s) = threads s"
  by (simp add: enable_int_def)

lemma pend_upd_thread:
  "(\<And>x. sig_pending (f x) = sig_pending x) \<Longrightarrow> pend (upd_thread t f s) = pend s"
  by (auto simp: pend_def upd_thread_def)

lemma pend_move [simp]:
  "pend (wake_up_thread t s) = pend s" "pend (sleep_thread t s) = pend s" "pend (stop_thread t s) = pend s"
  by (auto simp: pend_def wake_up_thread_eq sleep_thread_eq stop_thread_eq)

lemma pend_pages_do: "pages_do f s = Inr s' \<Longrightarrow> pend s' = pend s"
  by (auto simp: pages_do_def res_bind_Inr_iff pend_def)

lemma get_thread_state: "get_thread pid s = Inr (t, s') \<Longrightarrow> s' = s"
  by (auto simp: get_thread_def disable_int_def res_bind_Inr_iff)

lemma reparent_pend: "reparent a l s = Inr s' \<Longrightarrow> pend s' = pend s"
  unfolding reparent_def Let_def
  by (erule each_inv[OF disjI2, where I = "\<lambda>k. pend k = pend s"])
    (auto simp: reparent_body_def pend_upd_thread split: knode.splits)

lemma bit_SIGCKO: "bit SIGCKO n \<longleftrightarrow> n = 10"
  unfolding SIGCKO_def bit_push_bit_iff by (auto simp: bit_1_iff)

lemma child_awoken_pend:
  assumes "child_awoken pid s = Inr (r, s')"
  shows "\<forall>t. bit (pend s' t) n \<longrightarrow> bit (pend s t) n \<or> n = 10"
proof -
  from assms obtain f where f: "get_thread pid s = Inr (f, s)"
    by (auto simp: child_awoken_def res_bind_Inr_iff dest: get_thread_state)
  show ?thesis
  proof (cases f)
    case None
    with assms f show ?thesis by (simp add: child_awoken_def)
  next
    case (Some t)
    with assms f show ?thesis
      by (auto simp: child_awoken_def disable_int_def Let_def pend_upd_thread)
        (auto simp: pend_def upd_thread_def bit_or_iff bit_and_iff bit_SIGCKO split: if_splits)
  qed
qed

lemma kill_process_pend:
  assumes "kill_process p s = Inr s'"
  shows "\<forall>t. bit (pend s' t) n \<longrightarrow> bit (pend s t) n \<or> n = 10"
proof (cases "th_pid (threads s p) = IDLE_PID")
  case True
  with assms show ?thesis by (simp add: kill_process_def)
next
  case False
  from assms False obtain k r where
    k: "each_safe (\<lambda>s. s) (kill_timer_body p) KernelTimers ((stop_thread p s)\<lparr>ints := False\<rparr>) = Inr k"
      "child_awoken (ucast (th_pid (threads k (father (threads k p))))) (enable_int (ints (stop_thread p s)) k) = Inr (r, s')"
    by (auto simp: kill_process_def disable_int_def res_bind_Inr_iff Let_def)
  have "pend k = pend s"
    by (rule each_inv[OF disjI2[OF k(1)], where I = "\<lambda>k. pend k = pend s"])
      (auto simp: kill_timer_body_def res_bind_Inr_iff dest!: pend_pages_do split: knode.splits if_splits)
  with child_awoken_pend[OF k(2), of n] show ?thesis by simp
qed

lemma cko_body_pend:
  "cko_body t l (a, b, s) = Inr ((a', b', s'), e) \<Longrightarrow> pend s' = pend s"
  by (auto simp: cko_body_def Let_def res_bind_Inr_iff dest!: reparent_pend split: knode.splits if_splits)

lemma handle_cko_pend:
  assumes "handle_cko t ret s = Inr (ret', s')"
  shows "pend s' = pend s"
proof -
  from assms obtain a b k where k: "each (\<lambda>(_, _, s). s) (cko_body t) (TChildren t) (True, False, s) = Inr (a, b, k)"
    by (auto simp: handle_cko_def res_bind_Inr_iff)
  have "(\<lambda>(_, _, k). pend k = pend s) (a, b, k)"
    by (rule each_inv[OF disjI1[OF k], where I = "\<lambda>(_, _, k). pend k = pend s"]) (auto dest: cko_body_pend)
  then have 1: "pend k = pend s" by simp
  have 2: "pend k' = pend k0" if "each (\<lambda>s. s) (adopt_body t) (TChildren t) k0 = Inr k'" for k0 k'
    by (rule each_inv[OF disjI1[OF that], where I = "\<lambda>k. pend k = pend k0"])
      (auto simp: adopt_body_def res_bind_Inr_iff dest!: reparent_pend split: knode.splits)
  have 3: "pend k' = pend k0" if "each (\<lambda>s. s) (zombie_body t) (TChildren t) k0 = Inr k'" for k0 k'
    by (rule each_inv[OF disjI1[OF that], where I = "\<lambda>k. pend k = pend k0"])
      (auto simp: zombie_body_def res_bind_Inr_iff pend_upd_thread dest!: reparent_pend split: knode.splits if_splits)
  obtain k1 where
    k1: "(if wait4child (threads k t) \<and> a then each (\<lambda>s. s) (adopt_body t) (TChildren t) k else Inr k) = Inr k1"
    and rest: "(let (ret, s) = (if wait4child (threads k1 t) \<and> \<not> a then (False, sleep_thread t k1) else (ret, k1)) in
     if \<not> wait4child (threads s t) \<and> \<not> b then
       res_bind (each (\<lambda>s. s) (zombie_body t) (TChildren t) s) (\<lambda>s.
         if th_state (threads s t) = TASK_INTERRUPTIBLE then Inr (False, sleep_thread t s)
         else Inr (ret, s))
     else Inr (ret, s)) = Inr (ret', s')"
    using assms unfolding handle_cko_def k by (auto simp only: res_bind_Inr_iff prod.case sum.inject)
  have 4: "pend k1 = pend s"
    using k1 1 by (cases "wait4child (threads k t) \<and> a") (auto dest: 2)
  define k2 where "k2 = (if wait4child (threads k1 t) \<and> \<not> a then sleep_thread t k1 else k1)"
  have 5: "pend k2 = pend s" using 4 by (simp add: k2_def)
  have "(\<exists>k3. each (\<lambda>s. s) (zombie_body t) (TChildren t) k2 = Inr k3 \<and> (s' = k3 \<or> s' = sleep_thread t k3)) \<or> s' = k2"
    using rest by (auto simp: k2_def res_bind_Inr_iff split: if_splits)
  then show ?thesis using 3 5 by (elim disjE exE conjE) (simp_all only: pend_move)
qed

text \<open>The measure: the threads with \<^verbatim>\<open>SIGKILL\<close> pending and, after them, those with \<^verbatim>\<open>SIGCKO\<close>.\<close>

definition with_signal :: "nat \<Rightarrow> kernel \<Rightarrow> u32 set" where
  "with_signal n s = {t. bit (pend s t) n}"

definition fewer_signals :: "kernel \<Rightarrow> kernel \<Rightarrow> bool" where
  "fewer_signals s s' \<longleftrightarrow> card (with_signal 9 s') < card (with_signal 9 s) \<or>
     card (with_signal 9 s') = card (with_signal 9 s) \<and> card (with_signal 10 s') < card (with_signal 10 s)"

definition no_more_signals :: "kernel \<Rightarrow> kernel \<Rightarrow> bool" where
  "no_more_signals s s' \<longleftrightarrow> fewer_signals s s' \<or>
     card (with_signal 9 s') = card (with_signal 9 s) \<and> card (with_signal 10 s') = card (with_signal 10 s)"

lemma signals_trans:
  "no_more_signals a b \<Longrightarrow> no_more_signals b c \<Longrightarrow> no_more_signals a c"
  "fewer_signals a b \<Longrightarrow> no_more_signals b c \<Longrightarrow> fewer_signals a c"
  "no_more_signals a b \<Longrightarrow> fewer_signals b c \<Longrightarrow> fewer_signals a c"
  by (auto simp: no_more_signals_def fewer_signals_def)

lemma subset_no_more:
  assumes "with_signal 9 s' \<subseteq> with_signal 9 s" "with_signal 10 s' \<subseteq> with_signal 10 s"
  shows "no_more_signals s s'"
  using card_mono[OF _ assms(1)] card_mono[OF _ assms(2)]
  by (auto simp: no_more_signals_def fewer_signals_def)

lemma subset_fewer:
  assumes "with_signal 9 s' \<subset> with_signal 9 s \<or>
    with_signal 9 s' \<subseteq> with_signal 9 s \<and> with_signal 10 s' \<subset> with_signal 10 s"
  shows "fewer_signals s s'"
  using assms
proof
  assume "with_signal 9 s' \<subset> with_signal 9 s"
  then show ?thesis using psubset_card_mono[of "with_signal 9 s"] by (simp add: fewer_signals_def)
next
  assume a: "with_signal 9 s' \<subseteq> with_signal 9 s \<and> with_signal 10 s' \<subset> with_signal 10 s"
  then have "card (with_signal 9 s') \<le> card (with_signal 9 s)" by (intro card_mono) auto
  moreover have "card (with_signal 10 s') < card (with_signal 10 s)"
    using a by (intro psubset_card_mono) auto
  ultimately show ?thesis by (auto simp: fewer_signals_def)
qed

lemma signal_bit_bit: "bit (signal_bit i) n \<longleftrightarrow> n = i mod 32"
  unfolding signal_bit_def bit_push_bit_iff by (auto simp: bit_1_iff)

lemma signal_bit_eq: "signal_bit i = signal_bit j \<longleftrightarrow> i mod 32 = j mod 32"
proof
  assume "signal_bit i = signal_bit j"
  then have "bit (signal_bit i) (j mod 32)" by (simp only: signal_bit_bit)
  then show "i mod 32 = j mod 32" by (simp only: signal_bit_bit)
qed (simp only: signal_bit_def)

lemma SIG_bits: "SIGKILL = signal_bit 9" "SIGCKO = signal_bit 10"
  by (simp_all add: SIGKILL_def SIGCKO_def signal_bit_def)

lemma and_signal_bit: "x AND signal_bit i \<noteq> 0 \<longleftrightarrow> bit x (i mod 32)"
proof -
  have "x AND signal_bit i = (if bit x (i mod 32) then signal_bit i else 0)"
    by (rule bit_word_eqI) (auto simp: bit_and_iff signal_bit_bit)
  moreover have "signal_bit i \<noteq> 0"
    using signal_bit_bit[of i "i mod 32"] by (metis bit_0_eq bot_apply bot_bool_def)
  ultimately show ?thesis by simp
qed

lemma bit_sig_clear: "bit ((x :: u32) AND NOT (signal_bit i)) n \<longleftrightarrow> bit x n \<and> n \<noteq> i mod 32"
proof (cases "n < 32")
  case True
  then have "bit (NOT (signal_bit i)) n \<longleftrightarrow> n \<noteq> i mod 32"
    unfolding bit_not_iff signal_bit_bit by simp
  then show ?thesis by (simp only: bit_and_iff)
next
  case False
  then have "\<not> bit x n" using bit_imp_le_length[of x n] by auto
  then show ?thesis by (simp only: bit_and_iff simp_thms)
qed

lemma cleared:
  assumes "bit (sig_pending (threads s t)) (i mod 32)"
  defines "s1 \<equiv> upd_thread t (\<lambda>x. x\<lparr>sig_pending := sig_pending x AND NOT (signal_bit i)\<rparr>) s"
  shows "with_signal n s1 = (if n = i mod 32 then with_signal n s - {t} else with_signal n s)"
    and "t \<in> with_signal (i mod 32) s"
proof -
  have *: "bit (pend s1 u) n \<longleftrightarrow> bit (pend s u) n \<and> \<not> (u = t \<and> n = i mod 32)" for u n
    by (simp add: pend_def s1_def upd_thread_def bit_sig_clear)
  then show "with_signal n s1 = (if n = i mod 32 then with_signal n s - {t} else with_signal n s)"
    by (auto simp: with_signal_def)
  show "t \<in> with_signal (i mod 32) s" using assms(1) by (simp add: with_signal_def pend_def)
qed

lemma signal_round_measure:
  assumes "signal_round t i (ret, s) = Inr (ret', s')"
  shows "no_more_signals s s' \<and> (ret \<and> \<not> ret' \<longrightarrow> fewer_signals s s')"
proof (cases "(sig_pending (threads s t) AND sig_active (threads s t)) AND signal_bit i \<noteq> 0")
  case False
  with assms show ?thesis by (auto simp: signal_round_def no_more_signals_def)
next
  case True
  then have b: "bit (sig_pending (threads s t)) (i mod 32)" by (simp add: and_signal_bit bit_and_iff)
  let ?s = "upd_thread t (\<lambda>x. x\<lparr>sig_pending := sig_pending x AND NOT (signal_bit i)\<rparr>) s"
  note c = cleared[OF b]
  have sub: "with_signal n ?s \<subseteq> with_signal n s" for n using c(1)[of n] by auto
  have strict: "with_signal (i mod 32) ?s \<subset> with_signal (i mod 32) s" using c by auto
  show ?thesis
  proof (cases "signal_bit i = SIGKILL")
    case kill: True
    then have i: "i mod 32 = 9" by (simp add: SIG_bits signal_bit_eq)
    obtain k where k: "kill_process t ?s = Inr k" "s' = upd_thread t (\<lambda>x. x\<lparr>exit_value := 0\<rparr>) k"
      using assms True kill by (auto simp: signal_round_def res_bind_Inr_iff Let_def)
    have "with_signal 9 s' \<subseteq> with_signal 9 ?s"
      using kill_process_pend[OF k(1), of 9] by (auto simp: k(2) with_signal_def pend_upd_thread)
    with strict i have "fewer_signals s s'" by (intro subset_fewer) auto
    then show ?thesis by (simp add: no_more_signals_def)
  next
    case nokill: False
    show ?thesis
    proof (cases "signal_bit i = SIGCKO")
      case cko: True
      then have i: "i mod 32 = 10" by (simp add: SIG_bits signal_bit_eq)
      have h: "handle_cko t ret ?s = Inr (ret', s')"
        using assms True nokill cko by (simp add: signal_round_def Let_def)
      have "with_signal n s' = with_signal n ?s" for n
        using handle_cko_pend[OF h] by (simp add: with_signal_def)
      with strict i sub have "fewer_signals s s'" by (intro subset_fewer) auto
      then show ?thesis by (simp add: no_more_signals_def)
    next
      case False
      with assms True nokill have "ret' = ret" "s' = ?s" by (auto simp: signal_round_def Let_def)
      with sub show ?thesis by (auto intro: subset_no_more)
    qed
  qed
qed

lemma signal_rounds_measure:
  "signal_rounds t is (ret, s) = Inr (ret', s') \<Longrightarrow>
   no_more_signals s s' \<and> (ret \<and> \<not> ret' \<longrightarrow> fewer_signals s s')"
proof (induction "is" arbitrary: ret s)
  case Nil
  then show ?case by (auto simp: no_more_signals_def)
next
  case (Cons i "is")
  then obtain r k where k: "signal_round t i (ret, s) = Inr (r, k)" "signal_rounds t is (r, k) = Inr (ret', s')"
    by (auto simp: res_bind_Inr_iff)
  show ?case using signal_round_measure[OF k(1)] Cons.IH[OF k(2)] signals_trans by metis
qed

lemma handle_signals_measure:
  "handle_signals t s = Inr (False, s') \<Longrightarrow> fewer_signals s s'"
  by (auto simp: handle_signals_def dest!: signal_rounds_measure split: if_splits)

lemma pick_next_thread_pend: "pick_next_thread s = Inr (p, s') \<Longrightarrow> pend s' = pend s"
  by (auto simp: pick_next_thread_def disable_int_def res_bind_Inr_iff Let_def pend_upd_thread split: if_splits)

lemma fewer_signals_pend: "pend k = pend s \<Longrightarrow> fewer_signals k s' = fewer_signals s s'"
  by (simp add: fewer_signals_def with_signal_def)

text \<open>
  C10: \<^verbatim>\<open>reschedule\<close> calls itself each time the thread it has picked is stopped or put to sleep by a
  signal, and that ends, whatever the state: every such round uses up a pending \<^verbatim>\<open>SIGKILL\<close> or, with no
  new one, a pending \<^verbatim>\<open>SIGCKO\<close>, though the death of a thread sends its father a new \<^verbatim>\<open>SIGCKO\<close>.
\<close>

theorem reschedule_ends: "\<exists>r. reschedule_loop s = Some r"
proof (induction s rule: wf_induct_rule[OF wf_measures[of "[\<lambda>s. card (with_signal 9 s), \<lambda>s. card (with_signal 10 s)]"]])
  case (1 s)
  show ?case
  proof (cases "pick_next_thread s")
    case (Inr r)
    then obtain next1 k where p: "pick_next_thread s = Inr (next1, k)" by (cases r) auto
    define k1 where "k1 = upd_thread next1 (\<lambda>x. x\<lparr>last_activation := fst (rdtscl k)\<rparr>) (snd (rdtscl k))"
    define k2 where "k2 = (if current_thread k1 \<noteq> idle_thread k1
        then upd_thread (current_thread k1) (\<lambda>x. x\<lparr>runtime := runtime x + (fst (rdtscl k) - last_activation x),
               timeslice := timeslice x - 1\<rparr>) k1 else k1)"
    have k2: "pend k2 = pend s"
      using pick_next_thread_pend[OF p] by (simp add: k2_def k1_def pend_upd_thread rdtscl_def)
    have unfold: "reschedule_loop s = (case handle_signals next1 k2 of Inl e \<Rightarrow> Some (Inl e)
        | Inr r \<Rightarrow> if fst r then Some (Inr (switch_to_thread next1 (snd r))) else reschedule_loop (snd r))"
      unfolding reschedule_loop.simps[of s] p
      by (simp only: sum.case prod.case Let_def k1_def k2_def case_prod_unfold fst_conv snd_conv)
    show ?thesis
    proof (cases "handle_signals next1 k2")
      case (Inr r)
      then obtain ok s' where h: "handle_signals next1 k2 = Inr (ok, s')" by (cases r) auto
      show ?thesis
      proof (cases ok)
        case False
        with h have "fewer_signals k2 s'" by (intro handle_signals_measure[of next1]) simp
        then have "fewer_signals s s'" by (simp only: fewer_signals_pend[OF k2])
        then have "\<exists>r. reschedule_loop s' = Some r" by (intro "1.IH") (auto simp: fewer_signals_def)
        with False h unfold show ?thesis by simp
      qed (use h unfold in simp)
    qed (use unfold in simp)
  qed (simp add: reschedule_loop.simps)
qed

end
