(* ===== verification/Sync.thy ===== *)
theory Sync
  imports Threads
begin

text \<open>
  \<^verbatim>\<open>lock/lock.c\<close>, \<^verbatim>\<open>kernel/wait_queue.c\<close>, \<^verbatim>\<open>kernel/files.c\<close> and \<^verbatim>\<open>users/user.c\<close>: sleeping locks with
  their wait queues, the device files built on them, and users.
\<close>

section \<open>Wait queues and locks\<close>

definition create_wait_queue :: "kernel \<Rightarrow> (u32 \<times> kernel) result" where
  "create_wait_queue s =
     res_bind (on_heap (kmalloc 8) s) (\<lambda>(w, s). Inr (w, on_queues (LIST_INIT (ThreadsWaiting w)) s))"

definition create_wait_queue_nosleep :: "kernel \<Rightarrow> (u32 \<times> kernel) result" where
  "create_wait_queue_nosleep s =
     res_bind (on_pages (kalloc_nosleep 0) s) (\<lambda>(w, s). Inr (w, on_queues (LIST_INIT (ThreadsWaiting w)) s))"

definition destroy_wait_queue :: "u32 \<Rightarrow> kernel \<Rightarrow> kernel result" where
  "destroy_wait_queue wq s = heap_do (kfree wq) (on_queues (list_remove (ThreadsWaiting wq)) s)"

definition make_lock :: "kernel \<Rightarrow> (u32 \<times> kernel) result" where
  "make_lock s =
     res_bind (on_heap (kmalloc 24) s) (\<lambda>(l, s).
       let s = upd_lock l (\<lambda>x. x\<lparr>l_id := locks_id s, l_state := LOCK_FREE\<rparr>) s;
           s = s\<lparr>locks_id := locks_id s + 1\<rparr>;
           (pi, s) = disable_int s;
           s = on_queues (list_add_head KernelLocks (LockHead l)) s;
           s = enable_int pi s
       in res_bind (create_wait_queue s) (\<lambda>(w, s). Inr (l, upd_lock l (\<lambda>x. x\<lparr>l_wait_q := w\<rparr>) s)))"

definition make_lock_nosleep :: "kernel \<Rightarrow> (u32 \<times> kernel) result" where
  "make_lock_nosleep s =
     res_bind (on_pages (kalloc_nosleep 0) s) (\<lambda>(l, s).
       let s = upd_lock l (\<lambda>x. x\<lparr>l_id := locks_id s, l_state := LOCK_FREE\<rparr>) s;
           s = s\<lparr>locks_id := locks_id s + 1\<rparr>;
           s = on_queues (list_add_head KernelLocks (LockHead l)) s
       in res_bind (create_wait_queue_nosleep s) (\<lambda>(w, s). Inr (l, upd_lock l (\<lambda>x. x\<lparr>l_wait_q := w\<rparr>) s)))"

definition destroy_lock :: "u32 \<Rightarrow> kernel \<Rightarrow> kernel result" where
  "destroy_lock l s =
     (let s = on_queues (list_remove (LockHead l)) s in
      res_bind (destroy_wait_queue (l_wait_q (locks s l)) s) (heap_do (kfree l)))"

text \<open>The five locks: \<^verbatim>\<open>kmem_lock\<close>, \<^verbatim>\<open>nmem_lock\<close>, \<^verbatim>\<open>slab_lock\<close>, \<^verbatim>\<open>screen_lock\<close>, \<^verbatim>\<open>work_queue_lock\<close>.\<close>

definition init_kernel_locks :: "kernel \<Rightarrow> ((u32 \<times> u32 \<times> u32 \<times> u32 \<times> u32) \<times> kernel) result" where
  "init_kernel_locks s =
     (let s = on_queues (LIST_INIT KernelLocks) s in
      res_bind (make_lock_nosleep s) (\<lambda>(kmem, s).
      res_bind (make_lock_nosleep s) (\<lambda>(nmem, s).
      res_bind (make_lock_nosleep s) (\<lambda>(slab, s).
      res_bind (make_lock_nosleep s) (\<lambda>(screen, s).
      res_bind (make_lock_nosleep s) (\<lambda>(wq, s).
        Inr ((kmem, nmem, slab, screen, wq),
          upd_lock wq (\<lambda>x. x\<lparr>l_state := LOCK_LOCKED, l_owner := NULL\<rparr>) s)))))))"

text \<open>\<^verbatim>\<open>test_lock\<close>: the old state; the lock is taken.\<close>

definition test_lock :: "u32 \<Rightarrow> kernel \<Rightarrow> u32 \<times> kernel" where
  "test_lock l s =
     (let (old, new) = test_spin_lock (l_state (locks s l))
      in (old, upd_lock l (\<lambda>x. x\<lparr>l_state := new\<rparr>) s))"

text \<open>One round of the loop of \<^verbatim>\<open>get_lock\<close>: the lock is acquired (\<open>True\<close>), or the caller is queued,
  put to sleep and switched away from (\<open>False\<close>); it runs the next round when it is back.\<close>

definition lock_enqueue :: "u32 \<Rightarrow> kernel \<Rightarrow> kernel" where
  "lock_enqueue l s =
     (let c = current_thread s;
          q = ThreadsWaiting (l_wait_q (locks s l))
      in if wait_flags (threads s c) = 0 then on_queues (list_add_head q (TWaitq c)) s
         else on_queues (list_add_tail q (TWaitq c)) s)"

definition get_lock_round :: "u32 \<Rightarrow> kernel \<Rightarrow> (bool \<times> kernel) result" where
  "get_lock_round l s =
     (let (old, s) = test_lock l s in
      if old = LOCK_LOCKED then
        let s = lock_enqueue l s;
            s = sleep_thread (current_thread s) s
        in res_bind (reschedule s) (\<lambda>s. Inr (False, s))
      else Inr (True, upd_lock l (\<lambda>x. x\<lparr>l_owner := current_thread s\<rparr>) s))"

text \<open>A caller that does not get the lock at once.\<close>

definition get_lock :: "u32 \<Rightarrow> kernel \<Rightarrow> kernel result" where
  "get_lock l s = res_bind (get_lock_round l s) (\<lambda>(ok, s). if ok then Inr s else Inl Sleeps)"

partial_function (option) wake_waiters :: "u32 \<Rightarrow> kernel \<Rightarrow> kernel result option" where
  "wake_waiters w s =
     (let l = nxt (queues s) (ThreadsWaiting w) in
      if l = ThreadsWaiting w then Some (Inr s)
      else case l of
        TWaitq t \<Rightarrow>
          (let s = on_queues (list_remove (TWaitq t)) s;
               s = wake_up_thread t s
           in if wait_flags (threads s t) = 1 then Some (Inr s) else wake_waiters w s)
      | _ \<Rightarrow> Some (Inl BadPointer))"

definition unlock :: "u32 \<Rightarrow> kernel \<Rightarrow> kernel result" where
  "unlock l s =
     (let s = upd_lock l (\<lambda>x. x\<lparr>l_owner := NULL\<rparr>) s;
          s = upd_lock l (\<lambda>x. x\<lparr>l_state := LOCK_FREE\<rparr>) s
      in res_bind (returns (wake_waiters (l_wait_q (locks s l)) s)) (\<lambda>r. r))"

section \<open>Files\<close>

definition DEV_STREAM :: u8 where "DEV_STREAM = 0"
definition DEV_BLOCK :: u8 where "DEV_BLOCK = 1"

definition set_pos_block :: "u32 \<Rightarrow> u32 \<Rightarrow> kernel \<Rightarrow> (u32 \<times> kernel) result" where
  "set_pos_block x pos s =
     res_bind (get_lock (f_lock (files s x)) s) (\<lambda>s.
       if pos \<ge> f_size (files s x)
       then res_bind (unlock (f_lock (files s x)) s) (\<lambda>s. Inr (- 1, s))
       else
         let s = upd_file x (\<lambda>y. y\<lparr>f_pos := pos\<rparr>) s
         in res_bind (unlock (f_lock (files s x)) s) (\<lambda>s. Inr (1, s)))"

definition write_byte_block :: "u32 \<Rightarrow> u8 \<Rightarrow> kernel \<Rightarrow> (u32 \<times> kernel) result" where
  "write_byte_block x b s =
     res_bind (get_lock (f_lock (files s x)) s) (\<lambda>s.
     res_bind (arr_set (f_buffer (files s x)) (unat (f_pos (files s x))) b) (\<lambda>buf.
       let s = upd_file x (\<lambda>y. y\<lparr>f_buffer := buf, f_pos := f_pos y + 1\<rparr>) s
       in res_bind (unlock (f_lock (files s x)) s) (\<lambda>s. Inr (1, s))))"

definition read_byte_block :: "u32 \<Rightarrow> kernel \<Rightarrow> (u8 \<times> kernel) result" where
  "read_byte_block x s =
     res_bind (get_lock (f_lock (files s x)) s) (\<lambda>s.
     res_bind (get_lock (f_read_lock (files s x)) s) (\<lambda>s.
     res_bind (arr_get (f_buffer (files s x)) (unat (f_pos (files s x)))) (\<lambda>out.
     res_bind (unlock (f_read_lock (files s x)) s) (\<lambda>s.
     res_bind (unlock (f_lock (files s x)) s) (\<lambda>s. Inr (out, s))))))"

definition write_byte_stream :: "u32 \<Rightarrow> u8 \<Rightarrow> kernel \<Rightarrow> (u32 \<times> kernel) result" where
  "write_byte_stream x b s =
     res_bind (get_lock (f_lock (files s x)) s) (\<lambda>s.
     res_bind (append (f_buffer (files s x)) b) (\<lambda>buf.
       let s = upd_file x (\<lambda>y. y\<lparr>f_buffer := buf\<rparr>) s;
           s = upd_file x (\<lambda>y. y\<lparr>f_available := f_available y + 1\<rparr>) s
       in res_bind (unlock (f_read_lock (files s x)) s) (\<lambda>s.
          res_bind (unlock (f_lock (files s x)) s) (\<lambda>s. Inr (1, s)))))"

text \<open>One round of \<^verbatim>\<open>read_byte_stream\<close>; \<open>None\<close> when the lock of the file is held: the reader gives
  back the read lock, lets others run and starts again.\<close>

definition read_byte_stream :: "u32 \<Rightarrow> kernel \<Rightarrow> (u8 option \<times> kernel) result" where
  "read_byte_stream x s =
     res_bind (get_lock (f_read_lock (files s x)) s) (\<lambda>s.
       let (old, s) = test_lock (f_lock (files s x)) s in
       if old = LOCK_LOCKED then
         let s = upd_lock (f_read_lock (files s x)) (\<lambda>l. l\<lparr>l_state := LOCK_FREE\<rparr>) s
         in res_bind (reschedule s) (\<lambda>s. Inr (None, s))
       else
         res_bind (arr_get (f_buffer (files s x)) (unat (f_last (files s x)))) (\<lambda>out.
           let s = upd_file x (\<lambda>y. y\<lparr>f_last := f_last y + 1\<rparr>) s;
               s = upd_file x (\<lambda>y. y\<lparr>f_available := f_available y - 1\<rparr>) s
           in res_bind
                (if f_available (files s x) \<le> 0 then
                   if length (f_buffer (files s x)) < 8192 then Inl OutOfBounds
                   else Inr (upd_file x (\<lambda>y. y\<lparr>f_buffer := replicate 8192 0 @ drop 8192 (f_buffer y),
                          f_last := 0\<rparr>) s)
                 else unlock (f_read_lock (files s x)) s) (\<lambda>s.
              res_bind (unlock (f_lock (files s x)) s) (\<lambda>s. Inr (Some out, s)))))"

definition copy_fd :: "u32 \<Rightarrow> u32 \<Rightarrow> kernel \<Rightarrow> kernel" where
  "copy_fd src d s =
     upd_file d (\<lambda>y. let x = files s src in
       y\<lparr>f_name := f_name x, f_buffer := f_buffer x, f_fd := f_fd x, f_last := f_last x,
         f_lock := f_lock x, f_pos := f_pos x, f_read_lock := f_read_lock x, f_size := f_size x,
         f_type := f_type x, f_available := f_available x\<rparr>) s"

text \<open>The position of a new file is left as the page was found.\<close>

definition create_device :: "u8 list \<Rightarrow> u8 \<Rightarrow> u8 \<Rightarrow> kernel \<Rightarrow> (u32 \<times> kernel) result" where
  "create_device name page_size type s =
     res_bind (on_pages (kalloc_page 0) s) (\<lambda>(f, s).
     res_bind (on_pages (kalloc_page 0) s) (\<lambda>(_, s).
     res_bind (strlen name) (\<lambda>name_length.
       let s = upd_file f (\<lambda>y. y\<lparr>f_name := take name_length name @ [0], f_fd := next_fd s\<rparr>) s;
           s = s\<lparr>next_fd := next_fd s + 1\<rparr>
       in
     res_bind (on_pages (kalloc_page (unat page_size)) s) (\<lambda>(_, s).
       let s = upd_file f (\<lambda>y. y\<lparr>f_buffer := replicate (4096 * 2 ^ unat page_size) 0\<rparr>) s;
           s = upd_file f (\<lambda>y. y\<lparr>f_available :=
                 (if type = DEV_STREAM then 0 else push_bit (unat page_size) PAGE_SIZE)\<rparr>) s;
           s = upd_file f (\<lambda>y. y\<lparr>f_last := 0\<rparr>) s
       in
     res_bind (make_lock s) (\<lambda>(l, s).
       let s = upd_file f (\<lambda>y. y\<lparr>f_lock := l\<rparr>) s in
     res_bind (make_lock s) (\<lambda>(rl, s).
       let s = upd_file f (\<lambda>y. y\<lparr>f_read_lock := rl\<rparr>) s;
           s = upd_lock rl (\<lambda>x. x\<lparr>l_state := LOCK_LOCKED\<rparr>) s;
           s = upd_lock l (\<lambda>x. x\<lparr>l_state := LOCK_FREE\<rparr>) s;
           s = upd_file f (\<lambda>y. y\<lparr>f_type := type, f_size := push_bit (unat page_size) PAGE_SIZE\<rparr>) s;
           s = on_queues (LIST_INIT (FdK f)) s;
           s = on_queues (LIST_INIT (FdQ f)) s;
           s = on_queues (list_add_head FileDescriptors (FdK f)) s
       in Inr (f, s)))))))"

definition create_block_device :: "u8 list \<Rightarrow> u8 \<Rightarrow> kernel \<Rightarrow> (u32 \<times> kernel) result" where
  "create_block_device name page_size = create_device name page_size DEV_BLOCK"

definition create_char_device :: "u8 list \<Rightarrow> u8 \<Rightarrow> kernel \<Rightarrow> (u32 \<times> kernel) result" where
  "create_char_device name page_size = create_device name page_size DEV_STREAM"

definition init_files :: "kernel \<Rightarrow> kernel result" where
  "init_files s =
     (let s = on_queues (LIST_INIT FileDescriptors) s in
      res_bind (create_char_device (cstr ''stdin'') 5 s) (\<lambda>(f, s).
      res_bind (create_block_device (cstr ''stdout'') 2 (s\<lparr>stdin := f\<rparr>)) (\<lambda>(f, s).
      res_bind (create_block_device (cstr ''stderr'') 2 (s\<lparr>stdout := f\<rparr>)) (\<lambda>(f, s).
        Inr (s\<lparr>stderr := f\<rparr>)))))"

section \<open>Users\<close>

text \<open>The terminator of the name is written one byte beyond what was allocated for it.\<close>

definition create_user :: "u8 list \<Rightarrow> kernel \<Rightarrow> (u32 \<times> kernel) result" where
  "create_user name s =
     res_bind (on_heap (kmalloc 20) s) (\<lambda>(u, s).
     res_bind (strlen name) (\<lambda>name_length.
     res_bind (on_heap (kmalloc (word_of_nat name_length)) s) (\<lambda>(_, s).
       let s = s\<lparr>users := (users s)(u := \<lparr>uid = next_uid s, gid = 0, username = take name_length name @ [0]\<rparr>)\<rparr>;
           s = s\<lparr>next_uid := next_uid s + 1\<rparr>;
           s = on_queues (list_add_head UserList (UserQ u)) s
       in Inr (u, s))))"

definition init_users :: "kernel \<Rightarrow> kernel result" where
  "init_users s =
     (let s = on_queues (LIST_INIT UserList) s in
      res_bind (create_user (cstr ''root'') s) (\<lambda>(u, s). Inr (s\<lparr>root_user := u\<rparr>)))"

end
