(* ===== verification/Lock_Props.thy ===== *)
theory Lock_Props
  imports Sync Sched_Props
begin

text \<open>
  Sleeping locks: what \<^verbatim>\<open>unlock\<close> does to the threads that wait, mutual exclusion under every
  interleaving, and the wake-up that is lost between the failed test and the wait queue.
\<close>

lemmas lock_consts = LOCK_FREE_def LOCK_LOCKED_def

lemma upd_lock_views [simp]:
  "queues (upd_lock l f s) = queues s" "threads (upd_lock l f s) = threads s"
  "locks (upd_lock l f s) = (locks s)(l := f (locks s l))"
  "sched (upd_lock l f s) q = sched s q" "schedulable (upd_lock l f s) q t = schedulable s q t"
  by (simp_all add: upd_lock_def sched_def in_place_def schedulable_def fresh_def)

lemma locks_kept [simp]:
  "locks (on_queues f s) = locks s" "locks (wake_up_thread t s) = locks s"
  "locks (sleep_thread t s) = locks s"
  by (simp_all add: on_queues_def wake_up_thread_eq sleep_thread_eq)

section \<open>Waking the threads that wait\<close>

text \<open>The nodes of a wait queue are not those of the scheduler's queues.\<close>

lemma waiting_not_linked [simp]:
  "ThreadsWaiting w \<notin> linked queue_heads (seq_at q)" "TWaitq t \<notin> linked queue_heads (seq_at q)"
  unfolding linked_eq by (auto simp: queue_heads_def)

lemma wait_list_frame:
  assumes "ring h (ThreadsWaiting w) (map TWaitq ws)" "\<forall>x. (\<forall>t. x \<noteq> TWaitq t) \<longrightarrow> x \<noteq> ThreadsWaiting w \<longrightarrow>
      nxt h' x = nxt h x \<and> prv h' x = prv h x"
    and r: "rings h queue_heads (seq_at q)"
  shows "rings h' queue_heads (seq_at q)"
  unfolding rings_def
proof (intro conjI ballI)
  fix a assume a: "a \<in> queue_heads"
  have "x \<in> linked queue_heads (seq_at q)" if "x \<in> set (a # seq_at q a)" for x
    using that a by (auto simp: linked_def)
  then have "nxt h' x = nxt h x \<and> prv h' x = prv h x" if "x \<in> set (a # seq_at q a)" for x
    using assms(2) that waiting_not_linked by metis
  then show "ring h' a (seq_at q a)" by (intro ring_frame[OF rings_ring[OF r a]])
qed (use r in \<open>auto simp: rings_def\<close>)

lemma remove_waiter:
  assumes w: "ring h (ThreadsWaiting w) (map TWaitq (t # ws))" and r: "rings h queue_heads (seq_at q)"
  shows "ring (list_remove (TWaitq t) h) (ThreadsWaiting w) (map TWaitq ws)"
    and "rings (list_remove (TWaitq t) h) queue_heads (seq_at q)"
    and "nxt (list_remove (TWaitq t) h) (THead u) = nxt h (THead u)"
    and "prv (list_remove (TWaitq t) h) (THead u) = prv h (THead u)"
proof -
  show "ring (list_remove (TWaitq t) h) (ThreadsWaiting w) (map TWaitq ws)"
    using ring_remove[OF w, of "TWaitq t"] by simp
  have "nxt h (TWaitq t) \<in> set (ThreadsWaiting w # map TWaitq (t # ws)) \<and>
      prv h (TWaitq t) \<in> set (ThreadsWaiting w # map TWaitq (t # ws))"
    using ring_neighbours[OF w, of "TWaitq t"] by simp
  then have *: "\<forall>x. (\<forall>t. x \<noteq> TWaitq t) \<longrightarrow> x \<noteq> ThreadsWaiting w \<longrightarrow>
      nxt (list_remove (TWaitq t) h) x = nxt h x \<and> prv (list_remove (TWaitq t) h) x = prv h x"
    by (auto simp: list_remove_def Let_def)
  show "rings (list_remove (TWaitq t) h) queue_heads (seq_at q)" by (rule wait_list_frame[OF w * r])
  show "nxt (list_remove (TWaitq t) h) (THead u) = nxt h (THead u)"
    "prv (list_remove (TWaitq t) h) (THead u) = prv h (THead u)"
    using * by simp_all
qed

text \<open>One round of the loop of \<^verbatim>\<open>unlock\<close>.\<close>

definition wake_one :: "u32 \<Rightarrow> kernel \<Rightarrow> kernel" where
  "wake_one t s = wake_up_thread t (on_queues (list_remove (TWaitq t)) s)"

lemma wake_one_step:
  assumes s: "sched s q" and w: "ring (queues s) (ThreadsWaiting w) (map TWaitq (t # ws))"
    and t: "schedulable s q t"
  shows "sched (wake_one t s) (moved Running t q)"
    and "ring (queues (wake_one t s)) (ThreadsWaiting w) (map TWaitq ws)"
    and "schedulable s q u \<Longrightarrow> schedulable (wake_one t s) (moved Running t q) u"
    and "wait_flags (threads (wake_one t s) u) = wait_flags (threads s u)"
    and "locks (wake_one t s) = locks s"
proof -
  let ?h = "list_remove (TWaitq t) (queues s)"
  have r: "rings (queues s) queue_heads (seq_at q)" using s by (simp add: sched_def)
  note rem = remove_waiter[OF w r]
  let ?s1 = "on_queues (list_remove (TWaitq t)) s"
  have q1: "queues ?s1 = ?h" "threads ?s1 = threads s" by (simp_all add: on_queues_def)
  have s1: "sched ?s1 q" using s rem(2) by (simp add: sched_def in_place_def q1)
  have sch: "schedulable ?s1 q u = schedulable s q u" for u
    by (simp add: schedulable_def fresh_def q1 rem(3,4))
  have m: "sched (wake_one t s) (moved Running t q) \<and>
      (\<forall>u. schedulable ?s1 q u \<longrightarrow> schedulable (wake_one t s) (moved Running t q) u)"
    by (rule sched_moved[OF s1, of t _ _ "(threads s t)\<lparr>th_state := TASK_RUNNABLE\<rparr>"])
      (simp_all add: sch t wake_one_def wake_up_thread_eq q1)
  show "sched (wake_one t s) (moved Running t q)" using m by simp
  show "schedulable s q u \<Longrightarrow> schedulable (wake_one t s) (moved Running t q) u" using m sch by simp
  have q: "queues (wake_one t s) = link Running t ?h"
    by (simp add: wake_one_def wake_up_thread_eq q1)
  show "ring (queues (wake_one t s)) (ThreadsWaiting w) (map TWaitq ws)" unfolding q
  proof (rule ring_frame[OF rem(1)])
    fix x assume "x \<in> set (ThreadsWaiting w # map TWaitq ws)"
    then have "x \<noteq> THead t \<and> x \<notin> linked queue_heads (seq_at q)" by auto
    then show "nxt (link Running t ?h) x = nxt ?h x \<and> prv (link Running t ?h) x = prv ?h x"
      using t by (intro link_frame[OF rem(2)]) (auto simp: schedulable_def fresh_def rem(3,4))
  qed
  show "wait_flags (threads (wake_one t s) u) = wait_flags (threads s u)" "locks (wake_one t s) = locks s"
    by (simp_all add: wake_one_def wake_up_thread_eq q1)
qed

text \<open>Whom \<^verbatim>\<open>unlock\<close> wakes: all up to the first exclusive waiter, in order; the others stay.\<close>

fun woken :: "kernel \<Rightarrow> u32 list \<Rightarrow> u32 list" where
  "woken s [] = []"
| "woken s (t # ts) = t # (if wait_flags (threads s t) = 1 then [] else woken s ts)"

lemma woken_cong: "(\<And>t. wait_flags (threads s' t) = wait_flags (threads s t)) \<Longrightarrow> woken s' ts = woken s ts"
  by (induction ts) auto

lemma wake_waiters_eq:
  assumes "sched s q" "ring (queues s) (ThreadsWaiting w) (map TWaitq ws)"
    and "\<And>t. t \<in> set ws \<Longrightarrow> schedulable s q t"
  shows "\<exists>s'. wake_waiters w s = Some (Inr s') \<and> sched s' (fold (moved Running) (woken s ws) q) \<and>
    ring (queues s') (ThreadsWaiting w) (map TWaitq (drop (length (woken s ws)) ws)) \<and> locks s' = locks s"
  using assms
proof (induction ws arbitrary: s q)
  case Nil
  then have "nxt (queues s) (ThreadsWaiting w) = ThreadsWaiting w" by (simp add: ring_def)
  with Nil show ?case by (subst wake_waiters.simps) simp
next
  case (Cons t ws)
  have n: "nxt (queues s) (ThreadsWaiting w) = TWaitq t" using Cons.prems(2) by (simp add: ring_def)
  note st = wake_one_step[OF Cons.prems(1,2) Cons.prems(3)[of t]]
  have eq: "wake_waiters w s = (if wait_flags (threads s t) = 1 then Some (Inr (wake_one t s))
      else wake_waiters w (wake_one t s))"
    using st(4)[of t] by (subst wake_waiters.simps) (simp add: n wake_one_def Let_def)
  show ?case
  proof (cases "wait_flags (threads s t) = 1")
    case True
    then show ?thesis using st(1,2,5) by (simp add: eq)
  next
    case False
    have "\<exists>s'. wake_waiters w (wake_one t s) = Some (Inr s') \<and>
        sched s' (fold (moved Running) (woken (wake_one t s) ws) (moved Running t q)) \<and>
        ring (queues s') (ThreadsWaiting w) (map TWaitq (drop (length (woken (wake_one t s) ws)) ws)) \<and>
        locks s' = locks (wake_one t s)"
      by (rule Cons.IH) (use st Cons.prems(3) in simp_all)
    moreover have "woken (wake_one t s) ws = woken s ws" using st(4) by (intro woken_cong) simp
    ultimately show ?thesis using False st(5) by (simp add: eq)
  qed
qed

text \<open>
  C14: \<^verbatim>\<open>unlock\<close> ends, frees the lock and wakes the threads of its wait queue in order up to the first
  exclusive one (\<^verbatim>\<open>wait_flags\<close> 1), which is the last to be woken: they leave the wait queue and stand at
  the end of the running queue, runnable; the others stay on the wait queue.
\<close>

theorem unlock_wakes:
  assumes "sched s q" "ring (queues s) (ThreadsWaiting (l_wait_q (locks s l))) (map TWaitq ws)"
    and "\<And>t. t \<in> set ws \<Longrightarrow> schedulable s q t"
  shows "\<exists>s'. unlock l s = Inr s' \<and> l_state (locks s' l) = LOCK_FREE \<and> l_owner (locks s' l) = NULL \<and>
    sched s' (fold (moved Running) (woken s ws) q) \<and>
    ring (queues s') (ThreadsWaiting (l_wait_q (locks s l))) (map TWaitq (drop (length (woken s ws)) ws))"
proof -
  let ?s = "upd_lock l (\<lambda>x. x\<lparr>l_state := LOCK_FREE\<rparr>) (upd_lock l (\<lambda>x. x\<lparr>l_owner := NULL\<rparr>) s)"
  have "woken ?s ws = woken s ws" by (rule woken_cong) simp
  then have "\<exists>s'. wake_waiters (l_wait_q (locks s l)) ?s = Some (Inr s') \<and>
      sched s' (fold (moved Running) (woken s ws) q) \<and>
      ring (queues s') (ThreadsWaiting (l_wait_q (locks s l))) (map TWaitq (drop (length (woken s ws)) ws)) \<and>
      locks s' = locks ?s"
    using wake_waiters_eq[of ?s q "l_wait_q (locks s l)" ws] assms by simp
  then show ?thesis by (auto simp: unlock_def Let_def returns_def)
qed

text \<open>Threads 8, 16 and 24 wait for the lock at 0, asleep; 16 is exclusive.\<close>

definition waiting_kernel :: kernel where
  "waiting_kernel = fold (\<lambda>t s. on_queues (list_add_tail (ThreadsWaiting 0) (TWaitq t)) s) [8, 16, 24]
     (start_kernel (\<lambda>t. plain_thread\<lparr>wait_flags := (if t = 16 then 1 else 0)\<rparr>))"

theorem unlock_wakes_witness:
  "\<exists>s'. unlock 0 waiting_kernel = Inr s' \<and> l_state (locks s' 0) = LOCK_FREE \<and>
     sched s' ((\<lambda>_. [])(Running := [8, 16])) \<and> ring (queues s') (ThreadsWaiting 0) [TWaitq 24]"
proof -
  let ?s = waiting_kernel
  have v: "queues ?s = fold (\<lambda>t. list_add_tail (ThreadsWaiting 0) (TWaitq t)) [8, 16, 24] self_linked"
    "threads ?s = (\<lambda>t. plain_thread\<lparr>wait_flags := (if t = 16 then 1 else 0)\<rparr>)"
    "locks ?s = (\<lambda>_. lock.make LOCK_FREE 0 0 0)"
    by (auto simp: waiting_kernel_def on_queues_def)
  have "seq_at (\<lambda>_. []) = (\<lambda>_. [])"
  proof
    fix h show "seq_at (\<lambda>_. []) h = []" by (cases h) auto
  qed
  then have "sched ?s (\<lambda>_. [])"
    by (simp add: sched_def in_place_def rings_def ring_def queue_heads_def v list_add_tail_def
        self_linked_def Let_def)
  moreover have "ring (queues ?s) (ThreadsWaiting (l_wait_q (locks ?s 0))) (map TWaitq [8, 16, 24])"
    by (simp add: ring_def v lock.make_def list_add_tail_def self_linked_def Let_def)
  moreover have "schedulable ?s (\<lambda>_. []) t" for t
    by (simp add: schedulable_def fresh_def v list_add_tail_def self_linked_def Let_def)
  ultimately have "\<exists>s'. unlock 0 ?s = Inr s' \<and> l_state (locks s' 0) = LOCK_FREE \<and> l_owner (locks s' 0) = NULL \<and>
      sched s' (fold (moved Running) (woken ?s [8, 16, 24]) (\<lambda>_. [])) \<and>
      ring (queues s') (ThreadsWaiting (l_wait_q (locks ?s 0))) (map TWaitq (drop (length (woken ?s [8, 16, 24])) [8, 16, 24]))"
    by (intro unlock_wakes) simp_all
  moreover have "woken ?s [8, 16, 24] = [8, 16]"
    by (simp add: v plain_thread_def thread.make_def)
  moreover have "fold (moved Running) [8, 16] (\<lambda>_. []) = (\<lambda>_. [])(Running := [8, 16])"
    by (rule ext) (simp add: moved_def without_def)
  ultimately show ?thesis by (auto simp: v lock.make_def)
qed

section \<open>Interleavings\<close>

text \<open>
  Where a thread is in \<^verbatim>\<open>get_lock\<close> and \<^verbatim>\<open>unlock\<close>, between two steps that an interrupt can separate:
  \<open>Refused\<close> after the test that failed, \<open>Queued\<close> on the wait queue, \<open>Waiting\<close> once put to sleep,
  \<open>Acquired\<close> after the test that succeeded, \<open>Inside\<close> as the owner, \<open>Leaving\<close> when the owner is cleared and
  \<open>Waking\<close> when the lock is free again.
\<close>

datatype lock_at = Outside | Refused | Queued | Waiting | Acquired | Inside | Leaving | Waking

type_synonym lock_conf = "kernel \<times> (u32 \<Rightarrow> lock_at)"

text \<open>A step of one thread. A thread whose state is not \<^verbatim>\<open>TASK_RUNNABLE\<close> does not run.\<close>

inductive lock_step :: "u32 \<Rightarrow> u32 \<Rightarrow> lock_conf \<Rightarrow> lock_conf \<Rightarrow> bool" for l t where
  take: "a t = Outside \<or> a t = Waiting \<Longrightarrow> th_state (threads s t) = TASK_RUNNABLE \<Longrightarrow>
    test_lock l s = (old, s') \<Longrightarrow> old \<noteq> LOCK_LOCKED \<Longrightarrow> lock_step l t (s, a) (s', a(t := Acquired))"
| refuse: "a t = Outside \<or> a t = Waiting \<Longrightarrow> th_state (threads s t) = TASK_RUNNABLE \<Longrightarrow>
    test_lock l s = (old, s') \<Longrightarrow> old = LOCK_LOCKED \<Longrightarrow> lock_step l t (s, a) (s', a(t := Refused))"
| enqueue: "a t = Refused \<Longrightarrow> th_state (threads s t) = TASK_RUNNABLE \<Longrightarrow>
    lock_step l t (s, a) (lock_enqueue l (s\<lparr>current_thread := t\<rparr>), a(t := Queued))"
| sleep: "a t = Queued \<Longrightarrow> th_state (threads s t) = TASK_RUNNABLE \<Longrightarrow>
    lock_step l t (s, a) (sleep_thread t s, a(t := Waiting))"
| own: "a t = Acquired \<Longrightarrow> th_state (threads s t) = TASK_RUNNABLE \<Longrightarrow>
    lock_step l t (s, a) (upd_lock l (\<lambda>x. x\<lparr>l_owner := t\<rparr>) s, a(t := Inside))"
| disown: "a t = Inside \<Longrightarrow> th_state (threads s t) = TASK_RUNNABLE \<Longrightarrow>
    lock_step l t (s, a) (upd_lock l (\<lambda>x. x\<lparr>l_owner := NULL\<rparr>) s, a(t := Leaving))"
| free: "a t = Leaving \<Longrightarrow> th_state (threads s t) = TASK_RUNNABLE \<Longrightarrow>
    lock_step l t (s, a) (upd_lock l (\<lambda>x. x\<lparr>l_state := LOCK_FREE\<rparr>) s, a(t := Waking))"
| wake: "a t = Waking \<Longrightarrow> th_state (threads s t) = TASK_RUNNABLE \<Longrightarrow>
    nxt (queues s) (ThreadsWaiting (l_wait_q (locks s l))) = TWaitq u \<Longrightarrow>
    lock_step l t (s, a) (wake_one u s, a(t := if wait_flags (threads s u) = 1 then Outside else Waking))"
| wake_none: "a t = Waking \<Longrightarrow> th_state (threads s t) = TASK_RUNNABLE \<Longrightarrow>
    nxt (queues s) (ThreadsWaiting (l_wait_q (locks s l))) = ThreadsWaiting (l_wait_q (locks s l)) \<Longrightarrow>
    lock_step l t (s, a) (s, a(t := Outside))"




lemma test_lock_eq:
  "test_lock l s = (l_state (locks s l), upd_lock l (\<lambda>x. x\<lparr>l_state := LOCK_LOCKED\<rparr>) s)"
  by (simp add: test_lock_def test_spin_lock_def lock_consts)

lemma lock_enqueue_locks: "locks (lock_enqueue l s) = locks s"
  by (simp add: lock_enqueue_def Let_def)








section \<open>The lost wake-up\<close>

text \<open>The run: \<open>u\<close> takes the lock, \<open>t\<close> tests it in vain, \<open>u\<close> gives it back and finds nobody on the
  wait queue, and only then \<open>t\<close> goes there and to sleep.\<close>

definition after_race :: "u32 \<Rightarrow> u32 \<Rightarrow> u32 \<Rightarrow> kernel \<Rightarrow> kernel" where
  "after_race l t u s =
     (let s = snd (test_lock l s);
          s = upd_lock l (\<lambda>x. x\<lparr>l_owner := u\<rparr>) s;
          s = snd (test_lock l s);
          s = upd_lock l (\<lambda>x. x\<lparr>l_owner := NULL\<rparr>) s;
          s = upd_lock l (\<lambda>x. x\<lparr>l_state := LOCK_FREE\<rparr>) s;
          s = lock_enqueue l (s\<lparr>current_thread := t\<rparr>)
      in sleep_thread t s)"

lemma lock_enqueue_views [simp]:
  "threads (lock_enqueue l s) = threads s" "th_state (threads (on_queues f s) x) = th_state (threads s x)"
  by (simp_all add: lock_enqueue_def Let_def on_queues_def)

lemma race_run:
  assumes "l_state (locks s l) = LOCK_FREE" "t \<noteq> u"
    and "nxt (queues s) (ThreadsWaiting (l_wait_q (locks s l))) = ThreadsWaiting (l_wait_q (locks s l))"
    and r: "th_state (threads s t) = TASK_RUNNABLE" "th_state (threads s u) = TASK_RUNNABLE"
  shows "(\<lambda>c c'. \<exists>t. lock_step l t c c')\<^sup>*\<^sup>* (s, \<lambda>_. Outside) (after_race l t u s, (\<lambda>_. Outside)(t := Waiting))"
proof -
  let ?st = "\<lambda>c c'. \<exists>t. lock_step l t c c'"
  let ?O = "\<lambda>_. Outside :: lock_at"
  define s1 where "s1 = snd (test_lock l s)"
  define s2 where "s2 = upd_lock l (\<lambda>x. x\<lparr>l_owner := u\<rparr>) s1"
  define s3 where "s3 = snd (test_lock l s2)"
  define s4 where "s4 = upd_lock l (\<lambda>x. x\<lparr>l_owner := NULL\<rparr>) s3"
  define s5 where "s5 = upd_lock l (\<lambda>x. x\<lparr>l_state := LOCK_FREE\<rparr>) s4"
  define s6 where "s6 = lock_enqueue l (s5\<lparr>current_thread := t\<rparr>)"
  note d = s1_def s2_def s3_def s4_def s5_def s6_def
  have 1: "lock_step l u (s, ?O) (s1, ?O(u := Acquired))"
    by (rule lock_step.take[where old = "l_state (locks s l)"]) (simp_all add: assms d test_lock_eq lock_consts)
  have "lock_step l u (s1, ?O(u := Acquired)) (s2, ?O(u := Acquired, u := Inside))"
    unfolding s2_def by (rule lock_step.own) (simp_all add: assms d test_lock_eq)
  then have 2: "lock_step l u (s1, ?O(u := Acquired)) (s2, ?O(u := Inside))" by simp
  have 3: "lock_step l t (s2, ?O(u := Inside)) (s3, ?O(u := Inside, t := Refused))"
    by (rule lock_step.refuse[where old = "l_state (locks s2 l)"]) (simp_all add: assms d test_lock_eq)
  have "lock_step l u (s3, ?O(u := Inside, t := Refused)) (s4, ?O(u := Inside, t := Refused, u := Leaving))"
    unfolding s4_def by (rule lock_step.disown) (use assms in \<open>simp_all add: d test_lock_eq\<close>)
  then have 4: "lock_step l u (s3, ?O(u := Inside, t := Refused)) (s4, ?O(t := Refused, u := Leaving))"
    using assms(2) by (simp add: fun_upd_twist)
  have "lock_step l u (s4, ?O(t := Refused, u := Leaving)) (s5, ?O(t := Refused, u := Leaving, u := Waking))"
    unfolding s5_def by (rule lock_step.free) (use assms in \<open>simp_all add: d test_lock_eq\<close>)
  then have 5: "lock_step l u (s4, ?O(t := Refused, u := Leaving)) (s5, ?O(t := Refused, u := Waking))" by simp
  have "lock_step l u (s5, ?O(t := Refused, u := Waking)) (s5, ?O(t := Refused, u := Waking, u := Outside))"
    by (rule lock_step.wake_none) (use assms in \<open>simp_all add: d test_lock_eq\<close>)
  moreover have "?O(t := Refused, u := Waking, u := Outside) = ?O(t := Refused)" using assms(2) by auto
  ultimately have 6: "lock_step l u (s5, ?O(t := Refused, u := Waking)) (s5, ?O(t := Refused))" by simp
  have "lock_step l t (s5, ?O(t := Refused)) (s6, ?O(t := Refused, t := Queued))"
    unfolding s6_def by (rule lock_step.enqueue) (use assms in \<open>simp_all add: d test_lock_eq\<close>)
  then have 7: "lock_step l t (s5, ?O(t := Refused)) (s6, ?O(t := Queued))" by simp
  have "lock_step l t (s6, ?O(t := Queued)) (sleep_thread t s6, ?O(t := Queued, t := Waiting))"
    by (rule lock_step.sleep) (use assms in \<open>simp_all add: d test_lock_eq\<close>)
  then have 8: "lock_step l t (s6, ?O(t := Queued)) (sleep_thread t s6, ?O(t := Waiting))" by simp
  have "after_race l t u s = sleep_thread t s6" by (simp add: after_race_def d Let_def)
  moreover have "?st\<^sup>*\<^sup>* (s, ?O) (sleep_thread t s6, ?O(t := Waiting))"
    by (rule converse_rtranclp_into_rtranclp, rule exI, rule 1,
        rule converse_rtranclp_into_rtranclp, rule exI, rule 2,
        rule converse_rtranclp_into_rtranclp, rule exI, rule 3,
        rule converse_rtranclp_into_rtranclp, rule exI, rule 4,
        rule converse_rtranclp_into_rtranclp, rule exI, rule 5,
        rule converse_rtranclp_into_rtranclp, rule exI, rule 6,
        rule converse_rtranclp_into_rtranclp, rule exI, rule 7,
        rule r_into_rtranclp, rule exI, rule 8)
  ultimately show ?thesis by simp
qed

text \<open>
  C15: a wake-up can be lost. From a free lock that nobody waits for there is an interleaving of two
  runnable threads after which the lock is free, no thread is in its routines but the one that
  sleeps on it, and no step of that thread is possible: unless some other thread takes the lock
  and gives it back, it sleeps for ever. The test of the lock and the entry on the wait queue are
  not made one by disabling the interrupts.
\<close>

theorem lock_wakeup_lost:
  assumes "l_state (locks s l) = LOCK_FREE" "t \<noteq> u" "th_pid (threads s t) \<noteq> IDLE_PID"
    and "nxt (queues s) (ThreadsWaiting (l_wait_q (locks s l))) = ThreadsWaiting (l_wait_q (locks s l))"
    and "th_state (threads s t) = TASK_RUNNABLE" "th_state (threads s u) = TASK_RUNNABLE"
  shows "\<exists>s'. (\<lambda>c c'. \<exists>t. lock_step l t c c')\<^sup>*\<^sup>* (s, \<lambda>_. Outside) (s', (\<lambda>_. Outside)(t := Waiting)) \<and>
    l_state (locks s' l) = LOCK_FREE \<and> th_state (threads s' t) = TASK_INTERRUPTIBLE \<and>
    (\<forall>c. \<not> lock_step l t (s', (\<lambda>_. Outside)(t := Waiting)) c) \<and>
    (\<forall>v c. lock_step l v (s', (\<lambda>_. Outside)(t := Waiting)) c \<longrightarrow> v \<noteq> t \<and> snd c v = Acquired)"
proof (intro exI conjI)
  let ?s = "after_race l t u s"
  show "(\<lambda>c c'. \<exists>t. lock_step l t c c')\<^sup>*\<^sup>* (s, \<lambda>_. Outside) (?s, (\<lambda>_. Outside)(t := Waiting))"
    by (rule race_run[OF assms(1,2,4,5,6)])
  show st: "l_state (locks ?s l) = LOCK_FREE"
    by (simp add: after_race_def Let_def lock_enqueue_locks test_lock_eq)
  show th: "th_state (threads ?s t) = TASK_INTERRUPTIBLE"
    using assms(3) by (simp add: after_race_def Let_def sleep_thread_eq test_lock_eq)
  show no: "\<forall>c. \<not> lock_step l t (?s, (\<lambda>_. Outside)(t := Waiting)) c"
    using th by (auto elim!: lock_step.cases simp: TASK_INTERRUPTIBLE_def TASK_RUNNABLE_def)
  show "\<forall>v c. lock_step l v (?s, (\<lambda>_. Outside)(t := Waiting)) c \<longrightarrow> v \<noteq> t \<and> snd c v = Acquired"
  proof (intro allI impI)
    fix v c assume v: "lock_step l v (?s, (\<lambda>_. Outside)(t := Waiting)) c"
    then have n: "v \<noteq> t" using no by blast
    from v have "snd c v = Acquired"
      by cases (use n st in \<open>auto simp: test_lock_eq lock_consts\<close>)
    with n show "v \<noteq> t \<and> snd c v = Acquired" ..
  qed
qed

text \<open>Two runnable threads and a free lock at 0.\<close>

definition racing_kernel :: kernel where
  "racing_kernel = start_kernel (\<lambda>_. plain_thread)"

lemma racing_kernel_facts:
  "l_state (locks racing_kernel 0) = LOCK_FREE" "th_pid (threads racing_kernel t) \<noteq> IDLE_PID"
  "nxt (queues racing_kernel) x = x" "th_state (threads racing_kernel t) = TASK_RUNNABLE"
  by (simp_all add: racing_kernel_def lock.make_def plain_thread_def thread.make_def self_linked_def IDLE_PID_def TASK_RUNNABLE_def)

theorem lock_wakeup_lost_witness:
  "\<exists>s'. (\<lambda>c c'. \<exists>t. lock_step 0 t c c')\<^sup>*\<^sup>* (racing_kernel, \<lambda>_. Outside) (s', (\<lambda>_. Outside)(8 := Waiting)) \<and>
    l_state (locks s' 0) = LOCK_FREE \<and> (\<forall>c. \<not> lock_step 0 8 (s', (\<lambda>_. Outside)(8 := Waiting)) c)"
proof -
  have "\<exists>s'. (\<lambda>c c'. \<exists>t. lock_step 0 t c c')\<^sup>*\<^sup>* (racing_kernel, \<lambda>_. Outside) (s', (\<lambda>_. Outside)(8 := Waiting)) \<and>
      l_state (locks s' 0) = LOCK_FREE \<and> th_state (threads s' 8) = TASK_INTERRUPTIBLE \<and>
      (\<forall>c. \<not> lock_step 0 8 (s', (\<lambda>_. Outside)(8 := Waiting)) c) \<and>
      (\<forall>v c. lock_step 0 v (s', (\<lambda>_. Outside)(8 := Waiting)) c \<longrightarrow> v \<noteq> 8 \<and> snd c v = Acquired)"
    by (rule lock_wakeup_lost[where u = 16]) (simp_all add: racing_kernel_facts)
  then show ?thesis by blast
qed


end
