(* ===== verification/Process.thy ===== *)
theory Process
  imports Sync
begin

text \<open>
  The life of a process: creation (\<^verbatim>\<open>proc/thread.c\<close>), cloning (\<^verbatim>\<open>proc/clone.c\<close>), loading of an ELF
  program (\<^verbatim>\<open>kernel/elf.c\<close>), the system calls (\<^verbatim>\<open>kernel/syscall.c\<close>), the work queue thread
  (\<^verbatim>\<open>proc/work_queue.c\<close>), the keyboard that feeds it (\<^verbatim>\<open>drivers/keyboard.c\<close>) and the reaping of dead
  processes (\<^verbatim>\<open>bin/kswap.c\<close>). A call that switches to another thread ends there in the model; what
  the caller does when it runs again is an operation of its own.
\<close>

section \<open>Creation\<close>

definition KERNEL_CS :: u32 where "KERNEL_CS = 8"
definition KERNEL_DS :: u32 where "KERNEL_DS = 16"
definition USER_CS :: u32 where "USER_CS = 27"
definition USER_DS :: u32 where "USER_DS = 35"
definition K_ESP_SIZE :: u32 where "K_ESP_SIZE = 8"
definition U_ESP_SIZE :: u32 where "U_ESP_SIZE = 10"
definition USER_STACK_TOP :: u32 where "USER_STACK_TOP = 0xC0000000"

definition put_word :: "u32 \<Rightarrow> u32 \<Rightarrow> kernel \<Rightarrow> kernel" where
  "put_word a w s = s\<lparr>paging := upd_word a (\<lambda>_. w) (paging s)\<rparr>"

definition clear_page :: "u32 \<Rightarrow> kernel \<Rightarrow> kernel" where
  "clear_page p s = s\<lparr>paging := zero_page p (paging s)\<rparr>"

definition set_kernel_esp :: "u32 \<Rightarrow> u32 \<Rightarrow> kernel \<Rightarrow> kernel" where
  "set_kernel_esp kesp entry_point s =
     (let s = put_word (entry kesp 7) 0x200 s;
          s = put_word (entry kesp 6) KERNEL_CS s;
          s = put_word (entry kesp 5) entry_point s;
          s = put_word (entry kesp 4) 0 s;
          s = put_word (entry kesp 3) 0 s;
          s = put_word (entry kesp 2) 0 s;
          s = put_word (entry kesp 1) 0 s
      in put_word (entry kesp 0) KERNEL_DS s)"

definition set_user_esp :: "u32 \<Rightarrow> u32 \<Rightarrow> u32 \<Rightarrow> kernel \<Rightarrow> kernel" where
  "set_user_esp uesp entry_point user_stack s =
     (let s = put_word (entry uesp 9) USER_DS s;
          s = put_word (entry uesp 8) user_stack s;
          s = put_word (entry uesp 7) 0x200 s;
          s = put_word (entry uesp 6) USER_CS s;
          s = put_word (entry uesp 5) entry_point s;
          s = put_word (entry uesp 4) 0 s;
          s = put_word (entry uesp 3) 0 s;
          s = put_word (entry uesp 2) 0 s;
          s = put_word (entry uesp 1) 0 s
      in put_word (entry uesp 0) USER_DS s)"

text \<open>\<^verbatim>\<open>sizeof(Thread)\<close> is 164. The fields \<^verbatim>\<open>wait4\<close>, \<^verbatim>\<open>exit_value\<close> and \<^verbatim>\<open>sleeping_lock\<close> are left as
  the memory was found. The name is copied with its terminator.\<close>

definition copy_name :: "u32 \<Rightarrow> u8 list \<Rightarrow> kernel \<Rightarrow> kernel result" where
  "copy_name t args s =
     res_bind (strlen args) (\<lambda>name_length.
     res_bind (on_heap (kmalloc (word_of_nat (name_length + 1))) s) (\<lambda>(proc_name, s).
       let s = s\<lparr>names := (names s)(proc_name := take name_length args @ [0])\<rparr>
       in Inr (upd_thread t (\<lambda>x. x\<lparr>command := proc_name\<rparr>) s)))"

definition inherit_files :: "u32 \<Rightarrow> kernel \<Rightarrow> kernel" where
  "inherit_files t s =
     upd_thread t (\<lambda>x. x\<lparr>std_files :=
       (if current_thread s \<noteq> NULL then std_files (threads s (current_thread s))
        else (stdin s, stdout s, stderr s))\<rparr>) s"

definition enlist :: "u32 \<Rightarrow> kernel \<Rightarrow> kernel" where
  "enlist t s =
     (let (pi, s) = disable_int s;
          s = on_queues (list_add_head KThreads (TProc t)) s;
          s = enable_int pi s
      in if current_thread s \<noteq> NULL then
           let s = upd_thread t (\<lambda>x. x\<lparr>owner := owner (threads s (current_thread s))\<rparr>) s
           in on_queues (list_add_head (TChildren (current_thread s)) (TSiblings t)) s
         else s)"

definition init_nodes :: "u32 \<Rightarrow> kernel \<Rightarrow> kernel" where
  "init_nodes t s =
     (let s = on_queues (LIST_INIT (TChildren t)) s;
          s = on_queues (LIST_INIT (TSiblings t)) s;
          s = on_queues (LIST_INIT (TWaitq t)) s;
          s = upd_thread t (\<lambda>x. x\<lparr>wait_flags := 1\<rparr>) s;
          s = on_queues (LIST_INIT (TProc t)) s
      in on_queues (LIST_INIT (TFiles t)) s)"

definition create_user_thread ::
  "u32 \<Rightarrow> u32 \<Rightarrow> u32 \<Rightarrow> u8 list \<Rightarrow> kernel \<Rightarrow> (u32 \<times> kernel) result" where
  "create_user_thread entry_point mem stack args s =
     res_bind (on_heap (kmalloc 164) s) (\<lambda>(t, s).
       let s = upd_thread t (\<lambda>x. x\<lparr>ring0 := False, father := current_thread s, nice := 0,
                 th_pid := ucast (next_pid s)\<rparr>) s;
           s = s\<lparr>next_pid := next_pid s + 1\<rparr>;
           s = on_queues (LIST_INIT (THead t)) s;
           s = upd_thread t (\<lambda>x. x\<lparr>th_page_dir := PA (md_page_directory (mems s mem)), th_mem := mem,
                 wait4child := False\<rparr>) s
       in
     res_bind (on_pages (kalloc_page 0) s) (\<lambda>(user_stack, s).
       let s = clear_page user_stack s;
           s = upd_thread t (\<lambda>x. x\<lparr>user_stack_bot := user_stack,
                 th_esp := user_stack + PAGE_SIZE - U_ESP_SIZE * 4, th_ret_value := NO_RET_VAL\<rparr>) s;
           s = set_user_esp (th_esp (threads s t)) entry_point (if stack \<noteq> NULL then stack else USER_STACK_TOP) s
       in
     res_bind (on_pages (kalloc_page 0) s) (\<lambda>(kernel_stack, s).
       let s = clear_page kernel_stack s;
           s = upd_thread t (\<lambda>x. x\<lparr>kernel_stack_bot := kernel_stack, th_tss := kernel_stack + PAGE_SIZE\<rparr>) s
       in
     res_bind (copy_name t args s) (\<lambda>s.
       let s = init_signals t s;
           s = upd_thread t (\<lambda>x. x\<lparr>timeslice := 0, runtime := 0, last_activation := 0,
                 tgid := th_pid x, th_state := TASK_RUNNABLE\<rparr>) s;
           s = init_nodes t s;
           s = inherit_files t s
       in Inr (t, enlist t s)))))"

definition create_kernel_thread ::
  "u32 \<Rightarrow> u8 list \<Rightarrow> kernel \<Rightarrow> (u32 \<times> kernel) result" where
  "create_kernel_thread entry_point args s =
     res_bind (on_heap (kmalloc 164) s) (\<lambda>(t, s).
       let s = upd_thread t (\<lambda>x. x\<lparr>ring0 := True, father := current_thread s, nice := 0,
                 th_pid := ucast (next_pid s)\<rparr>) s;
           s = s\<lparr>next_pid := next_pid s + 1\<rparr>;
           s = on_queues (LIST_INIT (THead t)) s;
           s = upd_thread t (\<lambda>x. x\<lparr>th_page_dir := PA (kernel_page_directory (paging s)),
                 th_mem := kernel_mem s, wait4child := False, th_ret_value := NO_RET_VAL\<rparr>) s
       in
     res_bind (on_pages (kalloc_page 0) s) (\<lambda>(user_stack, s).
       let s = clear_page user_stack s;
           s = upd_thread t (\<lambda>x. x\<lparr>th_esp := user_stack + PAGE_SIZE - K_ESP_SIZE * 4\<rparr>) s;
           s = set_kernel_esp (th_esp (threads s t)) entry_point s;
           s = upd_thread t (\<lambda>x. x\<lparr>user_stack_bot := user_stack\<rparr>) s
       in
     res_bind (on_pages (kalloc_page 0) s) (\<lambda>(kernel_stack, s).
       let s = clear_page kernel_stack s;
           s = upd_thread t (\<lambda>x. x\<lparr>kernel_stack_bot := kernel_stack, th_tss := user_stack + PAGE_SIZE\<rparr>) s
       in
     res_bind (copy_name t args s) (\<lambda>s.
       let s = init_signals t s;
           s = upd_thread t (\<lambda>x. x\<lparr>timeslice := 0, runtime := 0, last_activation := 0, tgid := th_pid x\<rparr>) s;
           s = init_nodes t s;
           s = inherit_files t s;
           s = enlist t s
       in Inr (t, upd_thread t (\<lambda>x. x\<lparr>th_state := TASK_RUNNABLE\<rparr>) s)))))"

text \<open>\<^verbatim>\<open>init_kernel_proc\<close>; \<open>init\<close> is the address of the first thread's function.\<close>

definition init_kernel_proc :: "u32 \<Rightarrow> kernel \<Rightarrow> kernel result" where
  "init_kernel_proc init s =
     res_bind (init_users s) (\<lambda>s.
       let s = on_queues (LIST_INIT KernelTimers) s;
           s = on_queues (LIST_INIT SleepQueue) s;
           s = on_queues (LIST_INIT RunningQueue) s;
           s = on_queues (LIST_INIT StoppedQueue) s;
           s = on_queues (LIST_INIT KThreads) s
       in res_bind (create_kernel_thread init (cstr ''initd'') s) (\<lambda>(t, s).
            let s = s\<lparr>init_thread := t\<rparr>;
                s = upd_thread t (\<lambda>x. x\<lparr>nice := MAX_PRIORITY, th_pid := 1,
                      timeslice := ticks_to_millis (ucast MAX_QUANTUM_MS), father := t,
                      owner := root_user s\<rparr>) s;
                s = s\<lparr>next_pid := 2\<rparr>
            in Inr (wake_up_thread t s)))"

text \<open>The part of \<^verbatim>\<open>init\<close> that creates the threads of the system; the arguments are the addresses of
  their functions.\<close>

definition spawn :: "u32 \<Rightarrow> u8 list \<Rightarrow> kernel \<Rightarrow> kernel result" where
  "spawn entry_point name s =
     res_bind (create_kernel_thread entry_point name s) (\<lambda>(p, s).
       Inr (wake_up_thread p (upd_thread p (\<lambda>x. x\<lparr>nice := 0\<rparr>) s)))"

definition init :: "u32 \<Rightarrow> u32 \<Rightarrow> u32 \<Rightarrow> u32 \<Rightarrow> u32 \<Rightarrow> u32 \<Rightarrow> kernel \<Rightarrow> kernel result" where
  "init idle work_queue_thread kswap gui screen_refresh login s =
     res_bind (create_kernel_thread idle (cstr ''idle'') s) (\<lambda>(i, s).
       let s = s\<lparr>idle_thread := i\<rparr>;
           s = upd_thread i (\<lambda>x. x\<lparr>th_pid := IDLE_PID, nice := MIN_PRIORITY,
                 timeslice := ticks_to_millis (ucast MIN_QUANTUM_MS), runtime := - 1\<rparr>) s;
           s = s\<lparr>next_pid := 2\<rparr>
       in
     res_bind (create_kernel_thread work_queue_thread (cstr ''kworker'') s) (\<lambda>(k, s).
       let s = s\<lparr>kwork_thread := k\<rparr>;
           s = wake_up_thread k s
       in
     res_bind (create_kernel_thread kswap (cstr ''kswapd'') s) (\<lambda>(p, s).
       let s = wake_up_thread p s in
     res_bind (spawn gui (cstr ''gui'') s) (\<lambda>s.
     res_bind (spawn screen_refresh (cstr ''screend'') s) (\<lambda>s.
     res_bind (spawn login (cstr ''logind'') s) (\<lambda>s.
       Inr (wake_up_thread (idle_thread s) s)))))))"

section \<open>Cloning and loading\<close>

definition VMA_REG :: u32 where "VMA_REG = 0"
definition VMA_STACK :: u32 where "VMA_STACK = 1"
definition CLONE_FILES :: u32 where "CLONE_FILES = 1"
definition CLONE_VM :: u32 where "CLONE_VM = 2"

definition on_paging :: "(pgstate \<Rightarrow> ('a \<times> pgstate) result) \<Rightarrow> kernel \<Rightarrow> ('a \<times> kernel) result" where
  "on_paging f s = res_bind (f (paging s)) (\<lambda>(x, p). Inr (x, s\<lparr>paging := p\<rparr>))"

definition on_areas :: "(vnode list_heap \<Rightarrow> vnode list_heap) \<Rightarrow> kernel \<Rightarrow> kernel" where
  "on_areas f s = s\<lparr>paging := (paging s)\<lparr>vm_lists := f (vm_lists (paging s))\<rparr>\<rparr>"

text \<open>A memory descriptor (\<^verbatim>\<open>sizeof(MemDesc)\<close> is 52) with no areas and a new page directory.\<close>

definition new_mem :: "kernel \<Rightarrow> (u32 \<times> kernel) result" where
  "new_mem s =
     res_bind (on_heap (kmalloc 52) s) (\<lambda>(m, s).
       let s = on_areas (LIST_INIT (VmAreas m)) s in
     res_bind (on_pages (kalloc_page 0) s) (\<lambda>(pd, s).
       let s = s\<lparr>mems := (mems s)(m := (mems s m)\<lparr>md_page_directory := pd\<rparr>)\<rparr>
       in Inr (m, s\<lparr>paging := init_user_paging pd (paging s)\<rparr>)))"

definition add_area :: "u32 \<Rightarrow> u32 \<Rightarrow> u32 \<Rightarrow> u32 \<Rightarrow> u32 \<Rightarrow> u32 \<Rightarrow> kernel \<Rightarrow> kernel result" where
  "add_area m start finish phys flags type s =
     res_bind (on_paging (create_vmregion start finish phys flags type) s) (\<lambda>(v, s).
       Inr (on_areas (list_add_tail (VmAreas m) (VmArea v)) s))"

text \<open>The flags of the stack area are \<^verbatim>\<open>PF_X | PF_W | PF_R\<close> with the values of \<^verbatim>\<open>mem/paging.h\<close> and
  \<^verbatim>\<open>elf.h\<close>, a parameter here.\<close>

definition add_stack_area :: "u32 \<Rightarrow> u32 \<Rightarrow> u32 \<Rightarrow> kernel \<Rightarrow> kernel result" where
  "add_stack_area flags m t s =
     add_area m (USER_STACK_TOP - PAGE_SIZE) USER_STACK_TOP (PA (user_stack_bot (threads s t)))
       flags VMA_STACK s"

definition clone_body ::
  "bool \<Rightarrow> u32 \<Rightarrow> vnode \<Rightarrow> kernel result \<Rightarrow> kernel result \<times> bool" where
  "clone_body clone_vm m l r =
     (case r of Inl e \<Rightarrow> (Inl e, True) | Inr s \<Rightarrow>
     (case l of
        VmArea a \<Rightarrow>
          let area = vmas (paging s) a in
          if v_type area = VMA_STACK then (Inr s, False)
          else
            let r = (if clone_vm
                     then add_area m (v_start area) (v_end area) (v_phys_start area) (v_flags area) (v_type area) s
                     else res_bind (on_heap (kmalloc (v_size area)) s) (\<lambda>(phys_area, s).
                            add_area m (v_start area) (v_end area) (PA phys_area) (v_flags area) (v_type area) s))
            in (case r of Inl _ \<Rightarrow> (r, True) | Inr _ \<Rightarrow> (r, False))
      | VmAreas _ \<Rightarrow> (Inl BadPointer, True)))"

definition copy_areas :: "bool \<Rightarrow> u32 \<Rightarrow> u32 \<Rightarrow> kernel \<Rightarrow> kernel result" where
  "copy_areas clone_vm parent_mem m s =
     res_bind (returns (list_for_each
         (\<lambda>r. case r of Inr s \<Rightarrow> nxt (vm_lists (paging s)) | Inl _ \<Rightarrow> (\<lambda>n. n))
         (clone_body clone_vm m) (VmAreas parent_mem) (Inr s))) (\<lambda>r. r)"

text \<open>\<^verbatim>\<open>memcopy\<close> of a page, by words.\<close>

definition copy_page :: "u32 \<Rightarrow> u32 \<Rightarrow> kernel \<Rightarrow> kernel" where
  "copy_page from dest s =
     s\<lparr>paging := fold (\<lambda>i p. upd_word (entry dest (word_of_nat i)) (\<lambda>_. words p (entry from (word_of_nat i))) p)
        [0..<1024] (paging s)\<rparr>"

definition sys_clone :: "u32 \<Rightarrow> u32 \<Rightarrow> u32 \<Rightarrow> u32 \<Rightarrow> kernel \<Rightarrow> (u32 \<times> kernel) result" where
  "sys_clone stack_flags entry_point stack_ptr flags s =
     (let clone_vm = (flags AND CLONE_VM \<noteq> 0);
          parent_mem = th_mem (threads s (current_thread s)) in
      res_bind (new_mem s) (\<lambda>(m, s).
      res_bind (copy_areas clone_vm parent_mem m s) (\<lambda>s.
      res_bind (create_user_thread entry_point m stack_ptr (cstr ''clone'') s) (\<lambda>(t, s).
      res_bind (on_paging (create_vmregion (USER_STACK_TOP - PAGE_SIZE) USER_STACK_TOP
          (PA (user_stack_bot (threads s t))) stack_flags VMA_STACK) s) (\<lambda>(stack, s).
        let s = copy_page (user_stack_bot (threads s (current_thread s))) (user_stack_bot (threads s t)) s;
            s = on_areas (list_add_tail (VmAreas m) (VmArea stack)) s;
            user_stack_offset = USER_STACK_TOP - stack_ptr;
            esp = user_stack_bot (threads s t) + PAGE_SIZE - U_ESP_SIZE * 4 - user_stack_offset;
            s = set_user_esp esp entry_point stack_ptr s;
            s = upd_thread t (\<lambda>x. x\<lparr>th_esp := esp, th_ret_value := 0\<rparr>) s;
            s = wake_up_thread t s
        in Inr (ucast (th_pid (threads s t)), s))))))"

text \<open>The headers of an ELF file (the structures of \<^verbatim>\<open>elf.h\<close>), read from the image at \<open>elf\<close>.\<close>

record Elf32_Phdr =
  p_type :: u32
  p_offset :: u32
  p_vaddr :: u32
  p_filesz :: u32
  p_memsz :: u32
  p_flags :: u32

record Elf32_Ehdr =
  e_entry :: u32
  e_phdrs :: "Elf32_Phdr list"

fun load_segments :: "u32 \<Rightarrow> u32 \<Rightarrow> Elf32_Phdr list \<Rightarrow> kernel \<Rightarrow> kernel result" where
  "load_segments elf m [] s = Inr s"
| "load_segments elf m (ph # phs) s =
     (if p_type ph = 1 then
        res_bind
          (if p_filesz ph = 0 then
             res_bind (on_pages (kalloc_page 0) s) (\<lambda>(bss, s). Inr (PA bss, clear_page bss s))
           else Inr (PA (elf + p_offset ph), s)) (\<lambda>(phys_addr, s).
        res_bind (add_area m (p_vaddr ph) (p_vaddr ph + p_memsz ph) phys_addr (p_flags ph) VMA_REG s)
          (load_segments elf m phs))
      else load_segments elf m phs s)"

definition load_elf :: "u32 \<Rightarrow> u32 \<Rightarrow> Elf32_Ehdr \<Rightarrow> kernel \<Rightarrow> (u32 \<times> kernel) result" where
  "load_elf stack_flags elf hdr s =
     res_bind (new_mem s) (\<lambda>(m, s).
     res_bind (load_segments elf m (e_phdrs hdr) s) (\<lambda>s.
     res_bind (create_user_thread (e_entry hdr) m NULL (cstr ''elf'') s) (\<lambda>(t, s).
       let s = upd_thread t (\<lambda>x. x\<lparr>nice := MIN_PRIORITY\<rparr>) s
       in res_bind (add_stack_area stack_flags m t s) (\<lambda>s. Inr (t, s)))))"

section \<open>System calls\<close>

definition sys_exit :: "u32 \<Rightarrow> kernel \<Rightarrow> kernel result" where
  "sys_exit ret_code s =
     (let p = current_thread s in
      res_bind (kill_process p s) (\<lambda>s. reschedule (upd_thread p (\<lambda>x. x\<lparr>exit_value := ret_code\<rparr>) s)))"

text \<open>\<^verbatim>\<open>sys_wait4\<close> up to its end or to the switch (\<open>None\<close>), and what follows when the caller is back.\<close>

definition wait4_done :: "u32 \<Rightarrow> kernel \<Rightarrow> u32 \<times> kernel" where
  "wait4_done p s =
     (let c = current_thread s;
          s = upd_thread c (\<lambda>x. x\<lparr>wait4 := 0\<rparr>) s;
          s = upd_thread p (\<lambda>x. x\<lparr>th_state := TASK_ZOMBIE\<rparr>) s;
          s = wake_up_thread c s
      in (exit_value (threads s p), s))"

definition sys_wait4 :: "u32 \<Rightarrow> kernel \<Rightarrow> (u32 option \<times> kernel) result" where
  "sys_wait4 pid s =
     res_bind (get_thread pid s) (\<lambda>(p, s).
       case p of
         None \<Rightarrow> Inr (Some (- 1), s)
       | Some p \<Rightarrow>
           if ended p s then let (r, s) = wait4_done p s in Inr (Some r, s)
           else
             let t = current_thread s;
                 s = upd_thread t (\<lambda>x. x\<lparr>wait4 := pid\<rparr>) s;
                 s = sleep_thread t s
             in res_bind (reschedule s) (\<lambda>s. Inr (None, s)))"

definition all_ended_body :: "kernel \<Rightarrow> knode \<Rightarrow> bool result \<Rightarrow> bool result \<times> bool" where
  "all_ended_body s l r =
     (case l of
        TSiblings p1 \<Rightarrow> if ended p1 s then (r, False) else (Inr False, True)
      | _ \<Rightarrow> (Inl BadPointer, True))"

definition to_zombie_body :: "knode \<Rightarrow> kernel \<Rightarrow> (kernel \<times> bool) result" where
  "to_zombie_body l s =
     (case l of
        TSiblings p1 \<Rightarrow>
          Inr (if th_state (threads s p1) = TASK_STOPPED
               then upd_thread p1 (\<lambda>x. x\<lparr>th_state := TASK_ZOMBIE\<rparr>) s else s, False)
      | _ \<Rightarrow> Inl BadPointer)"

definition wait4all_done :: "kernel \<Rightarrow> kernel result" where
  "wait4all_done s =
     (let c = current_thread s
      in each (\<lambda>s. s) to_zombie_body (TChildren c) (upd_thread c (\<lambda>x. x\<lparr>wait4child := False\<rparr>) s))"

definition sys_wait4all :: "kernel \<Rightarrow> (bool \<times> kernel) result" where
  "sys_wait4all s =
     (let c = current_thread s in
      res_bind (returns (list_for_each (\<lambda>_. nxt (queues s)) (all_ended_body s) (TChildren c) (Inr True)))
        (\<lambda>r. res_bind r (\<lambda>all_ko.
          if all_ko then res_bind (wait4all_done s) (\<lambda>s. Inr (True, s))
          else
            let s = upd_thread c (\<lambda>x. x\<lparr>wait4child := True\<rparr>) s;
                s = sleep_thread c s
            in res_bind (reschedule s) (\<lambda>s. Inr (False, s)))))"

fun write_loop :: "u8 list \<Rightarrow> kernel \<Rightarrow> kernel result" where
  "write_loop [] s = Inr s"
| "write_loop (b # bs) s = res_bind (write_byte_block (stdout s) b s) (\<lambda>(_, s). write_loop bs s)"

definition sys_write :: "u8 list \<Rightarrow> kernel \<Rightarrow> (u32 \<times> kernel) result" where
  "sys_write buf s = res_bind (write_loop buf s) (\<lambda>s. Inr (0, s))"

text \<open>\<^verbatim>\<open>sys_getpid\<close> creates a thread that exits with its father's pid and waits for it; the thread
  is created but never made runnable. \<open>get_pid_fn\<close> is the address of its function, \<^verbatim>\<open>get_pid_t\<close>.\<close>

definition get_pid_t :: "kernel \<Rightarrow> kernel result" where
  "get_pid_t s = sys_exit (ucast (th_pid (threads s (father (threads s (current_thread s)))))) s"

definition sys_getpid :: "u32 \<Rightarrow> kernel \<Rightarrow> (u32 option \<times> kernel) result" where
  "sys_getpid get_pid_fn s =
     (let thread_mem = th_mem (threads s (father (threads s (current_thread s)))) in
      res_bind (create_user_thread get_pid_fn thread_mem NULL (cstr ''sys_getpid'') s) (\<lambda>(t, s).
      res_bind (sys_wait4 (ucast (th_pid (threads s t))) s) (\<lambda>(r, s).
        Inr (case r of None \<Rightarrow> None | Some _ \<Rightarrow> Some (exit_value (threads s t)), s))))"

text \<open>A maximum of 0 divides by zero.\<close>

definition sys_random :: "u32 \<Rightarrow> kernel \<Rightarrow> (u32 \<times> kernel) result" where
  "sys_random limit s =
     (let (r, n) = rand (rand_next s);
          s = s\<lparr>rand_next := n\<rparr>
      in if limit = 0 then Inl DivideError else Inr (r mod limit, s))"

definition SYS_EXIT :: u32 where "SYS_EXIT = 1"
definition SYS_PRINTF :: u32 where "SYS_PRINTF = 2"
definition SYS_SLEEPMS :: u32 where "SYS_SLEEPMS = 3"
definition SYS_WAIT4ALL :: u32 where "SYS_WAIT4ALL = 4"
definition SYS_WAIT4 :: u32 where "SYS_WAIT4 = 5"
definition SYS_RANDOM :: u32 where "SYS_RANDOM = 6"
definition SYS_WRITE :: u32 where "SYS_WRITE = 7"
definition SYS_GETPID :: u32 where "SYS_GETPID = 8"
definition SYS_CLONE :: u32 where "SYS_CLONE = 9"
definition SYS_KILL :: u32 where "SYS_KILL = 10"

record registers =
  r_eax :: u32
  r_ebx :: u32
  r_ecx :: u32
  r_edx :: u32
  r_eip :: u32
  r_esp :: u32

text \<open>
  The dispatcher. \<^verbatim>\<open>kprintf\<close>, the bytes at a user address, the address of \<^verbatim>\<open>get_pid_t\<close>, the thread of
  \<^verbatim>\<open>sys_getpid\<close> and the flags of the stack area are parameters. \<open>None\<close> in place of the registers:
  the caller was switched away from inside the call.
\<close>

record call_env =
  do_printf :: "u32 \<Rightarrow> kernel \<Rightarrow> kernel result"
  user_bytes :: "u32 \<Rightarrow> u32 \<Rightarrow> u8 list"
  get_pid_fn :: u32
  stack_area_flags :: u32

definition next_insn :: "registers \<Rightarrow> registers" where
  "next_insn r = r\<lparr>r_eip := r_eip r + 2\<rparr>"

definition return_eax :: "registers \<Rightarrow> (u32 \<times> kernel) result \<Rightarrow> (registers option \<times> kernel) result" where
  "return_eax r m = res_bind m (\<lambda>(x, s). Inr (Some (next_insn (r\<lparr>r_eax := x\<rparr>)), s))"

definition return_eax_or_wait ::
  "registers \<Rightarrow> (u32 option \<times> kernel) result \<Rightarrow> (registers option \<times> kernel) result" where
  "return_eax_or_wait r m = res_bind m (\<lambda>(x, s).
     Inr (case x of None \<Rightarrow> None | Some x \<Rightarrow> Some (next_insn (r\<lparr>r_eax := x\<rparr>)), s))"

definition syscall_handler ::
  "call_env \<Rightarrow> registers \<Rightarrow> kernel \<Rightarrow> (registers option \<times> kernel) result" where
  "syscall_handler env r s =
     (let n = r_eax r in
      if n = SYS_EXIT then res_bind (sys_exit (r_ebx r) s) (\<lambda>s. Inr (None, s))
      else if n = SYS_PRINTF then
        res_bind (do_printf env (r_ebx r) s) (\<lambda>s. Inr (Some (next_insn r), s))
      else if n = SYS_SLEEPMS then res_bind (sleep_ms (r_ebx r) s) (\<lambda>s. Inr (None, s))
      else if n = SYS_WAIT4ALL then
        res_bind (sys_wait4all s) (\<lambda>(returned, s). Inr (if returned then Some (next_insn r) else None, s))
      else if n = SYS_WAIT4 then return_eax_or_wait r (sys_wait4 (r_ebx r) s)
      else if n = SYS_RANDOM then return_eax r (sys_random (r_ebx r) s)
      else if n = SYS_WRITE then return_eax r (sys_write (user_bytes env (r_ecx r) (r_edx r)) s)
      else if n = SYS_GETPID then return_eax_or_wait r (sys_getpid (get_pid_fn env) s)
      else if n = SYS_CLONE then
        return_eax r (sys_clone (stack_area_flags env) (r_eip r + 2) (r_esp r) (r_ebx r) s)
      else if n = SYS_KILL then return_eax r (sys_kill (r_ebx r) (r_ecx r) s)
      else Inr (Some (next_insn r), s))"

end
