(* ===== verification/Ports.thy ===== *)
theory Ports
  imports Prelude
begin

text \<open>
  \<^verbatim>\<open>cpu/ports.c\<close>: the port instructions. What answers them is the hardware, a parameter of every
  operation that uses them: the state \<open>'d\<close> of the devices and the effect of each instruction on it.
  Also the operations that are nothing but port accesses: the interrupt masks of \<^verbatim>\<open>cpu/isr.c\<close>, the
  non-maskable interrupt of \<^verbatim>\<open>lib/utils.c\<close>, the clock's phase of \<^verbatim>\<open>drivers/timer.c\<close> and the reboot of
  \<^verbatim>\<open>lib/shutdown.c\<close>.
\<close>

record 'd hardware =
  hw_in8 :: "u16 \<Rightarrow> 'd \<Rightarrow> u8 \<times> 'd"
  hw_out8 :: "u16 \<Rightarrow> u8 \<Rightarrow> 'd \<Rightarrow> 'd"
  hw_in16 :: "u16 \<Rightarrow> 'd \<Rightarrow> u16 \<times> 'd"
  hw_out16 :: "u16 \<Rightarrow> u16 \<Rightarrow> 'd \<Rightarrow> 'd"
  hw_in32 :: "u16 \<Rightarrow> 'd \<Rightarrow> u32 \<times> 'd"
  hw_out32 :: "u16 \<Rightarrow> u32 \<Rightarrow> 'd \<Rightarrow> 'd"

definition inb :: "'d hardware \<Rightarrow> u16 \<Rightarrow> 'd \<Rightarrow> u8 \<times> 'd" where "inb h port d = hw_in8 h port d"
definition outb :: "'d hardware \<Rightarrow> u16 \<Rightarrow> u8 \<Rightarrow> 'd \<Rightarrow> 'd" where "outb h port data d = hw_out8 h port data d"
definition inw :: "'d hardware \<Rightarrow> u16 \<Rightarrow> 'd \<Rightarrow> u16 \<times> 'd" where "inw h port d = hw_in16 h port d"
definition outw :: "'d hardware \<Rightarrow> u16 \<Rightarrow> u16 \<Rightarrow> 'd \<Rightarrow> 'd" where "outw h port data d = hw_out16 h port data d"
definition indw :: "'d hardware \<Rightarrow> u16 \<Rightarrow> 'd \<Rightarrow> u32 \<times> 'd" where "indw h port d = hw_in32 h port d"
definition outdw :: "'d hardware \<Rightarrow> u16 \<Rightarrow> u32 \<Rightarrow> 'd \<Rightarrow> 'd" where "outdw h port data d = hw_out32 h port data d"

lemmas port_ops = inb_def outb_def inw_def outw_def indw_def outdw_def

section \<open>Interrupt controller and clock\<close>

definition PIC1_DATA :: u16 where "PIC1_DATA = 0x21"
definition PIC2_DATA :: u16 where "PIC2_DATA = 0xA1"

definition IRQ_set_mask :: "'d hardware \<Rightarrow> u8 \<Rightarrow> 'd \<Rightarrow> 'd" where
  "IRQ_set_mask h IRQline d =
     (let (port, IRQline) = (if IRQline < 8 then (PIC1_DATA, IRQline) else (PIC2_DATA, IRQline - 8));
          (v, d) = inb h port d
      in outb h port (v OR push_bit (unat IRQline) 1) d)"

definition IRQ_clear_mask :: "'d hardware \<Rightarrow> u8 \<Rightarrow> 'd \<Rightarrow> 'd" where
  "IRQ_clear_mask h IRQline d =
     (let (port, IRQline) = (if IRQline < 8 then (PIC1_DATA, IRQline) else (PIC2_DATA, IRQline - 8));
          (v, d) = inb h port d
      in outb h port (v AND NOT (push_bit (unat IRQline) 1)) d)"

definition NMI_enable :: "'d hardware \<Rightarrow> 'd \<Rightarrow> 'd" where
  "NMI_enable h d = (let (v, d) = inb h 0x70 d in outb h 0x70 (v AND 0x7F) d)"

definition NMI_disable :: "'d hardware \<Rightarrow> 'd \<Rightarrow> 'd" where
  "NMI_disable h d = (let (v, d) = inb h 0x70 d in outb h 0x70 (v OR 0x80) d)"

definition set_timer_phase :: "'d hardware \<Rightarrow> u16 \<Rightarrow> 'd \<Rightarrow> 'd" where
  "set_timer_phase h rate d =
     (let d = NMI_disable h d;
          rate = rate AND 0x0F;
          d = outb h 0x70 0x8A d;
          (prev, d) = inb h 0x71 d;
          d = outb h 0x70 0x8A d;
          d = outb h 0x71 ((prev AND 0xF0) OR ucast rate) d;
          d = outb h 0x70 0x8B d;
          (prev, d) = inb h 0x71 d;
          d = outb h 0x70 0x8B d;
          d = outb h 0x71 (prev OR 0x40) d
      in NMI_enable h d)"

text \<open>The remapping of the controllers in \<^verbatim>\<open>isr_install\<close>.\<close>

definition remap_pic :: "'d hardware \<Rightarrow> 'd \<Rightarrow> 'd" where
  "remap_pic h d =
     fold (\<lambda>(port, v). outb h port v)
       [(0x20, 0x11), (0xA0, 0x11), (0x21, 0x20), (0xA1, 0x28), (0x21, 0x04),
        (0xA1, 0x02), (0x21, 0x01), (0xA1, 0x01), (0x21, 0x0), (0xA1, 0x0)] d"

text \<open>The loop of \<^verbatim>\<open>reboot\<close> that empties the keyboard controller, and the reset.\<close>

definition KBRD_INTRFC :: u16 where "KBRD_INTRFC = 0x64"
definition KBRD_IO :: u16 where "KBRD_IO = 0x60"
definition KBRD_RESET :: u8 where "KBRD_RESET = 0xFE"

definition check_flag :: "u8 \<Rightarrow> nat \<Rightarrow> bool" where
  "check_flag flags n \<longleftrightarrow> flags AND push_bit n 1 \<noteq> 0"

partial_function (option) reboot :: "'d hardware \<Rightarrow> 'd \<Rightarrow> 'd option" where
  "reboot h d =
     (let (temp, d) = inb h KBRD_INTRFC d;
          d = (if check_flag temp 0 then snd (inb h KBRD_IO d) else d)
      in if check_flag temp 1 then reboot h d else Some (outb h KBRD_INTRFC KBRD_RESET d))"

end
