(* ===== verification/Pci.thy ===== *)
theory Pci
  imports Ports
begin

text \<open>
  \<^verbatim>\<open>drivers/pci.c\<close>: access to the configuration space of the PCI devices through two ports, and the
  search for a device. A device is named by the 32-bit word that is written to the address port.
\<close>

section \<open>Device words\<close>

type_synonym pci_dev = u32

text \<open>The bit fields of \<^verbatim>\<open>pci_dev_t\<close>, from the low end: two zero bits, six of the field, three of
  the function, five of the device, eight of the bus, seven reserved and one that enables.\<close>

definition set_field :: "nat \<Rightarrow> nat \<Rightarrow> u32 \<Rightarrow> pci_dev \<Rightarrow> pci_dev" where
  "set_field pos width v dev =
     (dev AND NOT (push_bit pos (mask width))) OR push_bit pos (take_bit width v)"

definition set_field_num :: "u32 \<Rightarrow> pci_dev \<Rightarrow> pci_dev" where "set_field_num = set_field 2 6"
definition set_function_num :: "u32 \<Rightarrow> pci_dev \<Rightarrow> pci_dev" where "set_function_num = set_field 8 3"
definition set_device_num :: "u32 \<Rightarrow> pci_dev \<Rightarrow> pci_dev" where "set_device_num = set_field 11 5"
definition set_bus_num :: "u32 \<Rightarrow> pci_dev \<Rightarrow> pci_dev" where "set_bus_num = set_field 16 8"
definition set_enable :: "u32 \<Rightarrow> pci_dev \<Rightarrow> pci_dev" where "set_enable = set_field 31 1"

definition PCI_CONFIG_ADDRESS :: u16 where "PCI_CONFIG_ADDRESS = 0xCF8"
definition PCI_CONFIG_DATA :: u16 where "PCI_CONFIG_DATA = 0xCFC"
definition PCI_VENDOR_ID :: u32 where "PCI_VENDOR_ID = 0x00"
definition PCI_DEVICE_ID :: u32 where "PCI_DEVICE_ID = 0x02"
definition PCI_COMMAND :: u32 where "PCI_COMMAND = 0x04"
definition PCI_SUBCLASS :: u32 where "PCI_SUBCLASS = 0x0a"
definition PCI_CLASS :: u32 where "PCI_CLASS = 0x0b"
definition PCI_HEADER_TYPE :: u32 where "PCI_HEADER_TYPE = 0x0e"
definition PCI_BAR0 :: u32 where "PCI_BAR0 = 0x10"
definition PCI_INTERRUPT_LINE :: u32 where "PCI_INTERRUPT_LINE = 0x3C"
definition PCI_SECONDARY_BUS :: u32 where "PCI_SECONDARY_BUS = 0x09"
definition PCI_TYPE_BRIDGE :: u32 where "PCI_TYPE_BRIDGE = 0x0604"
definition PCI_NONE :: u32 where "PCI_NONE = 0xFFFF"
definition DEVICE_PER_BUS :: nat where "DEVICE_PER_BUS = 32"
definition FUNCTION_PER_DEVICE :: nat where "FUNCTION_PER_DEVICE = 32"

lemmas pci_fields = PCI_VENDOR_ID_def PCI_DEVICE_ID_def PCI_COMMAND_def PCI_SUBCLASS_def
  PCI_CLASS_def PCI_HEADER_TYPE_def PCI_BAR0_def PCI_INTERRUPT_LINE_def PCI_SECONDARY_BUS_def

text \<open>\<^verbatim>\<open>pci_init\<close>: the sizes of the fields, 0 for those not listed; the array has 100 entries.\<close>

definition pci_size_map :: "nat \<Rightarrow> nat" where
  "pci_size_map field =
     (if field \<in> {0x00, 0x02, 0x04, 0x06} then 2
      else if field \<in> {0x0a, 0x0b, 0x0c, 0x0d, 0x0e, 0x0f, 0x3C, 0x09} then 1
      else if field \<in> {0x10, 0x14, 0x18, 0x1C, 0x20, 0x24} then 4
      else 0)"

section \<open>Access\<close>

definition pci_read :: "'d hardware \<Rightarrow> pci_dev \<Rightarrow> u32 \<Rightarrow> 'd \<Rightarrow> u32 \<times> 'd" where
  "pci_read h dev field d =
     (let dev = set_field_num (drop_bit 2 (field AND 0xFC)) dev;
          dev = set_enable 1 dev;
          d = outdw h PCI_CONFIG_ADDRESS dev d;
          sz = pci_size_map (unat field)
      in if sz = 1 then
           (let (t, d) = inb h (PCI_CONFIG_DATA + ucast (field AND 3)) d in (ucast t, d))
         else if sz = 2 then
           (let (t, d) = inw h (PCI_CONFIG_DATA + ucast (field AND 2)) d in (ucast t, d))
         else if sz = 4 then indw h PCI_CONFIG_DATA d
         else (0xffff, d))"

definition pci_write :: "'d hardware \<Rightarrow> pci_dev \<Rightarrow> u32 \<Rightarrow> u32 \<Rightarrow> 'd \<Rightarrow> 'd" where
  "pci_write h dev field v d =
     (let dev = set_field_num (drop_bit 2 (field AND 0xFC)) dev;
          dev = set_enable 1 dev;
          d = outdw h PCI_CONFIG_ADDRESS dev d
      in outdw h PCI_CONFIG_DATA v d)"

definition get_device_type :: "'d hardware \<Rightarrow> pci_dev \<Rightarrow> 'd \<Rightarrow> u32 \<times> 'd" where
  "get_device_type h dev d =
     (let (c, d) = pci_read h dev PCI_CLASS d;
          (sc, d) = pci_read h dev PCI_SUBCLASS d
      in (push_bit 8 c OR sc, d))"

definition get_secondary_bus :: "'d hardware \<Rightarrow> pci_dev \<Rightarrow> 'd \<Rightarrow> u32 \<times> 'd" where
  "get_secondary_bus h dev d = pci_read h dev PCI_SECONDARY_BUS d"

definition pci_reach_end :: "'d hardware \<Rightarrow> pci_dev \<Rightarrow> 'd \<Rightarrow> bool \<times> 'd" where
  "pci_reach_end h dev d = (let (t, d) = pci_read h dev PCI_HEADER_TYPE d in (t = 0, d))"

section \<open>Search\<close>

text \<open>
  The three search functions call each other through bridges, without a bound: the model counts
  the bridges on the way down (\<open>None\<close> when there are more than \<open>fuel\<close>). What the search behind a
  bridge finds is discarded. A type of \<open>None\<close> is \<open>-1\<close>, any type.
\<close>

definition match_function ::
  "'d hardware \<Rightarrow> u16 \<Rightarrow> u16 \<Rightarrow> u32 option \<Rightarrow> pci_dev \<Rightarrow> 'd \<Rightarrow> pci_dev \<times> 'd" where
  "match_function h vendor_id device_id device_type dev d =
     (let (ok, d) = (case device_type of
            None \<Rightarrow> (True, d)
          | Some t \<Rightarrow> (let (t', d) = get_device_type h dev d in (t = t', d)))
      in if ok then
           (let (devid, d) = pci_read h dev PCI_DEVICE_ID d;
                (vendid, d) = pci_read h dev PCI_VENDOR_ID d
            in if devid = ucast device_id \<and> ucast vendor_id = vendid then (dev, d) else (0, d))
         else (0, d))"

definition device_at :: "u32 \<Rightarrow> u32 \<Rightarrow> u32 \<Rightarrow> pci_dev" where
  "device_at bus device fn = set_function_num fn (set_device_num device (set_bus_num bus 0))"

text \<open>The loop over the functions 1 to 31 of a device, and over the devices of a bus; \<open>f\<close> scans one.\<close>

fun scan_functions ::
  "('d hardware \<Rightarrow> 'd \<Rightarrow> u32 \<times> 'd) \<Rightarrow> 'd hardware \<Rightarrow> (nat \<Rightarrow> 'd \<Rightarrow> (pci_dev \<times> 'd) option) \<Rightarrow> nat list \<Rightarrow> 'd \<Rightarrow>
   (pci_dev \<times> 'd) option" where
  "scan_functions vendor h f [] d = Some (0, d)"
| "scan_functions vendor h f (i # is) d =
     (let (v, d) = vendor h d in
      if v \<noteq> PCI_NONE then
        (case f i d of
           None \<Rightarrow> None
         | Some (t, d) \<Rightarrow> if t \<noteq> 0 then Some (t, d) else scan_functions vendor h f is d)
      else scan_functions vendor h f is d)"

definition scan_device ::
  "'d hardware \<Rightarrow> (nat \<Rightarrow> 'd \<Rightarrow> (pci_dev \<times> 'd) option) \<Rightarrow> pci_dev \<Rightarrow> 'd \<Rightarrow> (pci_dev \<times> 'd) option" where
  "scan_device h f dev d =
     (let (v, d) = pci_read h dev PCI_VENDOR_ID d in
      if v = PCI_NONE then Some (0, d)
      else case f 0 d of
        None \<Rightarrow> None
      | Some (t, d) \<Rightarrow>
          if t \<noteq> 0 then Some (t, d)
          else
            (let (final, d) = pci_reach_end h dev d in
             if final then Some (0, d)
             else scan_functions (\<lambda>h d. pci_read h dev PCI_VENDOR_ID d) h f [1..<FUNCTION_PER_DEVICE] d))"

fun scan_devices ::
  "(nat \<Rightarrow> 'd \<Rightarrow> (pci_dev \<times> 'd) option) \<Rightarrow> nat list \<Rightarrow> 'd \<Rightarrow> (pci_dev \<times> 'd) option" where
  "scan_devices f [] d = Some (0, d)"
| "scan_devices f (i # is) d =
     (case f i d of
        None \<Rightarrow> None
      | Some (t, d) \<Rightarrow> if t \<noteq> 0 then Some (t, d) else scan_devices f is d)"

fun pci_scan_bus ::
  "nat \<Rightarrow> 'd hardware \<Rightarrow> u16 \<Rightarrow> u16 \<Rightarrow> u32 \<Rightarrow> u32 option \<Rightarrow> 'd \<Rightarrow> (pci_dev \<times> 'd) option" where
  "pci_scan_bus 0 h vendor_id device_id bus device_type d = None"
| "pci_scan_bus (Suc fuel) h vendor_id device_id bus device_type d =
     scan_devices (\<lambda>device.
       scan_device h (\<lambda>fn d.
         let dev = device_at bus (word_of_nat device) (word_of_nat fn);
             (ty, d) = get_device_type h dev d
         in if ty = PCI_TYPE_BRIDGE then
              (let (sec, d) = get_secondary_bus h dev d in
               case pci_scan_bus fuel h vendor_id device_id sec device_type d of
                 None \<Rightarrow> None
               | Some (_, d) \<Rightarrow> Some (match_function h vendor_id device_id device_type dev d))
            else Some (match_function h vendor_id device_id device_type dev d))
         (set_device_num (word_of_nat device) (set_bus_num bus 0)))
       [0..<DEVICE_PER_BUS] d"

fun scan_controllers ::
  "nat \<Rightarrow> 'd hardware \<Rightarrow> u16 \<Rightarrow> u16 \<Rightarrow> u32 option \<Rightarrow> nat list \<Rightarrow> 'd \<Rightarrow> (pci_dev \<times> 'd) option" where
  "scan_controllers fuel h vendor_id device_id device_type [] d = Some (0, d)"
| "scan_controllers fuel h vendor_id device_id device_type (i # is) d =
     (let (v, d) = pci_read h (set_function_num (word_of_nat i) 0) PCI_VENDOR_ID d in
      if v = PCI_NONE then Some (0, d)
      else case pci_scan_bus fuel h vendor_id device_id (word_of_nat i) device_type d of
        None \<Rightarrow> None
      | Some (t, d) \<Rightarrow>
          if t \<noteq> 0 then Some (t, d) else scan_controllers fuel h vendor_id device_id device_type is d)"

definition pci_get_device ::
  "nat \<Rightarrow> 'd hardware \<Rightarrow> u16 \<Rightarrow> u16 \<Rightarrow> u32 option \<Rightarrow> 'd \<Rightarrow> (pci_dev \<times> 'd) option" where
  "pci_get_device fuel h vendor_id device_id device_type d =
     (case pci_scan_bus fuel h vendor_id device_id 0 device_type d of
        None \<Rightarrow> None
      | Some (t, d) \<Rightarrow>
          if t \<noteq> 0 then Some (t, d)
          else
            (let (_, d) = pci_reach_end h 0 d
             in scan_controllers fuel h vendor_id device_id device_type [1..<FUNCTION_PER_DEVICE] d))"

end
