(* ===== verification/Net.thy ===== *)
theory Net
  imports Process Pci Boot
begin

text \<open>
  The network: byte order and frames (\<^verbatim>\<open>net/net.c\<close>, \<^verbatim>\<open>net/ethernet.c\<close>), the IPv4, UDP, ARP and DHCP
  messages (\<^verbatim>\<open>net/ipv4.c\<close>, \<^verbatim>\<open>net/udp.c\<close>, \<^verbatim>\<open>net/arp.c\<close>, \<^verbatim>\<open>net/dhcp.c\<close>) and the driver of the card
  (\<^verbatim>\<open>drivers/rtl8139.c\<close>). Messages are written into the byte store field by field, at the offsets of
  their packed structures.
\<close>

section \<open>State\<close>

record rtl8139_dev =
  bar_type :: u8
  io_base :: u16
  mem_base :: u32
  mac_addr :: "u8 list"
  rx_buffer :: u32
  tx_cur :: nat

record 'd net =
  store :: bytes
  nic :: rtl8139_dev
  nic_pci :: pci_dev
  current_packet_ptr :: u32
  packets :: u32
  dvs :: 'd
  krn :: kernel

definition on_dvs :: "('d \<Rightarrow> 'd) \<Rightarrow> 'd net \<Rightarrow> 'd net" where
  "on_dvs f s = s\<lparr>dvs := f (dvs s)\<rparr>"

definition on_store :: "(bytes \<Rightarrow> bytes) \<Rightarrow> 'd net \<Rightarrow> 'd net" where
  "on_store f s = s\<lparr>store := f (store s)\<rparr>"

definition alloc :: "(kernel \<Rightarrow> (u32 \<times> kernel) result) \<Rightarrow> 'd net \<Rightarrow> (u32 \<times> 'd net) result" where
  "alloc f s = res_bind (f (krn s)) (\<lambda>(a, k). Inr (a, s\<lparr>krn := k\<rparr>))"

definition free :: "u32 \<Rightarrow> 'd net \<Rightarrow> 'd net result" where
  "free a s = res_bind (heap_do (kfree a) (krn s)) (\<lambda>k. Inr (s\<lparr>krn := k\<rparr>))"

section \<open>Byte order\<close>

definition switch_endian16 :: "u16 \<Rightarrow> u16" where
  "switch_endian16 nb = drop_bit 8 nb OR push_bit 8 nb"

definition switch_endian32 :: "u32 \<Rightarrow> u32" where
  "switch_endian32 nb =
     (drop_bit 24 nb AND 0xff) OR (push_bit 8 nb AND 0xff0000) OR (drop_bit 8 nb AND 0xff00)
     OR (push_bit 24 nb AND 0xff000000)"

fun macs_from :: "nat list \<Rightarrow> u8 list \<Rightarrow> u8 list \<Rightarrow> bool result" where
  "macs_from [] mac1 mac2 = Inr True"
| "macs_from (i # is) mac1 mac2 =
     res_bind (arr_get mac1 i) (\<lambda>a. res_bind (arr_get mac2 i) (\<lambda>b.
       if a \<noteq> b then Inr False else macs_from is mac1 mac2))"

definition is_equal_macs :: "u8 list \<Rightarrow> u8 list \<Rightarrow> bool result" where
  "is_equal_macs = macs_from [0..<6]"

section \<open>The driver\<close>

definition RX_BUF_SIZE :: u32 where "RX_BUF_SIZE = 8192"
definition CAPR :: u16 where "CAPR = 0x38"
definition RX_READ_POINTER_MASK :: u32 where "RX_READ_POINTER_MASK = NOT 3"
definition ROK :: u16 where "ROK = 1"
definition RTL_APM :: u32 where "RTL_APM = 2"
definition RTL_AM :: u32 where "RTL_AM = 4"
definition RTL_AB :: u32 where "RTL_AB = 8"
definition RTL_BUFE :: u8 where "RTL_BUFE = 1"

definition TSAD_array :: "u16 list" where "TSAD_array = [0x20, 0x24, 0x28, 0x2C]"
definition TSD_array :: "u16 list" where "TSD_array = [0x10, 0x14, 0x18, 0x1C]"

text \<open>The driver waits without a bound until the card has reset.\<close>

partial_function (option) wait_reset :: "'d hardware \<Rightarrow> u16 \<Rightarrow> 'd \<Rightarrow> 'd option" where
  "wait_reset h port d =
     (let (v, d) = inb h port d in if v AND 0x10 \<noteq> 0 then wait_reset h port d else Some d)"

definition read_mac :: "'d hardware \<Rightarrow> u16 \<Rightarrow> 'd \<Rightarrow> u8 list \<times> 'd" where
  "read_mac h base d =
     (let (mac_part1, d) = indw h base d;
          (mac_part2, d) = inw h (base + 4) d
      in ([ucast mac_part1, ucast (drop_bit 8 mac_part1), ucast (drop_bit 16 mac_part1),
           ucast (drop_bit 24 mac_part1), ucast mac_part2, ucast (drop_bit 8 mac_part2)], d))"

text \<open>The result is the number of the card's interrupt. The masks of the base registers are \<^verbatim>\<open>~0x3\<close>
  and \<^verbatim>\<open>~0xf\<close>. \<open>fuel\<close> bounds the bridges of the search.\<close>

definition rtl8139_init :: "nat \<Rightarrow> 'd hardware \<Rightarrow> 'd net \<Rightarrow> (u32 \<times> 'd net) result" where
  "rtl8139_init fuel h s =
     res_bind (returns (pci_get_device fuel h 0x10EC 0x8139 None (dvs s))) (\<lambda>(pci, d).
       let (ret, d) = pci_read h pci PCI_BAR0 d;
           dev = (nic s)\<lparr>bar_type := ucast (ret AND 1), io_base := ucast (ret AND NOT 3),
                   mem_base := ret AND NOT 0xf, tx_cur := 0\<rparr>;
           (cmd, d) = pci_read h pci PCI_COMMAND d;
           d = (if cmd AND 4 = 0 then pci_write h pci PCI_COMMAND (cmd OR 4) d else d);
           base = io_base dev;
           d = outb h (base + 0x52) 0 d;
           d = outb h (base + 0x37) 0x10 d
       in
     res_bind (returns (wait_reset h (base + 0x37) d)) (\<lambda>d.
       let s = s\<lparr>nic := dev, nic_pci := pci, dvs := d\<rparr> in
     res_bind (alloc (on_heap (kmalloc (8192 + 16 + 1500))) s) (\<lambda>(rx, s).
       let s = s\<lparr>nic := (nic s)\<lparr>rx_buffer := rx\<rparr>\<rparr>;
           s = on_store (memset rx 0 (8192 + 16 + 1500)) s;
           s = on_dvs (outdw h (base + 0x30) (PA rx)) s;
           s = on_dvs (outw h (base + 0x3C) 0x0005) s;
           s = on_dvs (outdw h (base + 0x44) (RTL_APM OR RTL_AB OR RTL_AM OR 0x80)) s;
           s = on_dvs (outb h (base + 0x37) 0x0C) s;
           (mac, d) = read_mac h base (dvs s);
           s = s\<lparr>nic := (nic s)\<lparr>mac_addr := mac\<rparr>, dvs := d\<rparr>;
           (irq_num, d) = pci_read h pci PCI_INTERRUPT_LINE (dvs s)
       in Inr (irq_num, s\<lparr>dvs := d\<rparr>))))"

text \<open>The copy that is handed to the card is never freed.\<close>

definition rtl8139_send_packet :: "'d hardware \<Rightarrow> u32 \<Rightarrow> u32 \<Rightarrow> 'd net \<Rightarrow> 'd net result" where
  "rtl8139_send_packet h data len s =
     res_bind (alloc (on_heap (kmalloc len)) s) (\<lambda>(transfer_data, s).
       let phys_addr = PA transfer_data;
           s = on_store (memcopy data transfer_data len) s in
     res_bind (arr_get TSAD_array (tx_cur (nic s))) (\<lambda>tsad.
     res_bind (arr_get TSD_array (tx_cur (nic s))) (\<lambda>tsd.
       let s = on_dvs (outdw h (io_base (nic s) + tsad) phys_addr) s;
           cur = tx_cur (nic s) + 1;
           s = on_dvs (outdw h (io_base (nic s) + tsd) len) s
       in Inr (s\<lparr>nic := (nic s)\<lparr>tx_cur := (if cur > 3 then 0 else cur)\<rparr>\<rparr>))))"

text \<open>\<^verbatim>\<open>receive_packet\<close>. The read pointer moves past the header and the packet and is rounded up to a
  multiple of four; one round of the loop queues a copy of one packet for the worker.\<close>

definition next_packet_ptr :: "u32 \<Rightarrow> u16 \<Rightarrow> u32" where
  "next_packet_ptr ptr packet_length =
     (let ptr = (ptr + ucast packet_length + 4 + 3) AND RX_READ_POINTER_MASK
      in if ptr > RX_BUF_SIZE then ptr - RX_BUF_SIZE else ptr)"

definition receive_round :: "'d hardware \<Rightarrow> 'd net \<Rightarrow> 'd net result" where
  "receive_round h s =
     (let t = rx_buffer (nic s) + current_packet_ptr s;
          packet_length = read16 (store s) (t + 2);
          t = t + 4 in
      res_bind (alloc (on_pages (fmalloc (ucast packet_length))) s) (\<lambda>(packet, s).
        let s = on_store (memcopy t packet (ucast packet_length)) s in
      res_bind (alloc (on_pages (fmalloc 24)) s) (\<lambda>(net_work, s).
        let k = krn s;
            k = k\<lparr>works := (works k)(net_work := \<lparr>w_type = 0, w_data = packet, w_size = ucast packet_length\<rparr>)\<rparr>;
            k = on_queues (LIST_INIT (WorkQ net_work)) k;
            k = on_queues (list_add_tail KworkQueue (WorkQ net_work)) k;
            s = s\<lparr>krn := k, packets := packets s + 1,
                  current_packet_ptr := next_packet_ptr (current_packet_ptr s) packet_length\<rparr>
        in Inr (on_dvs (outw h (io_base (nic s) + CAPR) (ucast (current_packet_ptr s - 0x10))) s))))"

partial_function (option) receive_loop :: "'d hardware \<Rightarrow> 'd net \<Rightarrow> 'd net result option" where
  "receive_loop h s =
     (case receive_round h s of
        Inl e \<Rightarrow> Some (Inl e)
      | Inr s \<Rightarrow>
          (let (v, d) = inb h (io_base (nic s) + 0x37) (dvs s);
               s = s\<lparr>dvs := d\<rparr>
           in if v AND RTL_BUFE = 0 then receive_loop h s else Some (Inr s)))"

definition receive_packet :: "'d hardware \<Rightarrow> 'd net \<Rightarrow> 'd net result" where
  "receive_packet h s =
     res_bind (returns (receive_loop h s)) (\<lambda>r. res_bind r (\<lambda>s.
       Inr (s\<lparr>packets := 0, krn := wake_up_thread (kwork_thread (krn s)) (krn s)\<rparr>)))"

definition rtl8139_packet_handler :: "'d hardware \<Rightarrow> 'd net \<Rightarrow> 'd net result" where
  "rtl8139_packet_handler h s =
     (let (status, d) = inw h (io_base (nic s) + 0x3e) (dvs s);
          s = s\<lparr>dvs := d\<rparr> in
      res_bind (if status AND ROK \<noteq> 0 then receive_packet h s else Inr s) (\<lambda>s.
        Inr (on_dvs (outw h (io_base (nic s) + 0x3E) 0x5) s)))"

section \<open>Frames\<close>

definition ETH_ARP :: u16 where "ETH_ARP = 0x0806"
definition ETH_IPV4 :: u16 where "ETH_IPV4 = 0x0800"

fun put_bytes :: "u32 \<Rightarrow> u8 list \<Rightarrow> bytes \<Rightarrow> bytes" where
  "put_bytes a [] m = m"
| "put_bytes a (b # bs) m = put_bytes (a + 1) bs (m(a := b))"

definition broadcast :: "u8 list" where "broadcast = replicate 6 0xff"

text \<open>The destination is an array of six bytes.\<close>

definition send_ethernet_packet ::
  "'d hardware \<Rightarrow> u8 list \<Rightarrow> u16 \<Rightarrow> u32 \<Rightarrow> u32 \<Rightarrow> 'd net \<Rightarrow> 'd net result" where
  "send_ethernet_packet h dst eth_type data_in data_len s =
     (let eth_frame_size = 6 + 6 + 2 + data_len;
          eth_frame_size = (if eth_frame_size < 60 then 60 else eth_frame_size) in
      res_bind (alloc (on_heap (kmalloc eth_frame_size)) s) (\<lambda>(payload, s).
        let s = on_store (memset payload 0 eth_frame_size) s;
            s = on_store (put_bytes payload (take 6 dst)) s;
            s = on_store (put_bytes (payload + 6) (take 6 (mac_addr (nic s)))) s;
            type = switch_endian16 eth_type;
            s = on_store (put16 (payload + 12) type) s;
            s = on_store (memcopy data_in (payload + 14) data_len) s in
      res_bind (rtl8139_send_packet h payload eth_frame_size s) (free payload)))"

section \<open>IPv4\<close>

text \<open>\<^verbatim>\<open>unsigned long\<close> and \<^verbatim>\<open>int\<close> have 32 bits.\<close>

function checksum_sum :: "bytes \<Rightarrow> u32 \<Rightarrow> nat \<Rightarrow> u32 \<Rightarrow> u32" where
  "checksum_sum m addr count acc =
     (if count > 1 then checksum_sum m (addr + 2) (count - 2) (acc + ucast (read16 m addr))
      else if count > 0 then acc + ucast (read16 m addr AND switch_endian16 0xFF00)
      else acc)"
  by pat_completeness auto
termination by (relation "measure (\<lambda>(m, addr, count, acc). count)") auto

declare checksum_sum.simps [simp del]

lemma fold_less: "unat ((acc AND 0xffff) + drop_bit 16 acc) < unat (acc :: u32)" if "drop_bit 16 acc \<noteq> 0"
proof -
  have a: "acc AND 0xffff = take_bit 16 acc" by (simp add: take_bit_eq_mask mask_eq_exp_minus_1)
  have t: "unat (take_bit 16 acc) = unat acc mod 65536" by (simp add: take_bit_eq_mod unat_mod_distrib)
  have d: "unat (drop_bit 16 acc) = unat acc div 65536" by (simp add: drop_bit_eq_div unat_div_distrib)
  have "unat acc div 65536 \<noteq> 0" using that d by (metis unat_eq_zero)
  moreover have "unat acc < 4294967296" by (rule unat_u32_less)
  moreover have "unat (take_bit 16 acc + drop_bit 16 acc) \<le> unat acc mod 65536 + unat acc div 65536"
    unfolding t[symmetric] d[symmetric] by (simp add: unat_word_ariths)
  moreover have "unat acc div 65536 * 65536 + unat acc mod 65536 = unat acc" by (rule div_mult_mod_eq)
  ultimately show ?thesis unfolding a by linarith
qed

function fold_carry :: "u32 \<Rightarrow> u32" where
  "fold_carry acc = (if drop_bit 16 acc \<noteq> 0 then fold_carry ((acc AND 0xffff) + drop_bit 16 acc) else acc)"
  by pat_completeness auto
termination by (relation "measure unat") (auto simp: fold_less)

declare fold_carry.simps [simp del]

definition compute_checksum :: "bytes \<Rightarrow> u32 \<Rightarrow> nat \<Rightarrow> u16" where
  "compute_checksum m addr count = ucast (NOT (fold_carry (checksum_sum m addr count 0)))"

text \<open>The other version, which is not called.\<close>

function ipv4_sum :: "bytes \<Rightarrow> u32 \<Rightarrow> int \<Rightarrow> u32 \<Rightarrow> u32" where
  "ipv4_sum m w nleft acc =
     (if nleft > 1 then ipv4_sum m (w + 2) (nleft - 2) (acc + ucast (read16 m w))
      else if nleft = 1 then acc + ucast (m w)
      else acc)"
  by pat_completeness auto
termination by (relation "measure (\<lambda>(m, w, nleft, acc). nat nleft)") auto

declare ipv4_sum.simps [simp del]

definition ipv4_checksum :: "bytes \<Rightarrow> u32 \<Rightarrow> int \<Rightarrow> u32" where
  "ipv4_checksum m addr len =
     (let sum = ipv4_sum m addr len 0;
          sum = signed_drop_bit 16 sum + (sum AND 0xffff);
          sum = sum + signed_drop_bit 16 sum;
          answer = (ucast (NOT sum) :: u16)
      in ucast answer)"

text \<open>\<^verbatim>\<open>IPv4Header\<close>: 20 bytes. The first byte holds \<^verbatim>\<open>ihl\<close> in its low half and \<^verbatim>\<open>version\<close> in the high one.\<close>

definition sizeof_IPv4Header :: u32 where "sizeof_IPv4Header = 20"

definition create_ipv4_header ::
  "u8 list \<Rightarrow> u8 list \<Rightarrow> u32 \<Rightarrow> 'd net \<Rightarrow> (u32 \<times> 'd net) result" where
  "create_ipv4_header src_ip dest_ip len s =
     res_bind (alloc (on_heap (kmalloc sizeof_IPv4Header)) s) (\<lambda>(ip, s).
       let ihl = 5; version = 4;
           m = store s;
           m = m(ip := ihl OR push_bit 4 version);
           m = m(ip + 1 := 0);
           m = put16 (ip + 2) (switch_endian16 (ucast len)) m;
           m = put16 (ip + 4) 0 m;
           m = put16 (ip + 6) 0 m;
           m = put16 (ip + 10) 0 m;
           m = m(ip + 8 := 10);
           m = m(ip + 9 := 0x11);
           m = put_bytes (ip + 12) (take 4 src_ip) m;
           m = put_bytes (ip + 16) (take 4 dest_ip) m;
           m = put16 (ip + 10) (compute_checksum m ip (4 * unat ihl)) m
       in Inr (ip, s\<lparr>store := m\<rparr>))"

definition send_ip_packet :: "'d hardware \<Rightarrow> u32 \<Rightarrow> 'd net \<Rightarrow> 'd net result" where
  "send_ip_packet h ip s = send_ethernet_packet h broadcast ETH_IPV4 ip sizeof_IPv4Header s"

section \<open>UDP, ARP, DHCP\<close>

definition sizeof_UDP :: u32 where "sizeof_UDP = 8"

definition create_udp_packet :: "u16 \<Rightarrow> u16 \<Rightarrow> u16 \<Rightarrow> u16 \<Rightarrow> 'd net \<Rightarrow> (u32 \<times> 'd net) result" where
  "create_udp_packet src_port dest_port len checksum s =
     res_bind (alloc (on_heap (kmalloc sizeof_UDP)) s) (\<lambda>(udp, s).
       let s = on_store (put16 udp (switch_endian16 src_port)) s;
           s = on_store (put16 (udp + 2) (switch_endian16 dest_port)) s;
           s = on_store (put16 (udp + 4) (switch_endian16 len)) s;
           s = on_store (put16 (udp + 6) (switch_endian16 checksum)) s
       in Inr (udp, s))"

definition ARP_ETH :: u16 where "ARP_ETH = 1"
definition ARP_IPV4 :: u16 where "ARP_IPV4 = 0x0800"
definition ARP_ETH_SIZE :: u8 where "ARP_ETH_SIZE = 6"
definition ARP_IPV4_SIZE :: u8 where "ARP_IPV4_SIZE = 4"
definition ARP_REQ :: u16 where "ARP_REQ = 1"
definition ARP_REQ_LEN :: u32 where "ARP_REQ_LEN = 28"

text \<open>Only the first eight bytes of the request are written: the addresses are whatever the memory
  held, the address asked for is not used, and the request is not freed.\<close>

definition send_arp_request :: "'d hardware \<Rightarrow> u8 list \<Rightarrow> 'd net \<Rightarrow> 'd net result" where
  "send_arp_request h ip s =
     res_bind (alloc (on_heap (kmalloc ARP_REQ_LEN)) s) (\<lambda>(arp_req, s).
       let s = on_store (put16 arp_req (switch_endian16 ARP_ETH)) s;
           s = on_store (put16 (arp_req + 2) (switch_endian16 ARP_IPV4)) s;
           s = on_store (\<lambda>m. m(arp_req + 4 := ARP_ETH_SIZE)) s;
           s = on_store (\<lambda>m. m(arp_req + 5 := ARP_IPV4_SIZE)) s;
           s = on_store (put16 (arp_req + 6) (switch_endian16 ARP_REQ)) s
       in send_ethernet_packet h broadcast ETH_ARP arp_req ARP_REQ_LEN s)"

definition sizeof_DHCPMessage :: u32 where "sizeof_DHCPMessage = 244"

definition next_random :: "'d net \<Rightarrow> u32 \<times> 'd net" where
  "next_random s = (let (r, n) = rand (rand_next (krn s)) in (r, s\<lparr>krn := (krn s)\<lparr>rand_next := n\<rparr>\<rparr>))"

definition create_dchp_discovery :: "'d net \<Rightarrow> (u32 \<times> 'd net) result" where
  "create_dchp_discovery s =
     res_bind (alloc (on_heap (kmalloc sizeof_DHCPMessage)) s) (\<lambda>(dhcp, s).
       let s = on_store (put_bytes dhcp [1, 1, 6, 0]) s;
           (r1, s) = next_random s;
           (r2, s) = next_random s;
           (r3, s) = next_random s;
           txid = r1 + r2 + r3;
           s = on_store (put32 (dhcp + 4) txid) s;
           s = on_store (put16 (dhcp + 8) 0) s;
           s = on_store (put16 (dhcp + 10) 0) s;
           s = on_store (put32 (dhcp + 12) 0) s;
           s = on_store (put32 (dhcp + 16) 0) s;
           s = on_store (put32 (dhcp + 20) 0) s;
           s = on_store (put32 (dhcp + 24) 0) s;
           s = on_store (put_bytes (dhcp + 28) (take 6 (mac_addr (nic s)))) s;
           s = on_store (memset (dhcp + 34) 0 202) s;
           s = on_store (put32 (dhcp + 236) (switch_endian32 0x63825363)) s;
           s = on_store (put_bytes (dhcp + 240) [53, 1, 1]) s
       in Inr (dhcp, on_store (\<lambda>m. m(dhcp + 243 := 0xff)) s))"

definition send_dchp_discovery :: "'d hardware \<Rightarrow> 'd net \<Rightarrow> 'd net result" where
  "send_dchp_discovery h s =
     (let tot_size = sizeof_IPv4Header + sizeof_UDP + sizeof_DHCPMessage in
      res_bind (create_dchp_discovery s) (\<lambda>(dchp_message, s).
      res_bind (create_ipv4_header (replicate 4 0) (replicate 4 255) tot_size s) (\<lambda>(ipv4, s).
      res_bind (create_udp_packet 68 67 (ucast sizeof_DHCPMessage + 8) 0 s) (\<lambda>(udp, s).
      res_bind (alloc (on_heap (kmalloc tot_size)) s) (\<lambda>(data, s).
        let s = on_store (memcopy ipv4 data sizeof_IPv4Header) s;
            s = on_store (memcopy udp (data + sizeof_IPv4Header) sizeof_UDP) s;
            s = on_store (memcopy dchp_message (data + sizeof_IPv4Header + sizeof_UDP) sizeof_DHCPMessage) s in
      res_bind (send_ethernet_packet h broadcast ETH_IPV4 data tot_size s) (\<lambda>s.
      res_bind (free data s) (\<lambda>s.
      res_bind (free dchp_message s) (\<lambda>s.
      res_bind (free udp s) (free ipv4)))))))))"

end
