(* ===== verification/Net_Props.thy ===== *)
theory Net_Props
  imports Net Slab_Props Sched_Props
begin

text \<open>
  The internet checksum of \<^verbatim>\<open>net/ipv4.c\<close> and the read pointer of the network card.
\<close>

section \<open>The sum of the words\<close>

text \<open>The sum that both versions compute, without the width of the accumulator.\<close>

fun words_sum :: "bytes \<Rightarrow> u32 \<Rightarrow> nat \<Rightarrow> nat" where
  "words_sum m a 0 = 0"
| "words_sum m a (Suc 0) = unat (m a)"
| "words_sum m a (Suc (Suc n)) = unat (read16 m a) + words_sum m (a + 2) n"

lemma unat_u16_le: "unat (x :: u16) \<le> 65535" and unat_u8_le: "unat (y :: u8) \<le> 255"
  using unsigned_less[of x, where 'a = nat] unsigned_less[of y, where 'a = nat] by simp_all

lemma unat_ucast_up [simp]: "unat (ucast (x :: u16) :: u32) = unat x" "unat (ucast (y :: u8) :: u32) = unat y"
  "unat (ucast (y :: u8) :: u16) = unat y"
  using unat_u16_le[of x] unat_u8_le[of y] by (simp_all add: unsigned_ucast_eq take_bit_eq_mod)

lemma words_sum_bound: "words_sum m a n \<le> 65535 * ((n + 1) div 2)"
proof (induction m a n rule: words_sum.induct)
  case (2 m a)
  then show ?case using unat_u8_le[of "m a"] by simp
next
  case (3 m a n)
  then show ?case using unat_u16_le[of "read16 m a"] by simp
qed simp

lemma small_byte_bit: "bit (x :: u8) n \<Longrightarrow> n < 8"
  using bit_imp_le_length[of x n] by simp

lemma odd_byte: "read16 m a AND switch_endian16 0xFF00 = ucast (m a)"
proof -
  have e: "switch_endian16 0xFF00 = mask 8"
    by (simp add: switch_endian16_def mask_eq_exp_minus_1 drop_bit_eq_div push_bit_eq_mult)
  show ?thesis unfolding e read16_def
    by (rule bit_word_eqI) (auto simp: bit_simps dest: small_byte_bit)
qed

lemma checksum_sum_words:
  assumes "unat acc + words_sum m a n < 4294967296"
  shows "unat (checksum_sum m a n acc) = unat acc + words_sum m a n"
  using assms
proof (induction m a n arbitrary: acc rule: words_sum.induct)
  case (2 m a)
  then show ?case by (simp add: checksum_sum.simps odd_byte unat_word_ariths)
next
  case (3 m a n)
  then have "unat (acc + ucast (read16 m a)) = unat acc + unat (read16 m a)" by (simp add: unat_word_ariths)
  then show ?case using 3 by (subst checksum_sum.simps) simp
qed (simp add: checksum_sum.simps)

lemma ipv4_sum_words:
  assumes "unat acc + words_sum m a n < 4294967296"
  shows "unat (ipv4_sum m a (int n) acc) = unat acc + words_sum m a n"
  using assms
proof (induction m a n arbitrary: acc rule: words_sum.induct)
  case (2 m a)
  then show ?case by (simp add: ipv4_sum.simps unat_word_ariths)
next
  case (3 m a n)
  then have "unat (acc + ucast (read16 m a)) = unat acc + unat (read16 m a)" by (simp add: unat_word_ariths)
  then show ?case using 3 by (subst ipv4_sum.simps) simp
qed (simp add: ipv4_sum.simps)

section \<open>Folding the carries\<close>

text \<open>The residue modulo 65535 between 1 and 65535, and 0 for 0: addition in one's complement.\<close>

definition residue :: "nat \<Rightarrow> nat" where
  "residue x = (if x = 0 then 0 else (x - 1) mod 65535 + 1)"

lemma residue_le: "residue x \<le> 65535"
proof -
  have "(x - 1) mod 65535 < 65535" by simp
  then show ?thesis by (simp only: residue_def split: if_split) linarith
qed

lemma residue_small: "x \<le> 65535 \<Longrightarrow> residue x = x"
  by (auto simp: residue_def)

lemma residue_fold: "residue (x mod 65536 + x div 65536) = residue x"
proof (cases "x = 0")
  case False
  define y where "y = x mod 65536 + x div 65536"
  have x: "x = y + 65535 * (x div 65536)" using div_mult_mod_eq[of x 65536] unfolding y_def by linarith
  have "y \<noteq> 0" using False x by auto
  then have "x - 1 = (y - 1) + 65535 * (x div 65536)" using x by linarith
  then have "(x - 1) mod 65535 = (y - 1) mod 65535" by (metis mod_mult_self2)
  then show ?thesis using False \<open>y \<noteq> 0\<close> by (simp add: residue_def flip: y_def)
qed simp

lemma halves:
  "unat ((x :: u32) AND 0xffff) = unat x mod 65536" "unat (drop_bit 16 x) = unat x div 65536"
proof -
  have "x AND 0xffff = take_bit 16 x" by (simp add: take_bit_eq_mask mask_eq_exp_minus_1)
  then show "unat (x AND 0xffff) = unat x mod 65536" by (simp add: take_bit_eq_mod unat_mod_distrib)
  show "unat (drop_bit 16 x) = unat x div 65536" by (simp add: drop_bit_eq_div unat_div_distrib)
qed

lemma unat_halves_sum: "unat ((x :: u32) AND 0xffff) + unat (drop_bit 16 x) < 4294967296"
proof -
  have "unat x mod 65536 < 65536" "unat x div 65536 < 65536"
    using unat_u32_less[of x] by (simp_all add: less_mult_imp_div_less)
  then show ?thesis by (simp add: halves)
qed

lemma fold_carry_residue: "unat (fold_carry x) = residue (unat x)"
proof (induction x rule: fold_carry.induct)
  case (1 x)
  show ?case
  proof (cases "drop_bit 16 x \<noteq> 0")
    case True
    have "unat ((x AND 0xffff) + drop_bit 16 x) = unat x mod 65536 + unat x div 65536"
      using unat_halves_sum[of x] by (simp add: unat_word_ariths halves)
    with 1[OF True] True show ?thesis by (subst fold_carry.simps) (simp add: residue_fold)
  next
    case False
    then have "unat x div 65536 = 0" using halves(2)[of x] by simp
    then have "unat x \<le> 65535" by (simp add: div_eq_0_iff)
    with False show ?thesis by (subst fold_carry.simps) (simp add: residue_small)
  qed
qed

section \<open>The two versions of the checksum\<close>

lemma NOT_16: "unat (ucast (NOT (x :: u32)) :: u16) = 65535 - unat x mod 65536"
proof -
  have "(ucast (NOT x) :: u16) = NOT (ucast x)"
    by (rule bit_word_eqI) (simp add: bit_simps)
  moreover have "unat (NOT y) = 65535 - unat y" for y :: u16
  proof -
    have "NOT y = - 1 - y" by (simp add: not_eq_complement)
    then show ?thesis using unat_u16_le[of y] by (simp add: unat_sub word_le_nat_alt unsigned_minus_1_eq_mask mask_eq_exp_minus_1)
  qed
  ultimately show ?thesis by (simp add: unsigned_ucast_eq take_bit_eq_mod)
qed

lemma checksum_residue:
  assumes "n \<le> 131072"
  shows "unat (compute_checksum m a n) = 65535 - residue (words_sum m a n)"
proof -
  have "(n + 1) div 2 \<le> 65536" using assms by simp
  then have "65535 * ((n + 1) div 2) \<le> 65535 * 65536" by (rule mult_le_mono2)
  then have "words_sum m a n < 4294967296" using words_sum_bound[of m a n] by linarith
  then have "unat (fold_carry (checksum_sum m a n 0)) = residue (words_sum m a n)"
    by (simp add: fold_carry_residue checksum_sum_words)
  then show ?thesis using residue_le[of "words_sum m a n"] by (simp add: compute_checksum_def NOT_16)
qed

lemma signed_shift: "unat (x :: u32) < 2147483648 \<Longrightarrow> signed_drop_bit 16 x = drop_bit 16 x"
proof -
  assume x: "unat x < 2147483648"
  have "bit (unat x) 31 = bit x 31" by (simp add: bit_unsigned_iff)
  then have "bit x 31 = odd (unat x div 2147483648)" by (simp add: bit_iff_odd)
  then have "\<not> bit x 31" using x by simp
  moreover have "bit x n \<Longrightarrow> n < 32" for n using bit_imp_le_length[of x n] by simp
  then have "16 \<le> n \<Longrightarrow> \<not> bit x (16 + n)" for n by fastforce
  ultimately show ?thesis
    by (intro bit_word_eqI) (auto simp: bit_simps)
qed

text \<open>
  C38: for messages of up to 65536 bytes the two versions of the internet checksum in \<^verbatim>\<open>net/ipv4.c\<close> agree:
  the one that folds the carries in a loop and the one that folds them twice, with signed
  arithmetic; both are the complement of the sum of the 16-bit words in one's complement.
\<close>

theorem checksums_agree:
  assumes "n \<le> 65536"
  shows "ipv4_checksum m a (int n) = ucast (compute_checksum m a n) \<and>
    unat (compute_checksum m a n) = 65535 - residue (words_sum m a n)"
proof
  show c: "unat (compute_checksum m a n) = 65535 - residue (words_sum m a n)"
    using assms by (intro checksum_residue) simp
  define s0 where "s0 = ipv4_sum m a (int n) 0"
  have "(n + 1) div 2 \<le> 32768" using assms by simp
  then have "65535 * ((n + 1) div 2) \<le> 65535 * 32768" by (rule mult_le_mono2)
  then have w: "words_sum m a n < 2147483648" using words_sum_bound[of m a n] by linarith
  then have u: "unat s0 = words_sum m a n" by (simp add: s0_def ipv4_sum_words)
  define s1 where "s1 = signed_drop_bit 16 s0 + (s0 AND 0xffff)"
  have d: "unat s0 div 65536 < 32768" using u w by (simp add: less_mult_imp_div_less)
  have u1: "unat s1 = unat s0 div 65536 + unat s0 mod 65536"
    using unat_halves_sum[of s0] u w by (simp add: s1_def signed_shift unat_word_ariths halves)
  have small: "unat s1 < 98304" using u1 d by (simp add: mod_less_divisor[THEN less_trans_Suc] add_less_mono)
  define s2 where "s2 = s1 + signed_drop_bit 16 s1"
  have u2: "unat s2 = unat s1 + unat s1 div 65536"
  proof -
    have "unat s1 div 65536 < 2" using small by (simp add: less_mult_imp_div_less)
    then show ?thesis using small by (simp add: s2_def signed_shift unat_word_ariths halves)
  qed
  have r: "residue (words_sum m a n) = residue (unat s1)"
    using residue_fold[of "unat s0"] u u1 by (simp add: add.commute)
  have "unat s2 mod 65536 = residue (unat s1)"
  proof (cases "unat s1 < 65536")
    case True
    then show ?thesis by (simp add: u2 residue_small)
  next
    case False
    then obtain y where "unat s1 = 65536 + y" by (metis le_iff_add not_less)
    moreover from this have "y < 32768" using small by simp
    moreover from this have "(65536 + y) div 65536 = 1" "(65536 + y + 1) mod 65536 = y + 1"
      by (simp_all add: div_nat_eqI mod_add_self1[of 65536 "y + 1", simplified])
    ultimately show ?thesis by (simp add: u2 residue_def)
  qed
  with r have "unat (ucast (NOT s2) :: u16) = 65535 - residue (words_sum m a n)" by (simp add: NOT_16)
  with c have "(ucast (NOT s2) :: u16) = compute_checksum m a n" by (metis word_unat_eq_iff)
  then show "ipv4_checksum m a (int n) = ucast (compute_checksum m a n)"
    by (simp add: ipv4_checksum_def Let_def s0_def s1_def s2_def)
qed

theorem checksums_agree_witness:
  "ipv4_checksum (\<lambda>_. 255) 0 3 = ucast (compute_checksum (\<lambda>_. 255) 0 3)"
  using checksums_agree[of 3 "\<lambda>_. 255" 0] by simp

section \<open>The checksum in its place\<close>

lemma read16_put16 [simp]: "read16 (put16 a v m) a = v"
  unfolding read16_def put16_def by (rule bit_word_eqI) (auto simp: bit_simps dest: bit_imp_le_length)

lemma word_offset_eq: "(a :: u32) + of_nat i = a + of_nat j \<longleftrightarrow> i = j" if "i < 4294967296" "j < 4294967296"
proof
  assume "a + of_nat i = a + of_nat j"
  then have "(of_nat i :: u32) = of_nat j" by simp
  then have "unat (word_of_nat i :: u32) = unat (word_of_nat j :: u32)" by simp
  then show "i = j" using that by (simp add: unat_u32)
qed simp

lemma offset_ne:
  "i \<noteq> j \<Longrightarrow> i < 4294967296 \<Longrightarrow> j < 4294967296 \<Longrightarrow> (a :: u32) + of_nat i \<noteq> a + of_nat j"
  by (simp only: word_offset_eq not_False_eq_True)

lemma words_sum_cong:
  "(\<And>i. i < n \<Longrightarrow> m' (a + of_nat i) = m (a + of_nat i)) \<Longrightarrow> words_sum m' a n = words_sum m a n"
proof (induction m a n rule: words_sum.induct)
  case (3 m a n)
  have "m' (a + 2 + of_nat i) = m (a + 2 + of_nat i)" if "i < n" for i
    using 3(2)[of "Suc (Suc i)"] that by (simp add: add.assoc)
  moreover have "read16 m' a = read16 m a" using 3(2)[of 0] 3(2)[of 1] by (simp add: read16_def)
  ultimately show ?case using 3(1) by simp
qed auto

lemma words_sum_put:
  assumes "2 * k + 1 < n" "n < 4294967296"
  shows "words_sum (put16 (a + of_nat (2 * k)) c m) a n + unat (read16 m (a + of_nat (2 * k))) =
    words_sum m a n + unat c"
  using assms
proof (induction k arbitrary: a n)
  case 0
  then obtain j where n: "n = Suc (Suc j)" by (cases n; cases "n - 1") auto
  have "words_sum (put16 a c m) (a + 2) j = words_sum m (a + 2) j"
  proof (rule words_sum_cong)
    fix i assume "i < j"
    then have "a + of_nat (Suc (Suc i)) \<noteq> a + of_nat 0" "a + of_nat (Suc (Suc i)) \<noteq> a + of_nat 1"
      using 0 n by (intro offset_ne; simp)+
    then show "put16 a c m (a + 2 + of_nat i) = m (a + 2 + of_nat i)"
      by (simp add: put16_def add.assoc)
  qed
  then show ?case by (simp add: n)
next
  case (Suc k)
  then obtain j where n: "n = Suc (Suc j)" by (cases n; cases "n - 1") auto
  let ?p = "a + of_nat (2 * Suc k)"
  have e: "?p = a + 2 + of_nat (2 * k)" "?p + 1 = a + of_nat (2 * Suc k + 1)" by (simp_all add: add.assoc)
  have ne: "a + of_nat x \<noteq> a + of_nat y" if "x < 2" "2 \<le> y" "y \<le> 2 * Suc k + 1" for x y
    using that Suc.prems by (intro offset_ne) simp_all
  have "a \<noteq> ?p" "a \<noteq> ?p + 1" "a + 1 \<noteq> ?p" "a + 1 \<noteq> ?p + 1"
    using ne[of 0 "2 * Suc k"] ne[of 0 "2 * Suc k + 1"] ne[of 1 "2 * Suc k"] ne[of 1 "2 * Suc k + 1"]
    unfolding e(2) by simp_all
  then have "read16 (put16 ?p c m) a = read16 m a" by (simp add: read16_def put16_def)
  moreover have "words_sum (put16 ?p c m) (a + 2) j + unat (read16 m ?p) = words_sum m (a + 2) j + unat c"
    unfolding e(1) using Suc.prems n by (intro Suc.IH) simp_all
  ultimately show ?case by (simp add: n)
qed

text \<open>What a receiver checks: a message that carries its checksum in a word that was zero sums to 0.\<close>

lemma checksum_verifies:
  assumes "read16 m (a + of_nat (2 * k)) = 0" "2 * k + 1 < n" "n \<le> 131072" "words_sum m a n \<noteq> 0"
  shows "compute_checksum (put16 (a + of_nat (2 * k)) (compute_checksum m a n) m) a n = 0"
proof -
  let ?c = "compute_checksum m a n"
  define x where "x = words_sum m a n"
  have c: "unat ?c = 65535 - residue x" unfolding x_def by (rule checksum_residue[OF assms(3)])
  have w: "words_sum (put16 (a + of_nat (2 * k)) ?c m) a n = x + unat ?c"
    using words_sum_put[OF assms(2), of a ?c m] assms(1,3) by (simp add: x_def)
  have x: "x \<noteq> 0" using assms(4) by (simp add: x_def)
  define q r where "q = (x - 1) div 65535" and "r = (x - 1) mod 65535"
  have "x - 1 = q * 65535 + r" "r < 65535" "residue x = r + 1"
    using x by (simp_all add: q_def r_def residue_def)
  then have "x + (65535 - residue x) - 1 = q * 65535 + 65534" using x by linarith
  moreover define z where "z = x + unat ?c"
  ultimately have "z - 1 = q * 65535 + 65534" "z \<noteq> 0" using x by (simp_all add: c)
  then have "residue z = 65535" by (simp add: residue_def mod_mult_self3)
  then have "residue (x + unat ?c) = 65535" by (simp add: z_def)
  then have "unat (compute_checksum (put16 (a + of_nat (2 * k)) ?c m) a n) = 0"
    using checksum_residue[OF assms(3)] w by simp
  then show ?thesis by (simp add: unat_eq_0)
qed

section \<open>The IPv4 header\<close>

text \<open>
  C18: \<^verbatim>\<open>create_ipv4_header\<close>, once the allocator has given it its 20 bytes, leaves there a header a
  receiver accepts: version 4 with 5 words, the length in network order, time to live 10, the
  protocol of UDP, the two addresses, and a checksum with which the sum of the whole header
  verifies, wherever it lies in memory.
\<close>

theorem ipv4_header_verifies:
  assumes "alloc (on_heap (kmalloc sizeof_IPv4Header)) s = Inr (ip, t)"
    and "length src = 4" "length dst = 4"
  shows "\<exists>s'. create_ipv4_header src dst len s = Inr (ip, s') \<and>
    compute_checksum (store s') ip 20 = 0 \<and> store s' ip = 0x45 \<and>
    read16 (store s') (ip + 2) = switch_endian16 (ucast len) \<and>
    store s' (ip + 8) = 10 \<and> store s' (ip + 9) = 0x11 \<and>
    map (\<lambda>i. store s' (ip + 12 + of_nat i)) [0..<4] = src \<and>
    map (\<lambda>i. store s' (ip + 16 + of_nat i)) [0..<4] = dst"
proof -
  obtain a b c d where src: "src = [a, b, c, d]" using assms(2) by (auto simp: length_Suc_conv eval_nat_numeral)
  obtain e f g h where dst: "dst = [e, f, g, h]" using assms(3) by (auto simp: length_Suc_conv eval_nat_numeral)
  define m where "m = store t"
  define m1 where "m1 = put16 (ip + 10) 0 (put16 (ip + 6) 0 (put16 (ip + 4) 0
    (put16 (ip + 2) (switch_endian16 (ucast len)) (m(ip := 0x45, ip + 1 := 0)))))"
  define m2 where "m2 = m1(ip + 8 := 10, ip + 9 := 0x11, ip + 12 := a, ip + 13 := b, ip + 14 := c, ip + 15 := d,
    ip + 16 := e, ip + 17 := f, ip + 18 := g, ip + 19 := h)"
  define m3 where "m3 = put16 (ip + 10) (compute_checksum m2 ip 20) m2"
  have v: "(5 OR push_bit 4 4 :: u8) = 0x45" by (simp add: push_bit_eq_mult)
  have r: "create_ipv4_header src dst len s = Inr (ip, t\<lparr>store := m3\<rparr>)"
    using assms(1) by (simp add: create_ipv4_header_def Let_def src dst m_def m1_def m2_def m3_def v add.assoc)
  have z: "read16 m2 (ip + 10) = 0"
    by (simp add: m2_def m1_def read16_def put16_def add.assoc)
  have n: "words_sum m2 ip 20 \<noteq> 0"
  proof -
    have "m2 ip = 0x45" by (simp add: m2_def m1_def put16_def add.assoc)
    then have "read16 m2 ip \<noteq> 0"
      by (simp add: read16_def or_eq_0_iff)
    then show ?thesis by (simp add: numeral_eq_Suc unat_eq_0)
  qed
  have "compute_checksum m3 ip 20 = 0"
    using checksum_verifies[of m2 ip 5 20] z n by (simp add: m3_def)
  moreover have "m3 ip = 0x45" "read16 m3 (ip + 2) = switch_endian16 (ucast len)"
    "m3 (ip + 8) = 10" "m3 (ip + 9) = 0x11"
    by (simp_all add: m3_def m2_def m1_def put16_def add.assoc)
      (simp add: read16_def, rule bit_word_eqI, auto simp: bit_simps dest: bit_imp_le_length)
  moreover have "map (\<lambda>i. m3 (ip + 12 + of_nat i)) [0..<4] = src" "map (\<lambda>i. m3 (ip + 16 + of_nat i)) [0..<4] = dst"
    by (simp_all add: src dst m3_def m2_def m1_def put16_def add.assoc upt_rec)
  ultimately show ?thesis using r by (intro exI[of _ "t\<lparr>store := m3\<rparr>"]) simp
qed

text \<open>A network whose heap has one free page.\<close>

definition quiet_net :: "unit net" where
  "quiet_net = net.make (\<lambda>_. 0) (rtl8139_dev.make 0 0 0 [] 0 0) undefined 0 0 ()
     ((start_kernel (\<lambda>_. plain_thread))\<lparr>paging := (paging (start_kernel (\<lambda>_. plain_thread)))\<lparr>kheap := empty_heap\<rparr>\<rparr>)"

theorem ipv4_header_verifies_witness:
  "\<exists>ip s'. create_ipv4_header [10, 0, 0, 1] [10, 0, 0, 2] 48 quiet_net = Inr (ip, s') \<and>
     compute_checksum (store s') ip 20 = 0"
proof -
  obtain p h where "kmalloc 20 empty_heap = Inr (p, h)"
    using kmalloc_small_returns[OF empty_heap_inv(1), of 20] one_block_kmem_page
    by (auto simp: MAX_SLAB_SIZE_def empty_heap_def kheap.make_def)
  then obtain t where "alloc (on_heap (kmalloc sizeof_IPv4Header)) quiet_net = Inr (p, t)"
    by (simp add: alloc_def on_heap_def quiet_net_def net.make_def sizeof_IPv4Header_def)
  from ipv4_header_verifies[OF this, of "[10, 0, 0, 1]" "[10, 0, 0, 2]" 48] show ?thesis by auto
qed

section \<open>The read pointer of the card\<close>




end
