(* ===== verification/Screen.thy ===== *)
theory Screen
  imports Sync Ports Boot
begin

text \<open>
  \<^verbatim>\<open>drivers/screen.c\<close>: the text screen, its cursor and \<^verbatim>\<open>kprintf\<close>, and the loop of \<^verbatim>\<open>bin/screen.c\<close>.
  The video memory is part of the byte store; the cursor lives in the display controller and is
  reached through its ports; once \<^verbatim>\<open>kernel_init_ok\<close> is set characters go to the block device
  \<^verbatim>\<open>stdout\<close> instead. Rows, columns and offsets are \<^verbatim>\<open>int\<close>s.
\<close>

section \<open>State\<close>

definition VGA_ADDRESS :: u32 where "VGA_ADDRESS = 0xB8000"
definition VGA_COLUMNS :: int where "VGA_COLUMNS = 80"
definition VGA_ROWS :: int where "VGA_ROWS = 25"
definition DEFAULT_ATTR :: u8 where "DEFAULT_ATTR = 0x0F"
definition VGA_CTRL_PORT :: u16 where "VGA_CTRL_PORT = 0x3D4"
definition VGA_DATA_PORT :: u16 where "VGA_DATA_PORT = 0x3D5"

lemmas vga_consts = VGA_COLUMNS_def VGA_ROWS_def

record 'd screen =
  video :: bytes
  textColor :: u8
  last_offset :: u32
  kernel_init_ok :: bool
  devices :: 'd
  kern :: kernel

definition on_devices :: "('d \<Rightarrow> 'd) \<Rightarrow> 'd screen \<Rightarrow> 'd screen" where
  "on_devices f s = s\<lparr>devices := f (devices s)\<rparr>"

definition on_kern :: "(kernel \<Rightarrow> (u32 \<times> kernel) result) \<Rightarrow> 'd screen \<Rightarrow> 'd screen result" where
  "on_kern f s = res_bind (f (kern s)) (\<lambda>(_, k). Inr (s\<lparr>kern := k\<rparr>))"

section \<open>Colours\<close>

definition setTextColor :: "u8 \<Rightarrow> 'd screen \<Rightarrow> 'd screen" where
  "setTextColor fgColor s =
     s\<lparr>textColor := push_bit 4 (drop_bit 4 (textColor s)) OR (0x0f AND fgColor)\<rparr>"

definition setBackgroundColor :: "u8 \<Rightarrow> 'd screen \<Rightarrow> 'd screen" where
  "setBackgroundColor bgColor s = s\<lparr>textColor := textColor s OR (0xf0 AND push_bit 4 bgColor)\<rparr>"

definition resetScreenColors :: "'d screen \<Rightarrow> 'd screen" where
  "resetScreenColors s = s\<lparr>textColor := DEFAULT_ATTR\<rparr>"

section \<open>Offsets and cursor\<close>

definition getOffset :: "int \<Rightarrow> int \<Rightarrow> int" where
  "getOffset row col = 2 * (row * VGA_COLUMNS + col)"

definition getOffsetRow :: "int \<Rightarrow> int" where
  "getOffsetRow offset = c_div offset (2 * VGA_COLUMNS)"

definition getOffsetCol :: "int \<Rightarrow> int" where
  "getOffsetCol offset = c_div (offset - getOffsetRow offset * 2 * VGA_COLUMNS) 2"

definition getCursorOffset :: "'d hardware \<Rightarrow> 'd screen \<Rightarrow> int \<times> 'd screen" where
  "getCursorOffset h s =
     (let s = on_devices (outb h VGA_CTRL_PORT 14) s;
          (hi, d) = inb h VGA_DATA_PORT (devices s);
          s = s\<lparr>devices := d\<rparr>;
          offset = uint hi * 256;
          s = on_devices (outb h VGA_CTRL_PORT 15) s;
          (lo, d) = inb h VGA_DATA_PORT (devices s);
          s = s\<lparr>devices := d\<rparr>;
          offset = offset + uint lo
      in (offset * 2, s))"

definition setCursorOffset :: "'d hardware \<Rightarrow> int \<Rightarrow> 'd screen \<Rightarrow> 'd screen" where
  "setCursorOffset h offset s =
     (let offset = c_div offset 2;
          s = s\<lparr>last_offset := word_of_int offset\<rparr>;
          s = s\<lparr>kern := upd_file (stdout (kern s)) (\<lambda>f. f\<lparr>f_pos := word_of_int offset\<rparr>) (kern s)\<rparr>;
          s = on_devices (outb h VGA_CTRL_PORT 14) s;
          s = on_devices (outb h VGA_DATA_PORT (word_of_int (offset div 256))) s;
          s = on_devices (outb h VGA_CTRL_PORT 15) s
      in on_devices (outb h VGA_DATA_PORT (word_of_int (offset mod 256))) s)"

definition setCursorPos :: "'d hardware \<Rightarrow> int \<Rightarrow> int \<Rightarrow> 'd screen \<Rightarrow> 'd screen" where
  "setCursorPos h row col s =
     (let offset = getOffset row col;
          s = s\<lparr>kern := upd_file (stdout (kern s)) (\<lambda>f. f\<lparr>f_pos := word_of_int offset\<rparr>) (kern s)\<rparr>
      in setCursorOffset h offset s)"

text \<open>\<^verbatim>\<open>init_cursor\<close> shows the cursor that the boot loader left hidden.\<close>

definition init_cursor :: "'d hardware \<Rightarrow> 'd screen \<Rightarrow> 'd screen" where
  "init_cursor h s =
     fold (\<lambda>(port, v). on_devices (outb h port v))
       [(0x3D4, 0x09), (0x3D5, 0x0F), (0x3D4, 0x0B), (0x3D5, 0x0F), (0x3D4, 0x0A), (0x3D5, 0x0C)] s"

section \<open>Characters\<close>

definition video_at :: "int \<Rightarrow> u32" where
  "video_at offset = VA VGA_ADDRESS + word_of_int offset"

definition put_video :: "int \<Rightarrow> u8 \<Rightarrow> 'd screen \<Rightarrow> 'd screen" where
  "put_video offset b s = s\<lparr>video := (video s)(video_at offset := b)\<rparr>"

text \<open>A character and its attribute, on the screen or in the device file.\<close>

definition put_cell :: "int \<Rightarrow> u8 \<Rightarrow> 'd screen \<Rightarrow> 'd screen result" where
  "put_cell offset c s =
     (if kernel_init_ok s then
        res_bind (on_kern (\<lambda>k. set_pos_block (stdout k) (word_of_int offset) k) s) (\<lambda>s.
        res_bind (on_kern (\<lambda>k. write_byte_block (stdout k) c k) s) (\<lambda>s.
        res_bind (on_kern (\<lambda>k. set_pos_block (stdout k) (word_of_int (offset + 1)) k) s)
          (\<lambda>s. on_kern (\<lambda>k. write_byte_block (stdout k) (textColor s) k) s)))
      else
        let s = put_video offset c s
        in Inr (put_video (offset + 1) (textColor s) s))"

text \<open>Scrolling by one row, of the screen and of the device's buffer. The last row gets the bytes
  that follow it.\<close>

definition scroll_buffer :: "u8 list \<Rightarrow> u8 list result" where
  "scroll_buffer b =
     (if length b < 4160 then Inl OutOfBounds else Inr (take 4000 (drop 160 b) @ drop 4000 b))"

definition scroll :: "'d screen \<Rightarrow> 'd screen result" where
  "scroll s =
     (let s = s\<lparr>video := memcopy (VA VGA_ADDRESS + word_of_int (getOffset 1 0)) (VA VGA_ADDRESS)
                (word_of_int (getOffset (VGA_ROWS - 1) VGA_COLUMNS)) (video s)\<rparr>
      in if kernel_init_ok s then
           res_bind (scroll_buffer (f_buffer (files (kern s) (stdout (kern s))))) (\<lambda>b.
             Inr (s\<lparr>kern := upd_file (stdout (kern s)) (\<lambda>f. f\<lparr>f_buffer := b\<rparr>) (kern s)\<rparr>))
         else Inr s)"

text \<open>The attribute that is passed is never used.\<close>

definition printCharAt ::
  "'d hardware \<Rightarrow> int \<Rightarrow> int \<Rightarrow> u8 \<Rightarrow> u8 \<Rightarrow> 'd screen \<Rightarrow> (int \<times> 'd screen) result" where
  "printCharAt h row col c attr s =
     (if col \<ge> VGA_COLUMNS \<or> row \<ge> VGA_ROWS then
        let s = put_video (2 * VGA_COLUMNS * VGA_ROWS - 2) 69 s;
            s = put_video (2 * VGA_COLUMNS * VGA_ROWS - 1) DEFAULT_ATTR s
        in Inr (getOffset col row, s)
      else
        let (offset, s) = (if col \<ge> 0 \<and> row \<ge> 0 then (getOffset row col, s) else getCursorOffset h s) in
        res_bind
          (if c = 10 then Inr (getOffset (getOffsetRow offset + 1) 0, s)
           else res_bind (put_cell offset c s) (\<lambda>s. Inr (offset + 2, s))) (\<lambda>(offset, s).
        res_bind
          (if offset \<ge> VGA_ROWS * VGA_COLUMNS * 2
           then res_bind (scroll s) (\<lambda>s. Inr (getOffset (VGA_ROWS - 1) 0, s))
           else Inr (offset, s)) (\<lambda>(offset, s).
        Inr (offset, setCursorOffset h offset s))))"

definition printChar :: "'d hardware \<Rightarrow> u8 \<Rightarrow> u8 \<Rightarrow> 'd screen \<Rightarrow> 'd screen result" where
  "printChar h c attr s = res_bind (printCharAt h (- 1) (- 1) c attr s) (\<lambda>(_, s). Inr s)"

definition clearCharAt :: "int \<Rightarrow> int \<Rightarrow> 'd screen \<Rightarrow> 'd screen result" where
  "clearCharAt row col s = put_cell ((row * 80 + col) * 2) 32 s"

fun each_column :: "'d hardware \<Rightarrow> int \<Rightarrow> nat list \<Rightarrow> 'd screen \<Rightarrow> 'd screen result" where
  "each_column h row [] s = Inr s"
| "each_column h row (c # cs) s =
     res_bind (printCharAt h row (int c) 32 (textColor s) s) (\<lambda>(_, s). each_column h row cs s)"

definition clearRow :: "'d hardware \<Rightarrow> int \<Rightarrow> 'd screen \<Rightarrow> 'd screen result" where
  "clearRow h row s = each_column h row [0..<80] s"

fun each_row :: "'d hardware \<Rightarrow> nat list \<Rightarrow> 'd screen \<Rightarrow> 'd screen result" where
  "each_row h [] s = Inr s"
| "each_row h (r # rs) s = res_bind (clearRow h (int r) s) (each_row h rs)"

definition clearScreen :: "'d hardware \<Rightarrow> 'd screen \<Rightarrow> 'd screen result" where
  "clearScreen h s =
     res_bind (each_row h [1..<25] (s\<lparr>textColor := DEFAULT_ATTR\<rparr>)) (\<lambda>s. Inr (setCursorPos h 1 0 s))"

definition deleteLastChar :: "'d hardware \<Rightarrow> 'd screen \<Rightarrow> (int \<times> 'd screen) result" where
  "deleteLastChar h s =
     (let (curOff, s) = getCursorOffset h s;
          curOff = curOff - 2;
          row = getOffsetRow curOff;
          col = getOffsetCol curOff
      in res_bind (printCharAt h row col 32 DEFAULT_ATTR s) (\<lambda>(_, s).
           Inr (getOffset row col, setCursorPos h row col s)))"

section \<open>kprintf\<close>

text \<open>\<^verbatim>\<open>itoa\<close> leaves the text in the caller's buffer; here it is the text. The digits are found from the
  last one and reversed.\<close>

function itoa_digits :: "u32 \<Rightarrow> u32 \<Rightarrow> u8 list" where
  "itoa_digits ud divisor =
     (let r = ud mod divisor;
          c = ucast (if sint r < 10 then r + 48 else r + 97 - 10);
          ud' = ud div divisor
      in c # (if divisor > 1 \<and> ud' \<noteq> 0 then itoa_digits ud' divisor else []))"
  by pat_completeness auto
termination
  by (relation "measure (\<lambda>(ud, _). unat ud)")
    (auto simp: unat_div word_less_nat_alt unat_gt_0 intro!: div_less_dividend)

declare itoa_digits.simps [simp del]

definition itoa :: "u8 \<Rightarrow> u32 \<Rightarrow> u8 list" where
  "itoa base d =
     (if base = 100 \<and> sint d < 0 then 45 # rev (itoa_digits (- d) 10)
      else if base = 120 then rev (itoa_digits d 16)
      else rev (itoa_digits d 10))"

text \<open>The arguments after the format; a string is the text up to its terminator, \<open>None\<close> is NULL.\<close>

datatype arg = Word u32 | Text "u8 list option"

text \<open>One directive: the text it prints and what is left of the format and the arguments. The format
  is the array from the current character on; an argument that is missing or of the wrong kind is
  read from the stack as it is.\<close>

definition padded :: "bool \<Rightarrow> nat \<Rightarrow> u8 list \<Rightarrow> u8 list" where
  "padded pad0 pad p = replicate (pad - length p) (if pad0 then 48 else 32) @ p"

definition null_text :: "u8 list" where "null_text = map of_char ''(null)''"

definition directive :: "u8 list \<Rightarrow> arg list \<Rightarrow> (u8 list \<times> u8 list \<times> arg list) result" where
  "directive fmt args =
     res_bind (arr_get fmt 0) (\<lambda>c.
     res_bind (if c = 48 then res_bind (arr_get fmt 1) (\<lambda>d. Inr (True, d, tl fmt)) else Inr (False, c, fmt))
       (\<lambda>(pad0, c, fmt).
     res_bind (if 48 \<le> sint c \<and> sint c \<le> 57
               then res_bind (arr_get fmt 1) (\<lambda>d. Inr (unat c - 48, d, tl fmt)) else Inr (0, c, fmt))
       (\<lambda>(pad, c, fmt).
       if c \<in> {100, 117, 120} then
         (case args of Word w # args \<Rightarrow> Inr (padded pad0 pad (itoa c w), tl fmt, args)
          | _ \<Rightarrow> Inl BadPointer)
       else if c = 115 then
         (case args of
            Text p # args \<Rightarrow> Inr (padded pad0 pad (case p of None \<Rightarrow> null_text | Some p \<Rightarrow> p), tl fmt, args)
          | _ \<Rightarrow> Inl BadPointer)
       else (case args of Word w # args \<Rightarrow> Inr ([ucast w], tl fmt, args) | _ \<Rightarrow> Inl BadPointer))))"

lemma directive_length:
  assumes "directive fmt args = Inr (txt, fmt', args')"
  shows "length fmt' \<le> length fmt"
  using assms
  by (auto simp: directive_def res_bind_Inr_iff arr_get_Inr_iff
      split: if_splits list.splits arg.splits prod.splits)

function format_text :: "u8 list \<Rightarrow> arg list \<Rightarrow> u8 list result" where
  "format_text fmt args =
     res_bind (arr_get fmt 0) (\<lambda>c.
       if c = 0 then Inr []
       else if c \<noteq> 37 then res_bind (format_text (tl fmt) args) (\<lambda>r. Inr (c # r))
       else res_bind (directive (tl fmt) args) (\<lambda>(t, fmt, args).
         res_bind (format_text fmt args) (\<lambda>r. Inr (t @ r))))"
  by pat_completeness auto
termination
  by (relation "measure (\<lambda>(fmt, _). length fmt)")
    (auto simp: arr_get_Inr_iff neq_Nil_conv dest!: directive_length)

declare format_text.simps [simp del]

text \<open>\<open>kprintf\<close> prints each character of the text at the cursor.\<close>

fun print_text :: "'d hardware \<Rightarrow> u8 list \<Rightarrow> 'd screen \<Rightarrow> 'd screen result" where
  "print_text h [] s = Inr s"
| "print_text h (c # cs) s = res_bind (printChar h c (textColor s) s) (print_text h cs)"

definition kprintf :: "'d hardware \<Rightarrow> u8 list \<Rightarrow> arg list \<Rightarrow> 'd screen \<Rightarrow> 'd screen result" where
  "kprintf h fmt args s = res_bind (format_text fmt args) (\<lambda>t. print_text h t s)"

definition kprintfColor :: "'d hardware \<Rightarrow> u8 \<Rightarrow> u8 list \<Rightarrow> arg list \<Rightarrow> 'd screen \<Rightarrow> 'd screen result" where
  "kprintfColor h color fmt args s =
     res_bind (kprintf h fmt args (setTextColor color s)) (\<lambda>s. Inr (resetScreenColors s))"

definition kPrintOKMessage :: "'d hardware \<Rightarrow> u8 list \<Rightarrow> 'd screen \<Rightarrow> 'd screen result" where
  "kPrintOKMessage h message s =
     res_bind (kprintf h (cstr ''['') [] s) (\<lambda>s.
     res_bind (kprintfColor h 0xA (cstr ''OK'') [] s)
       (kprintf h (cstr (''] %s'' @ [CHR 0x0A])) [Text (Some message)]))"

definition kPrintKOMessage :: "'d hardware \<Rightarrow> u8 list \<Rightarrow> 'd screen \<Rightarrow> 'd screen result" where
  "kPrintKOMessage h message s =
     res_bind (kprintf h (cstr ''['') [] s) (\<lambda>s.
     res_bind (kprintfColor h 0xC (cstr ''KO'') [] s)
       (kprintf h (cstr (''] %s'' @ [CHR 0x0A])) [Text (Some message)]))"

section \<open>The refresh of the screen\<close>

text \<open>One round of \<^verbatim>\<open>screen_refresh\<close>, up to its sleep: the buffer of \<^verbatim>\<open>stdout\<close> is copied to the screen
  where they differ.\<close>

definition refresh_byte :: "u8 list \<Rightarrow> int \<Rightarrow> bytes \<Rightarrow> bytes result" where
  "refresh_byte b off m =
     res_bind (arr_get b (nat off)) (\<lambda>c.
       Inr (if m (video_at off) \<noteq> c then m(video_at off := c) else m))"

fun refresh_cells :: "u8 list \<Rightarrow> (int \<times> int) list \<Rightarrow> bytes \<Rightarrow> bytes result" where
  "refresh_cells b [] m = Inr m"
| "refresh_cells b ((row, col) # cells) m =
     res_bind (refresh_byte b (getOffset row col) m) (\<lambda>m.
     res_bind (refresh_byte b (getOffset row col + 1) m) (refresh_cells b cells))"

definition all_cells :: "(int \<times> int) list" where
  "all_cells = concat (map (\<lambda>row. map (\<lambda>col. (int row, int col)) [0..<80]) [0..<25])"

definition screen_refresh :: "'d screen \<Rightarrow> 'd screen result" where
  "screen_refresh s =
     (if kernel_init_ok s then
        let (p, k) = disable_int (kern s) in
        res_bind (refresh_cells (f_buffer (files k (stdout k))) all_cells (video s)) (\<lambda>m.
          Inr (s\<lparr>video := m, kern := enable_int p k\<rparr>))
      else Inr s)"

end
