(* ===== verification/Work.thy ===== *)
theory Work
  imports Process
begin

text \<open>
  The worker thread (\<^verbatim>\<open>proc/work_queue.c\<close>), the keyboard driver that feeds it
  (\<^verbatim>\<open>drivers/keyboard.c\<close>) and the clean-up of dead processes and free slabs (\<^verbatim>\<open>bin/kswap.c\<close>).
\<close>

section \<open>Keyboard\<close>

definition SC_MAX :: u8 where "SC_MAX = 57"
definition BACKSPACE :: u8 where "BACKSPACE = 0x0E"
definition ENTER :: u8 where "ENTER = 0x1C"
definition CTRL :: u8 where "CTRL = 29"

definition sc_ascii :: "u8 list" where
  "sc_ascii = map of_char (''??1234567890-=?'' @ ''?qwertyuiop[]??'' @ ''asdfghjkl;'' @
     [CHR 0x27, CHR 0x60, CHR 0x3F, CHR 0x5C, CHR 0x7A] @ ''xcvbnm,./???'' @ '' '')"

text \<open>The scan code comes from port \<^verbatim>\<open>0x60\<close>. The buffer of 1024 bytes is appended to without a check.\<close>

definition keyboard_callback :: "u8 \<Rightarrow> kernel \<Rightarrow> kernel result" where
  "keyboard_callback scancode s =
     (if scancode > SC_MAX then Inr s
      else res_bind (append (keyboard_buffer s) scancode) (\<lambda>buf.
        let s = s\<lparr>keyboard_buffer := buf\<rparr>;
            s = s\<lparr>key_buf_avail := key_buf_avail s + 1\<rparr>
        in Inr (wake_up_thread (kwork_thread s) s)))"

definition read_stdin :: "kernel \<Rightarrow> (u8 option \<times> kernel) result" where
  "read_stdin s =
     (let f = fst (std_files (threads s (current_thread s)))
      in if f \<noteq> NULL then read_byte_stream f s else read_byte_stream (stdin s) s)"

section \<open>The worker\<close>

definition init_work_queue :: "kernel \<Rightarrow> kernel" where
  "init_work_queue s = on_queues (LIST_INIT KworkQueue) s"

text \<open>The restarted loop over the packets: it takes the first one until there is none.\<close>

partial_function (option) drain_packets :: "kernel \<Rightarrow> kernel result option" where
  "drain_packets s =
     (let l = nxt (queues s) KworkQueue in
      if l = KworkQueue then Some (Inr s)
      else case l of
        WorkQ w \<Rightarrow>
          (let s = s\<lparr>total_packets := total_packets s + 1\<rparr>;
               s = on_queues (list_remove (WorkQ w)) s;
               (pi, s) = disable_int s
           in case pages_do (ffree (w_data (works s w))) s of
                Inl e \<Rightarrow> Some (Inl e)
              | Inr s \<Rightarrow>
                  (case pages_do (ffree w) s of
                     Inl e \<Rightarrow> Some (Inl e)
                   | Inr s \<Rightarrow> drain_packets (enable_int pi s)))
      | _ \<Rightarrow> Some (Inl BadPointer))"

text \<open>The translation of a scan code; the array is indexed by a signed character.\<close>

definition translate :: "u8 \<Rightarrow> u8 result" where
  "translate scancode =
     (if scancode = ENTER then Inr 10
      else if scancode = BACKSPACE then Inr BACKSPACE
      else if scancode = CTRL then Inr CTRL
      else if sint scancode < 0 then Inl OutOfBounds
      else arr_get sc_ascii (nat (sint scancode)))"

definition take_key :: "kernel \<Rightarrow> kernel result" where
  "take_key s =
     res_bind (arr_get (keyboard_buffer s) (unat (key_buf_last s mod 1024))) (\<lambda>scancode.
     let s = s\<lparr>key_buf_last := key_buf_last s + 1\<rparr> in
     res_bind (translate scancode) (\<lambda>c.
     res_bind (write_byte_stream (stdin s) c s) (\<lambda>(_, s).
       let s = s\<lparr>key_buf_avail := key_buf_avail s - 1\<rparr>
       in Inr (if key_buf_avail s \<le> 0 then s\<lparr>keyboard_buffer := replicate 1024 0, key_buf_last := 0\<rparr> else s))))"

partial_function (option) drain_keys :: "kernel \<Rightarrow> kernel result option" where
  "drain_keys s =
     (if key_buf_avail s > 0 then
        (case take_key s of Inl e \<Rightarrow> Some (Inl e) | Inr s \<Rightarrow> drain_keys s)
      else Some (Inr s))"

text \<open>One round of the worker's loop, up to the switch.\<close>

definition work_round :: "kernel \<Rightarrow> kernel result" where
  "work_round s =
     res_bind (returns (drain_packets s)) (\<lambda>r.
     res_bind r (\<lambda>s.
     res_bind (returns (drain_keys s)) (\<lambda>r.
     res_bind r (\<lambda>s. reschedule (sleep_thread (current_thread s) s)))))"

section \<open>Reaping\<close>

text \<open>The areas of a process are freed while the list they are linked in is walked; the links of a
  freed area are still read.\<close>

definition free_area_body :: "vnode \<Rightarrow> kernel result \<Rightarrow> kernel result \<times> bool" where
  "free_area_body l r =
     (case r of Inl e \<Rightarrow> (Inl e, True) | Inr s \<Rightarrow>
     (case l of
        VmArea v \<Rightarrow> (case heap_do (kfree v) s of Inl e \<Rightarrow> (Inl e, True) | Inr s \<Rightarrow> (Inr s, False))
      | VmAreas _ \<Rightarrow> (Inl BadPointer, True)))"

definition free_areas :: "u32 \<Rightarrow> kernel \<Rightarrow> kernel result" where
  "free_areas m s =
     res_bind (returns (list_for_each
         (\<lambda>r. case r of Inr s \<Rightarrow> nxt (vm_lists (paging s)) | Inl _ \<Rightarrow> (\<lambda>n. n))
         free_area_body (VmAreas m) (Inr s))) (\<lambda>r. r)"

fun free_tables :: "u32 \<Rightarrow> nat list \<Rightarrow> kernel \<Rightarrow> kernel result" where
  "free_tables pd [] s = Inr s"
| "free_tables pd (i # is) s =
     (let pde = words (paging s) (entry pd (word_of_nat i)) in
      if isPresent pde \<and> isUsermode pde
      then res_bind (pages_do (ffree (VA (pde AND 0xFFFFF000))) s) (free_tables pd is)
      else free_tables pd is s)"

definition reap :: "u32 \<Rightarrow> kernel \<Rightarrow> kernel result" where
  "reap p s =
     (let (pi, s) = disable_int s;
          s = on_queues (list_remove (TProc p)) s;
          s = on_queues (list_remove (THead p)) s;
          s = on_queues (list_remove (TSiblings p)) s;
          s = on_queues (list_remove (TChildren p)) s;
          s = enable_int pi s
      in
      res_bind
        (if \<not> ring0 (threads s p) then
           res_bind (free_areas (th_mem (threads s p)) s) (\<lambda>s.
           res_bind (free_tables (VA (th_page_dir (threads s p))) [0..<PD_SIZE] s) (\<lambda>s.
           res_bind (pages_do (kfree_page (md_page_directory (mems s (th_mem (threads s p))))) s) (\<lambda>s.
             heap_do (kfree (th_mem (threads s p))) s)))
         else Inr s) (\<lambda>s.
      res_bind (pages_do (kfree_page (user_stack_bot (threads s p))) s) (\<lambda>s.
      res_bind (pages_do (kfree_page (kernel_stack_bot (threads s p))) s) (\<lambda>s.
      res_bind (heap_do (kfree (command (threads s p))) s) (\<lambda>s. heap_do (kfree p) s)))))"

text \<open>The thread is taken off its queue once more after \<^verbatim>\<open>reap\<close> has freed it.\<close>

definition exterminate_body :: "knode \<Rightarrow> kernel \<Rightarrow> (kernel \<times> bool) result" where
  "exterminate_body l s =
     (case l of
        THead do_me \<Rightarrow>
          if th_state (threads s do_me) \<noteq> TASK_ZOMBIE then Inr (s, False)
          else res_bind (reap do_me s) (\<lambda>s.
            let (pi, s) = disable_int s;
                s = on_queues (list_remove (THead do_me)) s
            in Inr (enable_int pi s, False))
      | _ \<Rightarrow> Inl BadPointer)"

definition exterminate :: "kernel \<Rightarrow> kernel result" where
  "exterminate s = each_safe (\<lambda>s. s) exterminate_body StoppedQueue s"

text \<open>The sweep of \<^verbatim>\<open>kswap\<close> over the free slabs that are not pinned.\<close>

definition sweep_body :: "snode \<Rightarrow> kheap result \<Rightarrow> kheap result \<times> bool" where
  "sweep_body l r =
     (case r of Inl e \<Rightarrow> (Inl e, True) | Inr s \<Rightarrow>
     (case l of
        SlabHead a \<Rightarrow>
          if s_pinned (slabs s a) then (Inr s, False)
          else
            let s = on_cache (list_remove (SlabHead a)) s
            in (case kfree_page a (pages s) of
                  Inl e \<Rightarrow> (Inl e, True) | Inr p \<Rightarrow> (Inr (s\<lparr>pages := p\<rparr>), False))
      | _ \<Rightarrow> (Inl BadPointer, True)))"

definition kswap_sweep :: "kheap \<Rightarrow> kheap result" where
  "kswap_sweep s =
     res_bind (returns (list_for_each_safe
         (\<lambda>r. case r of Inr s \<Rightarrow> nxt (cache s) | Inl _ \<Rightarrow> (\<lambda>n. n)) sweep_body CacheFree (Inr s))) (\<lambda>r. r)"

end
