(* ===== verification/Shell.thy ===== *)
theory Shell
  imports Screen Work
begin

text \<open>
  The line editors of the programs in \<^verbatim>\<open>bin/\<close>: one round of the loops of \<^verbatim>\<open>shell\<close> and \<^verbatim>\<open>login\<close>, for a
  character that has been read, and the letter that \<^verbatim>\<open>top\<close> shows for a thread's state. The effect of a
  complete line is the parameter \<open>run\<close>; the theory Commands has \<^verbatim>\<open>user_input\<close> for it.
\<close>

section \<open>The shell\<close>

record editor =
  my_buf :: "u8 list"
  prev_read :: u8

definition PAGE_BYTES :: nat where "PAGE_BYTES = 4096"

definition empty_page :: "u8 list" where "empty_page = replicate PAGE_BYTES 0"

text \<open>\<^verbatim>\<open>print_prompt\<close>: the name of the thread's owner and of the host.\<close>

definition print_prompt :: "'d hardware \<Rightarrow> u8 list \<Rightarrow> 'd screen \<Rightarrow> 'd screen result" where
  "print_prompt h hostname s =
     (let s = setBackgroundColor 0 (setTextColor 0xA s);
          k = kern s;
          name = username (users k (owner (threads k (current_thread k)))) in
      res_bind (kprintf h (cstr ([CHR 0x0A] @ ''%s@%s # ''))
          [Text (Some (butlast name)), Text (Some hostname)] s) (\<lambda>s. Inr (resetScreenColors s)))"

text \<open>One round of the loop of \<^verbatim>\<open>shell\<close>.\<close>

definition shell_key ::
  "'d hardware \<Rightarrow> u8 list \<Rightarrow> (u8 list \<Rightarrow> 'd screen \<Rightarrow> 'd screen result) \<Rightarrow> u8 \<Rightarrow> editor \<times> 'd screen \<Rightarrow>
   (editor \<times> 'd screen) result" where
  "shell_key h hostname run read = (\<lambda>(e, s).
     if read = 108 \<and> prev_read e = CTRL then
       res_bind (clearScreen h s) (\<lambda>s.
       res_bind (print_prompt h hostname s) (\<lambda>s. Inr (e\<lparr>prev_read := read\<rparr>, s)))
     else
       let e = e\<lparr>prev_read := read\<rparr> in
       if read = 10 then
         res_bind (run (my_buf e) s) (\<lambda>s.
         res_bind (print_prompt h hostname s) (\<lambda>s. Inr (e\<lparr>my_buf := empty_page\<rparr>, s)))
       else if read = BACKSPACE then
         res_bind (strlen (my_buf e)) (\<lambda>n.
           if n > 0 then
             res_bind (backspace (my_buf e)) (\<lambda>b.
             res_bind (deleteLastChar h s) (\<lambda>(_, s). Inr (e\<lparr>my_buf := b\<rparr>, s)))
           else Inr (e, s))
       else if read = CTRL then Inr (e, s)
       else
         res_bind (append (my_buf e) read) (\<lambda>b.
         res_bind (kprintf h (cstr ''%c'') [Word (scast read)] s) (\<lambda>s. Inr (e\<lparr>my_buf := b\<rparr>, s))))"

text \<open>\<^verbatim>\<open>memcopy\<close> between two arrays.\<close>

definition copy_array :: "nat \<Rightarrow> u8 list \<Rightarrow> u8 list \<Rightarrow> u8 list result" where
  "copy_array n src dst =
     (if n \<le> length src \<and> n \<le> length dst then Inr (take n src @ drop n dst) else Inl OutOfBounds)"

section \<open>The login\<close>

text \<open>While the login has children every character goes to their input.\<close>

definition feed_child :: "u8 \<Rightarrow> knode \<Rightarrow> nat \<times> u8 \<times> kernel \<Rightarrow> ((nat \<times> u8 \<times> kernel) \<times> bool) result" where
  "feed_child read l = (\<lambda>(child_num, prev, k).
     (case l of
        TSiblings c \<Rightarrow>
          let child_fd = fst (std_files (threads k c)) in
          res_bind (write_byte_stream child_fd read k) (\<lambda>(_, k).
            Inr ((child_num + 1, if read = CTRL then read else prev, k), read = CTRL))
      | _ \<Rightarrow> Inl BadPointer))"

text \<open>\<open>start_shell\<close> is the address of the function \<^verbatim>\<open>shell\<close>.\<close>

definition open_shell :: "u32 \<Rightarrow> kernel \<Rightarrow> kernel result" where
  "open_shell start_shell k =
     res_bind (create_kernel_thread start_shell (cstr ''shell'') k) (\<lambda>(p, k).
       let k = upd_thread p (\<lambda>x. x\<lparr>nice := 0\<rparr>) k in
     res_bind (create_char_device (cstr ''shell_in'') 5 k) (\<lambda>(f, k).
       Inr (wake_up_thread p (upd_thread p (\<lambda>x. x\<lparr>std_files := (f, snd (std_files x))\<rparr>) k))))"

definition login_key ::
  "'d hardware \<Rightarrow> u32 \<Rightarrow> u8 \<Rightarrow> editor \<times> 'd screen \<Rightarrow> (editor \<times> 'd screen) result" where
  "login_key h start_shell read = (\<lambda>(e, s).
     let k = kern s in
     res_bind (each (\<lambda>(_, _, k). k) (feed_child read) (TChildren (current_thread k)) (0, prev_read e, k))
       (\<lambda>(child_num, prev, k).
     let s = s\<lparr>kern := k\<rparr>; e = e\<lparr>prev_read := prev\<rparr> in
     res_bind (if read = 110 \<and> prev_read e = CTRL
               then kprintf h (cstr (''Special code received'' @ [CHR 0x0A])) [] s else Inr s) (\<lambda>s.
       if child_num > 0 then Inr (e\<lparr>prev_read := read\<rparr>, s)
       else if read = 10 then
         res_bind (strcmp (my_buf e) (cstr ''root'')) (\<lambda>d.
         res_bind
           (if d = 0 then
              res_bind (kprintf h (cstr ([CHR 0x0A, CHR 0x0A] @ ''Welcome root!'' @ [CHR 0x0A])) [] s) (\<lambda>s.
              res_bind (open_shell start_shell (kern s)) (\<lambda>k. Inr (s\<lparr>kern := k\<rparr>)))
            else
              res_bind (kprintf h (cstr ([CHR 0x0A] @ ''Invalid login!'')) [] s)
                (kprintf h (cstr ([CHR 0x0A] @ ''login root: '')) [])) (\<lambda>s.
         Inr (e\<lparr>my_buf := empty_page, prev_read := read\<rparr>, s)))
       else if read = BACKSPACE then
         res_bind (strlen (my_buf e)) (\<lambda>n.
           if n > 0 then
             res_bind (backspace (my_buf e)) (\<lambda>b.
             res_bind (deleteLastChar h s) (\<lambda>(_, s). Inr (e\<lparr>my_buf := b, prev_read := read\<rparr>, s)))
           else Inr (e\<lparr>prev_read := read\<rparr>, s))
       else if read = CTRL then Inr (e, s)
       else
         res_bind (append (my_buf e) read) (\<lambda>b.
         res_bind (kprintf h (cstr ''*'') [] s) (\<lambda>s. Inr (e\<lparr>my_buf := b, prev_read := read\<rparr>, s))))))"

section \<open>The letters of \<^verbatim>\<open>top\<close>\<close>

definition TASK_UNINTERRUPTIBLE :: u32 where "TASK_UNINTERRUPTIBLE = 1"

definition get_thread_state :: "u32 \<Rightarrow> kernel \<Rightarrow> char" where
  "get_thread_state t k =
     (let st = th_state (threads k t)
      in if st = TASK_RUNNABLE then CHR ''R''
         else if st = TASK_STOPPED then CHR ''S''
         else if st = TASK_UNINTERRUPTIBLE \<or> st = TASK_INTERRUPTIBLE then CHR ''Z''
         else if st = TASK_ZOMBIE then CHR ''X''
         else CHR ''?'')"

end
