(* ===== verification/Cpu.thy ===== *)
theory Cpu
  imports Ports
begin

text \<open>
  The descriptor tables of the processor: \<^verbatim>\<open>cpu/gdt.c\<close> (segments and the task state segment),
  \<^verbatim>\<open>cpu/idt.c\<close> and the part of \<^verbatim>\<open>cpu/isr.c\<close> that fills the interrupt table and dispatches
  interrupts. The addresses of the handlers written in assembly are parameters.
\<close>

section \<open>Segments\<close>

record gdt_entry =
  limit_low :: u16
  base_low :: u16
  base_middle :: u8
  access :: u8
  granularity :: u8
  base_high :: u8

record gdtr =
  gdtr_limit :: u16
  gdtr_base :: u32

definition GDT_ENTRIES_NUMBER :: nat where "GDT_ENTRIES_NUMBER = 6"

definition gdt_set_gate ::
  "nat \<Rightarrow> u32 \<Rightarrow> u32 \<Rightarrow> u8 \<Rightarrow> u8 \<Rightarrow> gdt_entry list \<Rightarrow> gdt_entry list result" where
  "gdt_set_gate num base limit acc gran gdt =
     res_bind (arr_get gdt num) (\<lambda>e.
       let e = e\<lparr>base_low := ucast (base AND 0xFFFF)\<rparr>;
           e = e\<lparr>base_middle := ucast (drop_bit 16 base AND 0xFF)\<rparr>;
           e = e\<lparr>base_high := ucast (drop_bit 24 base AND 0xFF)\<rparr>;
           e = e\<lparr>limit_low := ucast (limit AND 0xFFFF)\<rparr>;
           e = e\<lparr>granularity := ucast (drop_bit 16 limit AND 0x0F)\<rparr>;
           e = e\<lparr>granularity := granularity e OR (gran AND 0xF0)\<rparr>;
           e = e\<lparr>access := acc\<rparr>
       in arr_set gdt num e)"

record cpu =
  gdt :: "gdt_entry list"
  gp :: gdtr
  tss_ss0 :: u32
  tss_esp0 :: u32

text \<open>\<open>gdt_addr\<close> and \<open>tss_addr\<close> are where the tables lie; \<^verbatim>\<open>sizeof(tss_entry_t)\<close> is 104.\<close>

definition gdt_install :: "u32 \<Rightarrow> u32 \<Rightarrow> u32 \<Rightarrow> cpu \<Rightarrow> cpu result" where
  "gdt_install gdt_addr tss_addr stack_pointer c =
     (let c = c\<lparr>gp := \<lparr>gdtr_limit = word_of_nat (8 * GDT_ENTRIES_NUMBER - 1), gdtr_base = gdt_addr\<rparr>\<rparr> in
      res_bind (gdt_set_gate 0 0 0 0 0 (gdt c)) (\<lambda>g.
      res_bind (gdt_set_gate 1 0 0xFFFFFFFF 0x9A 0xCF g) (\<lambda>g.
      res_bind (gdt_set_gate 2 0 0xFFFFFFFF 0x92 0xCF g) (\<lambda>g.
      res_bind (gdt_set_gate 3 0 0xFFFFFFFF 0xFA 0xCF g) (\<lambda>g.
      res_bind (gdt_set_gate 4 0 0xFFFFFFFF 0xF2 0xCF g) (\<lambda>g.
      let c = c\<lparr>tss_ss0 := 0x10, tss_esp0 := stack_pointer\<rparr> in
      res_bind (gdt_set_gate 5 tss_addr 104 0x89 0 g) (\<lambda>g. Inr (c\<lparr>gdt := g\<rparr>))))))))"

section \<open>Interrupts\<close>

record idt_gate =
  low_offset :: u16
  gate_sel :: u16
  always0 :: u8
  gate_flags :: u8
  high_offset :: u16

definition IDT_ENTRIES :: nat where "IDT_ENTRIES = 256"

definition set_idt_gate :: "nat \<Rightarrow> u32 \<Rightarrow> idt_gate list \<Rightarrow> idt_gate list result" where
  "set_idt_gate n handler idt =
     arr_set idt n \<lparr>low_offset = low_16 handler, gate_sel = 8, always0 = 0, gate_flags = 0x8E,
       high_offset = high_16 handler\<rparr>"

fun set_gates :: "(nat \<times> u32) list \<Rightarrow> idt_gate list \<Rightarrow> idt_gate list result" where
  "set_gates [] idt = Inr idt"
| "set_gates ((n, a) # gs) idt = res_bind (set_idt_gate n a idt) (set_gates gs)"

text \<open>\<open>isr\<close> and \<open>irq\<close> give the addresses of the 32 and 16 entry points; the controllers are
  remapped in between (\<open>remap_pic\<close>).\<close>

definition isr_install :: "(nat \<Rightarrow> u32) \<Rightarrow> (nat \<Rightarrow> u32) \<Rightarrow> idt_gate list \<Rightarrow> idt_gate list result" where
  "isr_install isr irq idt =
     res_bind (set_gates (map (\<lambda>i. (i, isr i)) [0..<32]) idt)
       (set_gates (map (\<lambda>i. (32 + i, irq i)) [0..<16]))"

definition register_interrupt_handler :: "u8 \<Rightarrow> u32 \<Rightarrow> (nat \<Rightarrow> u32) \<Rightarrow> nat \<Rightarrow> u32" where
  "register_interrupt_handler n handler handlers = handlers(unat n := handler)"

definition IRQ8 :: u32 where "IRQ8 = 40"

text \<open>The handler registered for the interrupt (0 is none) runs before the controllers are told; it
  is a parameter. The array has 256 entries.\<close>

definition irq_handler ::
  "'d hardware \<Rightarrow> (nat \<Rightarrow> u32) \<Rightarrow> (u32 \<Rightarrow> 'd \<Rightarrow> 'd result) \<Rightarrow> u32 \<Rightarrow> 'd \<Rightarrow> 'd result" where
  "irq_handler h handlers run int_no d =
     (if unat int_no \<ge> 256 then Inl OutOfBounds
      else
        res_bind (if handlers (unat int_no) \<noteq> 0 then run (handlers (unat int_no)) d else Inr d) (\<lambda>d.
          let d = (if int_no \<ge> IRQ8 then outb h 0xA0 0x20 d else d)
          in Inr (outb h 0x20 0x20 d)))"

text \<open>The dispatch of the processor's exceptions.\<close>

datatype exception_action = PageFault | SystemCall | ProtectionFault | Ignored

definition isr_handler :: "u32 \<Rightarrow> u32 \<Rightarrow> exception_action" where
  "isr_handler int_no err_code =
     (if int_no = 14 then PageFault
      else if int_no = 13 then (if err_code = 250 then SystemCall else ProtectionFault)
      else Ignored)"

end
