(* ===== verification/Cmos.thy ===== *)
theory Cmos
  imports Ports
begin

text \<open>
  \<^verbatim>\<open>drivers/cmos.c\<close>: reading the date from the clock chip, until two readings in a row agree, and
  its conversion from the formats the chip may use. The second half is about a chip at rest.
\<close>

section \<open>The driver\<close>

record rtc =
  rtc_second :: u8
  rtc_minute :: u8
  rtc_hour :: u8
  rtc_day :: u8
  rtc_month :: u8
  rtc_year :: u32

definition CURRENT_YEAR :: u32 where "CURRENT_YEAR = 2021"
definition TIME_ZONE_DIFF :: u8 where "TIME_ZONE_DIFF = 2"
definition cmos_address :: u16 where "cmos_address = 0x70"
definition cmos_data :: u16 where "cmos_data = 0x71"

definition get_update_in_progress_flag :: "'d hardware \<Rightarrow> 'd \<Rightarrow> u8 \<times> 'd" where
  "get_update_in_progress_flag h d =
     (let d = outb h cmos_address 0x0A d;
          (v, d) = inb h cmos_data d
      in (v AND 0x80, d))"

definition get_RTC_register :: "'d hardware \<Rightarrow> u8 \<Rightarrow> 'd \<Rightarrow> u8 \<times> 'd" where
  "get_RTC_register h reg d = inb h cmos_data (outb h cmos_address reg d)"

partial_function (option) wait_for_update :: "'d hardware \<Rightarrow> 'd \<Rightarrow> 'd option" where
  "wait_for_update h d =
     (let (flag, d) = get_update_in_progress_flag h d
      in if flag \<noteq> 0 then wait_for_update h d else Some d)"

text \<open>The global \<^verbatim>\<open>century_register\<close> is 0 and nothing sets it: the branches for it are dead.\<close>

definition read_registers :: "'d hardware \<Rightarrow> 'd \<Rightarrow> rtc \<times> 'd" where
  "read_registers h d =
     (let (s, d) = get_RTC_register h 0x00 d;
          (m, d) = get_RTC_register h 0x02 d;
          (hr, d) = get_RTC_register h 0x04 d;
          (dy, d) = get_RTC_register h 0x07 d;
          (mo, d) = get_RTC_register h 0x08 d;
          (y, d) = get_RTC_register h 0x09 d
      in (\<lparr>rtc_second = s, rtc_minute = m, rtc_hour = hr, rtc_day = dy, rtc_month = mo,
           rtc_year = ucast y\<rparr>, d))"

text \<open>The last year is kept in an unsigned char.\<close>

partial_function (option) read_until_stable :: "'d hardware \<Rightarrow> rtc \<Rightarrow> 'd \<Rightarrow> (rtc \<times> 'd) option" where
  "read_until_stable h prev d =
     (case wait_for_update h d of
        None \<Rightarrow> None
      | Some d \<Rightarrow>
          (let (r, d) = read_registers h d
           in if r = prev\<lparr>rtc_year := ucast (ucast (rtc_year prev) :: u8)\<rparr> then Some (r, d)
              else read_until_stable h r d))"

definition from_bcd :: "u8 \<Rightarrow> u8" where
  "from_bcd x = (x AND 0x0F) + (x div 16) * 10"

definition bcd_hour :: "u8 \<Rightarrow> u8" where
  "bcd_hour h = ((h AND 0x0F) + ((h AND 0x70) div 16) * 10) OR (h AND 0x80)"

definition convert :: "u8 \<Rightarrow> rtc \<Rightarrow> rtc" where
  "convert registerB r =
     (let r = (if registerB AND 0x04 = 0 then
                 r\<lparr>rtc_second := from_bcd (rtc_second r),
                   rtc_minute := from_bcd (rtc_minute r),
                   rtc_hour := bcd_hour (rtc_hour r),
                   rtc_day := from_bcd (rtc_day r),
                   rtc_month := from_bcd (rtc_month r),
                   rtc_year := (rtc_year r AND 0x0F) + (rtc_year r div 16) * 10\<rparr>
               else r);
          r = (if registerB AND 0x02 = 0 \<and> rtc_hour r AND 0x80 \<noteq> 0
               then r\<lparr>rtc_hour := ((rtc_hour r AND 0x7F) + 12) mod 24\<rparr> else r);
          r = r\<lparr>rtc_year := rtc_year r + (CURRENT_YEAR div 100) * 100\<rparr>;
          r = (if rtc_year r < CURRENT_YEAR then r\<lparr>rtc_year := rtc_year r + 100\<rparr> else r)
      in r\<lparr>rtc_hour := rtc_hour r + TIME_ZONE_DIFF\<rparr>)"

definition read_rtc :: "'d hardware \<Rightarrow> 'd \<Rightarrow> (rtc \<times> 'd) option" where
  "read_rtc h d =
     (case wait_for_update h d of
        None \<Rightarrow> None
      | Some d \<Rightarrow>
          (let (r, d) = read_registers h d
           in case read_until_stable h r d of
                None \<Rightarrow> None
              | Some (r, d) \<Rightarrow>
                  (let (registerB, d) = get_RTC_register h 0x0B d
                   in Some (convert registerB r, d))))"

section \<open>A chip at rest\<close>

text \<open>The chip as its data sheet has it: the address port selects a register, the data port reads
  it; \<open>regs\<close> does not change while it is read and no update is in progress.\<close>

record chip =
  selected :: u8
  regs :: "u8 \<Rightarrow> u8"

definition chip_hardware :: "chip hardware" where
  "chip_hardware =
     \<lparr>hw_in8 = \<lambda>port d. (if port = cmos_data then regs d (selected d) else 0, d),
      hw_out8 = \<lambda>port v d. if port = cmos_address then d\<lparr>selected := v\<rparr> else d,
      hw_in16 = \<lambda>port d. (0, d), hw_out16 = \<lambda>port v d. d,
      hw_in32 = \<lambda>port d. (0, d), hw_out32 = \<lambda>port v d. d\<rparr>"

lemma chip_register: "get_RTC_register chip_hardware reg d = (regs d reg, d\<lparr>selected := reg\<rparr>)"
  by (simp add: get_RTC_register_def chip_hardware_def port_ops cmos_address_def cmos_data_def)

lemma chip_wait:
  "regs d 0x0A AND 0x80 = 0 \<Longrightarrow> wait_for_update chip_hardware d = Some (d\<lparr>selected := 0x0A\<rparr>)"
  by (subst wait_for_update.simps)
    (simp add: get_update_in_progress_flag_def chip_hardware_def port_ops cmos_address_def cmos_data_def)

definition rtc_of :: "(u8 \<Rightarrow> u8) \<Rightarrow> rtc" where
  "rtc_of r = \<lparr>rtc_second = r 0, rtc_minute = r 2, rtc_hour = r 4, rtc_day = r 7, rtc_month = r 8,
     rtc_year = ucast (r 9)\<rparr>"

lemma chip_registers: "read_registers chip_hardware d = (rtc_of (regs d), d\<lparr>selected := 9\<rparr>)"
  by (simp add: read_registers_def chip_register rtc_of_def)

lemma chip_read_rtc:
  assumes "regs d 0x0A AND 0x80 = 0"
  shows "\<exists>d'. read_rtc chip_hardware d = Some (convert (regs d 0x0B) (rtc_of (regs d)), d') \<and> regs d' = regs d"
proof -
  have y: "(ucast (ucast (rtc_year (rtc_of (regs d))) :: u8) :: u32) = rtc_year (rtc_of (regs d))"
    by (simp add: rtc_of_def ucast_down_ucast_id is_down)
  have "read_until_stable chip_hardware (rtc_of (regs d)) (d\<lparr>selected := 9\<rparr>) =
      Some (rtc_of (regs d), d\<lparr>selected := 9\<rparr>)"
    using assms y by (subst read_until_stable.simps) (simp add: chip_wait chip_registers)
  then show ?thesis
    using assms by (simp add: read_rtc_def chip_wait chip_registers chip_register)
qed

text \<open>Packed decimal: the tens in the high nibble.\<close>

definition to_bcd :: "nat \<Rightarrow> u8" where
  "to_bcd n = word_of_nat (16 * (n div 10) + n mod 10)"


text \<open>The hours of a 12-hour clock: 12, 1, ..., 11, and a bit for the afternoon.\<close>

definition hour_12 :: "nat \<Rightarrow> u8" where
  "hour_12 t = to_bcd (if t mod 12 = 0 then 12 else t mod 12) OR (if t < 12 then 0 else 0x80)"




lemma bcd_hour12_table:
  "list_all (\<lambda>n. (let x = bcd_hour (hour_12 n) in
     (if x AND 0x80 \<noteq> 0 then ((x AND 0x7F) + 12) mod 24 else x) + 2 =
     word_of_nat (if n = 0 then 14 else if n = 12 then 2 else n + 2))) [0..<24]"
  by code_simp




lemma convert_fields:
  "rtc_second (convert b r) = (if b AND 4 = 0 then from_bcd (rtc_second r) else rtc_second r)"
  "rtc_minute (convert b r) = (if b AND 4 = 0 then from_bcd (rtc_minute r) else rtc_minute r)"
  "rtc_day (convert b r) = (if b AND 4 = 0 then from_bcd (rtc_day r) else rtc_day r)"
  "rtc_month (convert b r) = (if b AND 4 = 0 then from_bcd (rtc_month r) else rtc_month r)"
  "rtc_hour (convert b r) = (let x = (if b AND 4 = 0 then bcd_hour (rtc_hour r) else rtc_hour r) in
     (if b AND 2 = 0 \<and> x AND 0x80 \<noteq> 0 then ((x AND 0x7F) + 12) mod 24 else x) + 2)"
  "rtc_year (convert b r) = (let y = (if b AND 4 = 0 then (rtc_year r AND 0x0F) + (rtc_year r div 16) * 10
       else rtc_year r) + (CURRENT_YEAR div 100) * 100 in if y < CURRENT_YEAR then y + 100 else y)"
  by (auto simp: convert_def Let_def TIME_ZONE_DIFF_def)



text \<open>
  C36: with a clock that counts 12 hours in packed decimal, every hour is converted but 12: at
  midnight \<^verbatim>\<open>read_rtc\<close> reads noon, and at noon midnight.
\<close>

theorem read_rtc_12_hours:
  assumes "regs d 0x0A AND 0x80 = 0" "regs d 0x0B = 0" "regs d 4 = hour_12 t" "t < 24"
  shows "\<exists>r d'. read_rtc chip_hardware d = Some (r, d') \<and>
     rtc_hour r = word_of_nat (if t = 0 then 14 else if t = 12 then 2 else t + 2)"
  using chip_read_rtc[OF assms(1)] assms(2-) bcd_hour12_table
  by (auto simp: convert_fields rtc_of_def Let_def list_all_iff)

theorem read_rtc_12_hours_witness:
  "\<exists>r d'. read_rtc chip_hardware \<lparr>selected = 0, regs = (\<lambda>_. 0)(4 := 0x92)\<rparr> = Some (r, d') \<and> rtc_hour r = 2"
  using read_rtc_12_hours[of "\<lparr>selected = 0, regs = (\<lambda>_. 0)(4 := 0x92)\<rparr>" 12]
  by (simp add: hour_12_def to_bcd_def)

end
