(* ===== verification/Report.thy ===== *)
theory Report
  imports Shell Cpu Cmos Net
begin

text \<open>
  What the kernel prints: the reports of \<^verbatim>\<open>lib/utils.c\<close>, \<^verbatim>\<open>mem/mem.c\<close>, \<^verbatim>\<open>mem/buddy.c\<close>, \<^verbatim>\<open>kernel/elf.c\<close>,
  \<^verbatim>\<open>net/net.c\<close>, \<^verbatim>\<open>drivers/cmos.c\<close> and \<^verbatim>\<open>drivers/rtl8139.c\<close>, and the process lists of \<^verbatim>\<open>bin/top.c\<close>.
\<close>

section \<open>Sequences of calls\<close>

fun calls :: "('s \<Rightarrow> 's result) list \<Rightarrow> 's \<Rightarrow> 's result" where
  "calls [] s = Inr s"
| "calls (f # fs) s = res_bind (f s) (calls fs)"

text \<open>A call that cannot fail.\<close>

definition quiet :: "('s \<Rightarrow> 's) \<Rightarrow> 's \<Rightarrow> 's result" where
  "quiet f s = Inr (f s)"

definition say :: "'d hardware \<Rightarrow> string \<Rightarrow> arg list \<Rightarrow> 'd screen \<Rightarrow> 'd screen result" where
  "say h fmt args = kprintf h (cstr fmt) args"

text \<open>The text of a terminated array, and the text at an address (\<^verbatim>\<open>Diverges\<close> when no byte is 0).\<close>

definition text_of :: "u8 list \<Rightarrow> u8 list" where
  "text_of = takeWhile (\<lambda>c. c \<noteq> 0)"

partial_function (option) text_at :: "bytes \<Rightarrow> u32 \<Rightarrow> u8 list option" where
  "text_at m a =
     (if m a = 0 then Some []
      else Option.bind (text_at m (a + 1)) (\<lambda>t. Some (m a # t)))"

section \<open>Colours\<close>

definition BLACK :: u8 where "BLACK = 0x0"
definition BLUE :: u8 where "BLUE = 0x1"
definition GREEN :: u8 where "GREEN = 0x2"
definition CYAN :: u8 where "CYAN = 0x3"
definition RED :: u8 where "RED = 0x4"
definition PURPLE :: u8 where "PURPLE = 0x5"
definition GRAY :: u8 where "GRAY = 0x7"
definition LIGHTGREEN :: u8 where "LIGHTGREEN = 0xA"
definition YELLOW :: u8 where "YELLOW = 0xE"
definition WHITE :: u8 where "WHITE = 0xF"

definition colours :: "u8 \<Rightarrow> u8 \<Rightarrow> 'd screen \<Rightarrow> 'd screen result" where
  "colours fg bg = quiet (\<lambda>s. setBackgroundColor bg (setTextColor fg s))"

section \<open>The start screen and the help\<close>

definition screen_row :: "string \<Rightarrow> string" where
  "screen_row t = ''##'' @ t @ replicate (76 - length t) CHR 0x20 @ ''##''"

definition init_screen_text :: string where
  "init_screen_text =
     replicate 80 CHR 0x23 @ concat (replicate 4 (screen_row [])) @
     screen_row (replicate 32 CHR 0x20 @ ''GianniOS'') @ concat (replicate 5 (screen_row [])) @
     screen_row (replicate 31 CHR 0x20 @ ''Written by:'') @
     screen_row (replicate 34 CHR 0x20 @ ''Lagor'') @ concat (replicate 4 (screen_row [])) @
     screen_row (replicate 18 CHR 0x20 @ ''Type help for a list of available commands'') @
     concat (replicate 5 (screen_row [])) @ replicate 80 CHR 0x23"

definition printInitScreen :: "'d hardware \<Rightarrow> 'd screen \<Rightarrow> 'd screen result" where
  "printInitScreen h = calls [colours WHITE BLUE, say h init_screen_text [], quiet resetScreenColors]"

text \<open>The lines of the help are 79 characters wide; the last one is not ended.\<close>

definition help_line :: "string \<Rightarrow> string" where
  "help_line t = t @ replicate (79 - length t) CHR 0x20"

definition printHelp :: "'d hardware \<Rightarrow> 'd screen \<Rightarrow> 'd screen result" where
  "printHelp h = calls
     ([colours WHITE GREEN] @
      map (\<lambda>t. say h (help_line t @ ''\<newline>'') [])
       [''clear     -> Clears the screen'',
        ''init      -> Re-prints the initial screen'',
        ''gdt       -> Prints the Global Descriptor Table structure'',
        ''uptime    -> Prints current uptime of the machine'',
        ''mods      -> Prints basic info about GRUB2 Modules'',
        ''meminfo   -> Shows current kernel memory infos'',
        ''mmap      -> Shows available memory block map'',
        ''bootinfo  -> Shows multiboot2 info returned by GRUB2'',
        ''alloc     -> Allocates a chuck of kernel memory (4KB Aligned)'',
        ''shutdown  -> Shuts-down the PC''] @
      [say h (help_line ''reboot    -> Re-boots the PC'') [], quiet resetScreenColors])"

section \<open>Memory, time, modules\<close>

text \<open>The addresses of the linker's symbols and the stack pointer are arguments.\<close>

definition STACK_SIZE :: u32 where "STACK_SIZE = 0x1000"

definition printKernelMemInfo :: "'d hardware \<Rightarrow> u32 \<Rightarrow> u32 \<Rightarrow> u32 \<Rightarrow> u32 \<Rightarrow> 'd screen \<Rightarrow> 'd screen result" where
  "printKernelMemInfo h kimage_start kimage_end kentry_point stack_pointer s =
     (let free = free_mem_addr (pages (kheap (paging (kern s)))) in
      calls
       [colours YELLOW BLUE,
        say h ''Kernel Memory Info:\<newline>'' [],
        say h '' Start address:         0x%x\<newline>'' [Word kimage_start],
        say h '' End address:           0x%x\<newline>'' [Word kimage_end],
        say h '' Size:                  %d KB\<newline>'' [Word ((kimage_end - kimage_start) div 1024)],
        say h '' Entry point:           0x%x\<newline>'' [Word kentry_point],
        say h '' Stack pointer:         0x%x\<newline>'' [Word stack_pointer],
        say h '' Kernel extra memory:   %d KB\<newline>'' [Word ((free - kimage_end) div 1024)],
        say h '' Kernel total memory:   %d KB\<newline>'' [Word ((free - kimage_start) div 1024)],
        say h '' Free memory start:     0x%x\<newline>'' [Word free],
        say h '' Stack size:            %d KB'' [Word (STACK_SIZE div 1024)],
        quiet resetScreenColors] s)"

definition printModuleInfo :: "'d hardware \<Rightarrow> multiboot_tag_module \<Rightarrow> 'd screen \<Rightarrow> 'd screen result" where
  "printModuleInfo h m = calls
     [say h ''Module start:     0x%x\<newline>'' [Word (mod_start m)],
      say h ''Module end  :     0x%x\<newline>'' [Word (mod_end m)],
      say h ''Module size :     %d\<newline>'' [Word (mod_end m - mod_start m)]]"

definition printUptime :: "'d hardware \<Rightarrow> 'd screen \<Rightarrow> 'd screen result" where
  "printUptime h s = say h ''Uptime %d s\<newline>'' [Word (get_uptime (kern s) div 1000)] s"

text \<open>The fields of \<^verbatim>\<open>stdDate_t\<close> have 6, 6, 5 and 15 bits: what is stored is cut to the field before it is
  compared with 60 or 24. The minutes, hours and days are quotients of doubles; beyond the field
  their conversion is undefined in C and taken modulo the field here.\<close>

record stdDate =
  seconds :: nat
  minutes :: nat
  hours :: nat
  days :: nat

definition getStandardDate :: "'d hardware \<Rightarrow> u32 \<Rightarrow> 'd screen \<Rightarrow> (stdDate \<times> 'd screen) result" where
  "getStandardDate h millis s =
     (let n = unat millis;
          sec = n div 1000 mod 64;
          mins = n div 60000 mod 64;
          hrs = n div 3600000 mod 32;
          dys = n div 86400000 mod 32768 in
      res_bind (calls [say h ''1\<newline>'' [], say h ''2\<newline>'' [], say h ''3\<newline>'' []] s) (\<lambda>s.
        Inr (\<lparr>seconds = (if sec \<ge> 60 then sec mod 60 else sec),
              minutes = (if mins \<ge> 60 then mins mod 60 else mins),
              hours = (if hrs \<ge> 24 then hrs mod 24 else hrs), days = dys\<rparr>, s)))"

definition print_date :: "'d hardware \<Rightarrow> rtc \<Rightarrow> 'd screen \<Rightarrow> 'd screen result" where
  "print_date h r = say h ''%d/%d/%d - %d:%d:%d\<newline>''
     [Word (ucast (rtc_day r)), Word (ucast (rtc_month r)), Word (rtc_year r), Word (ucast (rtc_hour r)),
      Word (ucast (rtc_minute r)), Word (ucast (rtc_second r))]"

text \<open>Nothing sets \<^verbatim>\<open>total_nused_memory\<close> and \<^verbatim>\<open>allocs_done\<close>.\<close>

definition total_nused_memory :: u32 where "total_nused_memory = 0"
definition allocs_done :: u32 where "allocs_done = 0"

definition mega :: "u32 \<Rightarrow> arg" where "mega x = Word (x div 1024 div 1024)"

definition printFree :: "'d hardware \<Rightarrow> BootMmap \<Rightarrow> 'd screen \<Rightarrow> 'd screen result" where
  "printFree h boot_mmap s =
     (let k = pages (kheap (paging (kern s))) in
      calls
       [say h ''Used: %d / %d Mb\<newline>\<newline>'' [mega (total_used_memory k), mega (BootMmap.total_pages boot_mmap * 4096)],
        say h ''Kernel Mem used: %d/%d\<newline>'' [mega (total_kused_memory k), mega (total_kernel_pages k * 4096)],
        say h ''Normal Mem used: %d/%d\<newline>'' [mega total_nused_memory, mega (total_normal_pages k * 4096)],
        say h ''Fast Mem used: %d/%d\<newline>'' [mega (total_fused_memory k), mega (total_fast_pages k * 4096)]] s)"

definition print_mem_area :: "'d hardware \<Rightarrow> vnode \<Rightarrow> 'd screen result \<Rightarrow> 'd screen result \<times> bool" where
  "print_mem_area h l r =
     (case r of Inl e \<Rightarrow> (Inl e, True) | Inr s \<Rightarrow>
     (case l of
        VmArea a \<Rightarrow>
          let v = vmas (paging (kern s)) a in
          (say h ''S: 0x%x, E: 0x%x, S: 0x%x, PS: 0x%x F: 0x%d\<newline>''
             [Word (v_start v), Word (v_end v), Word (v_size v), Word (v_phys_start v), Word (v_flags v)] s, False)
      | VmAreas _ \<Rightarrow> (Inl BadPointer, True)))"

definition print_mem_desc :: "'d hardware \<Rightarrow> u32 \<Rightarrow> 'd screen \<Rightarrow> 'd screen result" where
  "print_mem_desc h m s =
     res_bind (returns (list_for_each
         (\<lambda>r. case r of Inr s \<Rightarrow> nxt (vm_lists (paging (kern s))) | Inl _ \<Rightarrow> (\<lambda>n. n))
         (print_mem_area h) (VmAreas m) (Inr s))) (\<lambda>r. r)"

section \<open>Buddies\<close>

definition print_buddy_new :: "'d hardware \<Rightarrow> nat \<Rightarrow> 'd screen \<Rightarrow> 'd screen result" where
  "print_buddy_new h i s =
     (let d = fast_buddy_new (pages (kheap (paging (kern s)))) in
      res_bind (arr_get (all_buddies d) i) (\<lambda>b.
      res_bind (calc_buddy_phys i d) (\<lambda>phys.
        say h ''PFN: %u O: %d F: %d  Phy: 0x%x\<newline>''
          [Word (word_of_nat (b_pfn b)), Word (word_of_nat (b_order b)), Word (if b_free b then 1 else 0), Word phys] s)))"

definition print_buddy_status :: "'d hardware \<Rightarrow> nat \<Rightarrow> buddy_mem_desc \<Rightarrow> 'd screen \<Rightarrow> 'd screen result" where
  "print_buddy_status h order d s =
     res_bind (returns (list_length (free_lists d) (Some (FreeList order)))) (\<lambda>n.
       if n > 0
       then say h ''#Free Buddies of order %d = %d\<newline>'' [Word (word_of_nat order), Word (word_of_int n)] s
       else Inr s)"

definition print_all_orders :: "'d hardware \<Rightarrow> buddy_mem_desc \<Rightarrow> 'd screen \<Rightarrow> 'd screen result" where
  "print_all_orders h d = calls (map (\<lambda>n. print_buddy_status h n d) [0..<MAX_ORDER + 1])"

section \<open>Descriptors and headers\<close>

text \<open>\<^verbatim>\<open>printGdt\<close> walks the table by the limit in the register.\<close>

fun print_gdt_entries :: "'d hardware \<Rightarrow> nat list \<Rightarrow> gdt_entry list \<Rightarrow> 'd screen \<Rightarrow> 'd screen result" where
  "print_gdt_entries h [] g s = Inr s"
| "print_gdt_entries h (i # is) g s =
     res_bind (say h ''[%d]'' [Word (word_of_nat i)] s) (\<lambda>s.
     res_bind (arr_get g i) (\<lambda>e.
     res_bind (calls
       [say h '' Base: 0x%x%x%x   '' [Word (ucast (base_high e)), Word (ucast (base_middle e)), Word (ucast (base_low e))],
        say h '' Limit: 0x%x '' [Word (ucast (limit_low e))],
        say h '' Access: 0x%x\<newline>'' [Word (ucast (access e))]] s) (print_gdt_entries h is g)))"

definition printGdt :: "'d hardware \<Rightarrow> cpu \<Rightarrow> 'd screen \<Rightarrow> 'd screen result" where
  "printGdt h c s =
     res_bind (say h ''GDTR Base: 0x%x  '' [Word (gdtr_base (gp c))] s) (\<lambda>s.
     res_bind (say h ''Limit: %d\<newline>'' [Word (ucast (gdtr_limit (gp c)))] s)
       (print_gdt_entries h [0..<(unat (gdtr_limit (gp c)) + 1) div 8] (gdt c)))"

text \<open>The headers of an ELF file in memory, at the offsets of \<^verbatim>\<open>elf.h\<close>.\<close>

definition print_elf_header :: "'d hardware \<Rightarrow> bytes \<Rightarrow> u32 \<Rightarrow> 'd screen \<Rightarrow> 'd screen result" where
  "print_elf_header h m b = say h
     ''Version: %d\<newline>Machine: %d\<newline>Type: %d\<newline>Entry: 0x%x\<newline>PHOff: 0x%x\<newline>EHSize: %d\<newline>PHNum %d\<newline>PHESize: %d\<newline>''
     [Word (read32 m (b + 20)), Word (ucast (read16 m (b + 18))), Word (ucast (read16 m (b + 16))),
      Word (read32 m (b + 24)), Word (read32 m (b + 28)), Word (ucast (read16 m (b + 40))),
      Word (ucast (read16 m (b + 44))), Word (ucast (read16 m (b + 42)))]"

definition print_elf_program_header :: "'d hardware \<Rightarrow> bytes \<Rightarrow> u32 \<Rightarrow> 'd screen \<Rightarrow> 'd screen result" where
  "print_elf_program_header h m ph = say h
     ''Off: 0x%x VAddr: 0x%x Type: 0x%x Size: 0x%x Flags: 0x%x Align: %d\<newline>''
     [Word (read32 m (ph + 4)), Word (read32 m (ph + 8)), Word (read32 m ph), Word (read32 m (ph + 16)),
      Word (read32 m (ph + 24)), Word (read32 m (ph + 28))]"

definition print_elf :: "'d hardware \<Rightarrow> bytes \<Rightarrow> u32 \<Rightarrow> 'd screen \<Rightarrow> 'd screen result" where
  "print_elf h m b = calls
     ([say h ''%c%c%c\<newline>'' [Word (ucast (m (b + 1))), Word (ucast (m (b + 2))), Word (ucast (m (b + 3)))],
       print_elf_header h m b, say h ''Program Headers:\<newline>'' []] @
      concat (map (\<lambda>i.
        [say h ''[%d] '' [Word (word_of_nat i)],
         print_elf_program_header h m (b + read32 m (b + 28) + 32 * word_of_nat i)])
        [0..<unat (read16 m (b + 44))]))"

section \<open>Packets\<close>

definition six :: "(nat \<Rightarrow> u8) \<Rightarrow> arg list" where
  "six f = map (\<lambda>i. Word (ucast (f i))) [0..<6]"

definition print_mac_address :: "'d hardware \<Rightarrow> u8 list \<Rightarrow> 'd screen \<Rightarrow> 'd screen result" where
  "print_mac_address h mac s =
     (if length mac < 6 then Inl OutOfBounds
      else say h ''MAC Address: %01x:%01x:%01x:%01x:%01x:%01x\<newline>'' (six (\<lambda>i. mac ! i)) s)"

definition print_ethernet_packet :: "'d hardware \<Rightarrow> bytes \<Rightarrow> u32 \<Rightarrow> 'd screen \<Rightarrow> 'd screen result" where
  "print_ethernet_packet h m packet =
     (let p = (\<lambda>i. m (packet + word_of_nat i)); b = (\<lambda>i. Word (ucast (p i))) in
      calls
       ([say h ''Packet Address: 0x%x\<newline>'' [Word packet],
         say h ''MAC Address Src: %01x:%01x:%01x:%01x:%01x:%01x\<newline>'' (six (\<lambda>i. p (6 + i))),
         say h ''MAC Address Dst: %01x:%01x:%01x:%01x:%01x:%01x\<newline>'' (six p),
         say h ''Type: %02x:%02x\<newline>'' [b 12, b 13]] @
        (if p 12 = 0x08 \<and> p 13 = 0 then
           [say h ''IPv4 Packet arrived - '' [],
            say h ''Type: %d\<newline>'' [b 23],
            say h ''IP Src: %d.%d.%d.%d\<newline>'' [b 26, b 27, b 28, b 29],
            say h ''IP Dst: %d.%d.%d.%d\<newline>'' [b 30, b 31, b 32, b 33]]
         else []) @
        [say h ''\<newline>'' []]))"

section \<open>The boot information\<close>

definition MULTIBOOT_TAG_TYPE_CMDLINE :: u32 where "MULTIBOOT_TAG_TYPE_CMDLINE = 1"
definition MULTIBOOT_TAG_TYPE_BOOT_LOADER_NAME :: u32 where "MULTIBOOT_TAG_TYPE_BOOT_LOADER_NAME = 2"
definition MULTIBOOT_TAG_TYPE_BASIC_MEMINFO :: u32 where "MULTIBOOT_TAG_TYPE_BASIC_MEMINFO = 4"
definition MULTIBOOT_TAG_TYPE_BOOTDEV :: u32 where "MULTIBOOT_TAG_TYPE_BOOTDEV = 5"

record multiboot_tag_basic_meminfo =
  mem_lower :: u32
  mem_upper :: u32

record multiboot_tag_bootdev =
  biosdev :: u32
  slice :: u32
  part :: u32

definition meminfo_at :: "bytes \<Rightarrow> u32 \<Rightarrow> multiboot_tag_basic_meminfo" where
  "meminfo_at m a = \<lparr>mem_lower = read32 m (a + 8), mem_upper = read32 m (a + 12)\<rparr>"

definition bootdev_at :: "bytes \<Rightarrow> u32 \<Rightarrow> multiboot_tag_bootdev" where
  "bootdev_at m a = \<lparr>biosdev = read32 m (a + 8), slice = read32 m (a + 12), part = read32 m (a + 16)\<rparr>"

text \<open>One entry of a memory map is printed and added to the sums; \<open>m\<close> is the memory with the boot
  information.\<close>

definition high :: "u64 \<Rightarrow> arg" where "high x = Word (ucast (drop_bit 32 x))"
definition low :: "u64 \<Rightarrow> arg" where "low x = Word (ucast (x AND 0xffffffff))"

type_synonym 'd report = "(u64 \<times> u64) \<times> 'd screen"

definition print_entry :: "'d hardware \<Rightarrow> multiboot_mmap_entry \<Rightarrow> 'd report result \<Rightarrow> 'd report result" where
  "print_entry h e r =
     res_bind r (\<lambda>(sums, s).
     res_bind (say h '' base_addr = 0x%x%x, length = 0x%x%x, type = 0x%x\<newline>''
       [high (mm_addr e), low (mm_addr e), high (mm_len e), low (mm_len e), Word (mm_type e)] s) (\<lambda>s.
       Inr (add_region e sums, s)))"

definition print_text_tag :: "'d hardware \<Rightarrow> bytes \<Rightarrow> string \<Rightarrow> arg list \<Rightarrow> u32 \<Rightarrow> 'd screen \<Rightarrow> 'd screen result" where
  "print_text_tag h m fmt args a s =
     res_bind (returns (text_at m a)) (\<lambda>t. say h fmt (args @ [Text (Some t)]) s)"

definition print_tag :: "'d hardware \<Rightarrow> bytes \<Rightarrow> bool \<Rightarrow> u32 \<Rightarrow> 'd report \<Rightarrow> 'd report result" where
  "print_tag h m onlyMem tag = (\<lambda>(sums, s).
     let t = tag_at m tag; ty = tag_type t; keep = (\<lambda>r. res_bind r (\<lambda>s. Inr (sums, s))) in
     res_bind (if onlyMem then Inr s
               else say h ''Tag 0x%x, Size 0x%x\<newline>'' [Word (tag_type t), Word (tag_size t)] s) (\<lambda>s.
       if ty = MULTIBOOT_TAG_TYPE_MODULE then
         keep (print_text_tag h m ''Module at 0x%x-0x%x. Command line %s\<newline>''
           [Word (mod_start (module_at m tag)), Word (mod_end (module_at m tag))] (tag + 16) s)
       else if ty = MULTIBOOT_TAG_TYPE_CMDLINE then
         (if onlyMem then Inr (sums, s) else keep (print_text_tag h m ''Command line = %s\<newline>'' [] (tag + 8) s))
       else if ty = MULTIBOOT_TAG_TYPE_BOOT_LOADER_NAME then
         (if onlyMem then Inr (sums, s) else keep (print_text_tag h m ''Boot loader name = %s\<newline>'' [] (tag + 8) s))
       else if ty = MULTIBOOT_TAG_TYPE_BASIC_MEMINFO then
         (if onlyMem then Inr (sums, s)
          else keep (say h ''mem_lower = %uKB, mem_upper = %uKB\<newline>''
            [Word (mem_lower (meminfo_at m tag)), Word (mem_upper (meminfo_at m tag))] s))
       else if ty = MULTIBOOT_TAG_TYPE_BOOTDEV then
         (if onlyMem then Inr (sums, s)
          else keep (say h ''Boot device 0x%x,%u,%u\<newline>''
            [Word (biosdev (bootdev_at m tag)), Word (slice (bootdev_at m tag)), Word (part (bootdev_at m tag))] s))
       else if ty = MULTIBOOT_TAG_TYPE_MMAP then
         res_bind (say h ''System Memory Map:\<newline>'' [] s) (\<lambda>s.
         res_bind (returns (mmap_entries m tag (print_entry h) (Inr (sums, s)))) (\<lambda>r. r))
       else Inr (sums, s)))"

partial_function (option) print_tags ::
  "'d hardware \<Rightarrow> bytes \<Rightarrow> bool \<Rightarrow> u32 \<Rightarrow> 'd report \<Rightarrow> 'd report result option" where
  "print_tags h m onlyMem tag r =
     (if tag_type (tag_at m tag) \<noteq> MULTIBOOT_TAG_TYPE_END then
        (case print_tag h m onlyMem tag r of
           Inl e \<Rightarrow> Some (Inl e)
         | Inr r \<Rightarrow> print_tags h m onlyMem (next_tag m tag) r)
      else Some (Inr r))"

text \<open>A 64-bit argument takes two places on the stack; \<^verbatim>\<open>%u\<close> reads the lower one.\<close>

definition long :: "u64 \<Rightarrow> arg list" where "long x = [low x, high x]"

definition printMultibootInfo ::
  "'d hardware \<Rightarrow> bytes \<Rightarrow> KMultiBoot2Info \<Rightarrow> bool \<Rightarrow> 'd screen \<Rightarrow> 'd screen result" where
  "printMultibootInfo h m info onlyMem s =
     (if mbi_magic info \<noteq> MULTIBOOT2_BOOTLOADER_MAGIC
      then say h ''Invalid magic number: 0x%x\<newline>'' [Word (mbi_magic info)] s
      else
        res_bind (if onlyMem then Inr s
                  else say h ''Announced mbi size 0x%x\<newline>'' [Word (read32 m (mbi_info info))] s) (\<lambda>s.
        res_bind (returns (print_tags h m onlyMem (mbi_info info + 8) ((0, 0), s))) (\<lambda>r.
        res_bind r (\<lambda>((resMemSize, freeMemSize), s).
          calls
           [say h ''Total memory:      %u MB\<newline>'' (long ((resMemSize + freeMemSize) div 1024 div 1024)),
            say h ''Reserved memory:   %u KB\<newline>'' (long (resMemSize div 1024)),
            say h ''Free memory:       %u MB\<newline>'' (long (freeMemSize div 1024 div 1024))] s))))"

section \<open>\<^verbatim>\<open>bin/top.c\<close>\<close>

definition state_arg :: "u32 \<Rightarrow> kernel \<Rightarrow> arg" where
  "state_arg t k = Word (of_char (get_thread_state t k))"

definition name_arg :: "u8 list \<Rightarrow> arg" where
  "name_arg n = Text (Some (text_of n))"

definition pid_arg :: "u32 \<Rightarrow> kernel \<Rightarrow> arg" where
  "pid_arg t k = Word (ucast (th_pid (threads k t)))"

definition each_node ::
  "(knode \<Rightarrow> 'd screen \<Rightarrow> 'd screen result) \<Rightarrow> knode \<Rightarrow> 'd screen \<Rightarrow> 'd screen result" where
  "each_node f = each kern (\<lambda>l s. res_bind (f l s) (\<lambda>s. Inr (s, False)))"

definition print_open_file :: "'d hardware \<Rightarrow> knode \<Rightarrow> 'd screen \<Rightarrow> 'd screen result" where
  "print_open_file h l s =
     (case l of FdQ f \<Rightarrow> say h ''%s, '' [name_arg (f_name (files (kern s) f))] s | _ \<Rightarrow> Inl BadPointer)"

definition printProcSimple :: "'d hardware \<Rightarrow> u32 \<Rightarrow> 'd screen \<Rightarrow> 'd screen result" where
  "printProcSimple h p s =
     (let k = kern s; x = threads k p in
      res_bind (returns (list_length (queues k) (Some (TFiles p)))) (\<lambda>n.
      calls
       [say h ''%s - PID: %d - N: %d Parent: %d  %c\<newline>''
          [name_arg (names k (command x)), pid_arg p k, Word (ucast (nice x)), pid_arg (father x) k, state_arg p k],
        say h ''OF: '' [],
        if n > 0 then each_node (print_open_file h) (TFiles p) else Inr,
        say h ''\<newline>'' []] s))"

definition print_single_thread :: "'d hardware \<Rightarrow> u32 \<Rightarrow> 'd screen \<Rightarrow> 'd screen result" where
  "print_single_thread h p s =
     (let k = kern s; x = threads k p in
      calls
       [quiet (setTextColor (if \<not> ring0 x then GREEN else WHITE)),
        say h ''%s pid:%d (%c) %s %u\<newline>''
          [name_arg (names k (command x)), pid_arg p k, state_arg p k,
           name_arg (username (users k (owner x))), Word (ucast (drop_bit 32 (runtime x)))],
        quiet resetScreenColors] s)"

text \<open>\<^verbatim>\<open>print_children\<close>: the padding, an array of 50, and the loop over the children, each followed by
  its own. A list of children that leads back to itself makes it run for ever.\<close>

fun pad_text :: "nat \<Rightarrow> u8 list \<Rightarrow> u8 list result" where
  "pad_text 0 pad = Inr pad"
| "pad_text (Suc n) pad = res_bind (append pad 32) (pad_text n)"

definition indentation :: "nat \<Rightarrow> u8 list result" where
  "indentation indent =
     res_bind (pad_text (min indent 40) (replicate 50 0)) (\<lambda>pad. arr_set pad (min indent 40) 0)"

definition print_child :: "'d hardware \<Rightarrow> nat \<Rightarrow> u32 \<Rightarrow> 'd screen \<Rightarrow> 'd screen result" where
  "print_child h indent p s =
     res_bind (indentation indent) (\<lambda>pad.
     res_bind (say h ''%s- '' [name_arg pad] s) (print_single_thread h p))"

partial_function (option) print_siblings ::
  "'d hardware \<Rightarrow> knode \<Rightarrow> knode \<Rightarrow> nat \<Rightarrow> 'd screen \<Rightarrow> 'd screen result option" where
  "print_siblings h head pos indent s =
     (if pos = head then Some (Inr s)
      else case pos of
        TSiblings p \<Rightarrow>
          (case print_child h indent p s of
             Inl e \<Rightarrow> Some (Inl e)
           | Inr s \<Rightarrow>
               Option.bind
                 (print_siblings h (TChildren p) (nxt (queues (kern s)) (TChildren p)) (min indent 40 + 1) s)
                 (\<lambda>r. case r of
                    Inl e \<Rightarrow> Some (Inl e)
                  | Inr s \<Rightarrow> print_siblings h head (nxt (queues (kern s)) pos) indent s))
      | _ \<Rightarrow> Some (Inl BadPointer))"

definition print_children :: "'d hardware \<Rightarrow> knode \<Rightarrow> nat \<Rightarrow> 'd screen \<Rightarrow> 'd screen result" where
  "print_children h children indent s =
     res_bind (returns (print_siblings h children (nxt (queues (kern s)) children) indent s)) (\<lambda>r. r)"

definition print_tree :: "'d hardware \<Rightarrow> 'd screen \<Rightarrow> 'd screen result" where
  "print_tree h s =
     (let t = init_thread (kern s)
      in calls [print_single_thread h t, print_children h (TChildren t) 1, say h '' q to quit\<newline>'' []] s)"

definition print_top_child :: "'d hardware \<Rightarrow> knode \<Rightarrow> 'd screen \<Rightarrow> 'd screen result" where
  "print_top_child h l s =
     (case l of
        TSiblings p \<Rightarrow>
          say h ''   - %d - %s\<newline>'' [pid_arg p (kern s), name_arg (names (kern s) (command (threads (kern s) p)))] s
      | _ \<Rightarrow> Inl BadPointer)"

definition print_top_thread :: "'d hardware \<Rightarrow> knode \<Rightarrow> 'd screen \<Rightarrow> 'd screen result" where
  "print_top_thread h l s =
     (case l of
        TProc p \<Rightarrow>
          let x = threads (kern s) p in
          calls
           [say h ''- %d - %s %d\<newline>''
              [pid_arg p (kern s), name_arg (names (kern s) (command x)), Word (ticks_to_millis (runtime x))],
            each_node (print_top_child h) (TChildren p)] s
      | _ \<Rightarrow> Inl BadPointer)"

definition printTop :: "'d hardware \<Rightarrow> 'd screen \<Rightarrow> 'd screen result" where
  "printTop h = each_node (print_top_thread h) KThreads"

text \<open>\<^verbatim>\<open>ps\<close>: the three queues, numbered, and the current thread; then the thread that runs it ends.\<close>

definition ps_line :: "'d hardware \<Rightarrow> knode \<Rightarrow> nat \<times> 'd screen \<Rightarrow> ((nat \<times> 'd screen) \<times> bool) result" where
  "ps_line h l = (\<lambda>(c, s).
     (case l of
        THead p \<Rightarrow>
          res_bind (say h ''[%d] '' [Word (word_of_nat c)] s) (\<lambda>s.
          res_bind (printProcSimple h p s) (\<lambda>s. Inr ((c + 1, s), False)))
      | _ \<Rightarrow> Inl BadPointer))"

definition ps_queue :: "'d hardware \<Rightarrow> u8 \<Rightarrow> u8 \<Rightarrow> string \<Rightarrow> knode \<Rightarrow> 'd screen \<Rightarrow> 'd screen result" where
  "ps_queue h bg fg title q s =
     res_bind (say h title [] (setTextColor fg (setBackgroundColor bg s))) (\<lambda>s.
     res_bind (each (\<lambda>(_, s). kern s) (ps_line h) q (0, s)) (\<lambda>(_, s). Inr (resetScreenColors s)))"

definition ps :: "'d hardware \<Rightarrow> 'd screen \<Rightarrow> 'd screen result" where
  "ps h = calls
     [ps_queue h GREEN BLACK ''[RUNNING]\<newline>'' RunningQueue,
      ps_queue h CYAN BLACK ''[SLEEP]\<newline>'' SleepQueue,
      ps_queue h GRAY RED ''[STOPPED]\<newline>'' StoppedQueue,
      \<lambda>s. if current_thread (kern s) \<noteq> NULL
          then calls [quiet (\<lambda>s. setTextColor GREEN (setBackgroundColor BLACK s)), say h ''[CURRENT]: \<newline>'' [],
                 printProcSimple h (current_thread (kern s))] s
          else Inr s,
      quiet resetScreenColors,
      \<lambda>s. res_bind (sys_exit 0 (kern s)) (\<lambda>k. Inr (s\<lparr>kern := k\<rparr>))]"

text \<open>One round of the loop of \<^verbatim>\<open>draw_thread\<close>, and \<^verbatim>\<open>top\<close>: its start, and what it does with a character
  that was read. After a \<^verbatim>\<open>q\<close> it waits for the thread that draws; \<open>top_end\<close> is what follows.\<close>

definition draw_round :: "'d hardware \<Rightarrow> 'd screen \<Rightarrow> 'd screen result" where
  "draw_round h = calls
     [clearScreen h, quiet (setCursorPos h 1 0),
      \<lambda>s. let (pi, k) = disable_int (kern s) in
        res_bind (print_tree h (s\<lparr>kern := k\<rparr>)) (\<lambda>s. Inr (s\<lparr>kern := enable_int pi (kern s)\<rparr>)),
      \<lambda>s. res_bind (sleep_ms 1000 (kern s)) (\<lambda>k. Inr (s\<lparr>kern := k\<rparr>))]"

definition top_start :: "u32 \<Rightarrow> kernel \<Rightarrow> (u32 \<times> kernel) result" where
  "top_start draw_thread k =
     res_bind (create_kernel_thread draw_thread (cstr ''draw'') k) (\<lambda>(draw, k).
       Inr (draw, wake_up_thread draw (upd_thread draw (\<lambda>x. x\<lparr>nice := 0\<rparr>) k)))"

definition top_key :: "u32 \<Rightarrow> u8 \<Rightarrow> kernel \<Rightarrow> kernel result" where
  "top_key draw read k =
     (if read = 113 then
        let pid = ucast (th_pid (threads k draw)) in
        res_bind (sys_kill pid SIGKILL k) (\<lambda>(_, k).
        res_bind (sys_wait4 pid k) (\<lambda>(r, k). case r of None \<Rightarrow> Inr k | Some _ \<Rightarrow> sys_exit 0 k))
      else Inr k)"

end
