(* ===== verification/Commands.thy ===== *)
theory Commands
  imports Report
begin

text \<open>
  \<^verbatim>\<open>user_input\<close> of \<^verbatim>\<open>bin/shell.c\<close>: how a line becomes a command, and what every command does. The
  machine is the network's state (memory, card, devices, kernel) with what the screen, the
  processor, the boot information and the clock add.
\<close>

section \<open>The machine\<close>

record 'd machine =
  netw :: "'d net"
  colour :: u8
  last_off :: u32
  init_ok :: bool
  kMultiBootInfo :: KMultiBoot2Info
  boot_mmap :: BootMmap
  cpu_tables :: cpu
  rtc_globals :: rtc

definition screen_of :: "'d machine \<Rightarrow> 'd screen" where
  "screen_of m = \<lparr>video = store (netw m), textColor = colour m, last_offset = last_off m,
     kernel_init_ok = init_ok m, devices = dvs (netw m), kern = krn (netw m)\<rparr>"

definition display :: "('d screen \<Rightarrow> 'd screen result) \<Rightarrow> 'd machine \<Rightarrow> 'd machine result" where
  "display f m =
     res_bind (f (screen_of m)) (\<lambda>s.
       Inr (m\<lparr>netw := (netw m)\<lparr>store := video s, dvs := devices s, krn := kern s\<rparr>,
              colour := textColor s, last_off := last_offset s, init_ok := kernel_init_ok s\<rparr>))"

definition on_netw :: "('d net \<Rightarrow> 'd net result) \<Rightarrow> 'd machine \<Rightarrow> 'd machine result" where
  "on_netw f m = res_bind (f (netw m)) (\<lambda>n. Inr (m\<lparr>netw := n\<rparr>))"

definition on_krn :: "(kernel \<Rightarrow> ('a \<times> kernel) result) \<Rightarrow> 'd machine \<Rightarrow> ('a \<times> 'd machine) result" where
  "on_krn f m = res_bind (f (krn (netw m))) (\<lambda>(x, k). Inr (x, m\<lparr>netw := (netw m)\<lparr>krn := k\<rparr>\<rparr>))"

definition do_krn :: "(kernel \<Rightarrow> kernel result) \<Rightarrow> 'd machine \<Rightarrow> 'd machine result" where
  "do_krn f m = res_bind (f (krn (netw m))) (\<lambda>k. Inr (m\<lparr>netw := (netw m)\<lparr>krn := k\<rparr>\<rparr>))"

text \<open>A command between \<^verbatim>\<open>disable_int\<close> and \<^verbatim>\<open>enable_int\<close>.\<close>

definition no_ints :: "('d machine \<Rightarrow> 'd machine result) \<Rightarrow> 'd machine \<Rightarrow> 'd machine result" where
  "no_ints f m =
     res_bind (on_krn (\<lambda>k. Inr (disable_int k)) m) (\<lambda>(pi, m).
     res_bind (f m) (do_krn (\<lambda>k. Inr (enable_int pi k))))"

definition heap_of :: "'d machine \<Rightarrow> kheap" where
  "heap_of m = kheap (paging (krn (netw m)))"

section \<open>Tests of the allocators\<close>

definition ALLOC_NUM :: nat where "ALLOC_NUM = 3000"

definition print_timer :: "'d hardware \<Rightarrow> knode \<Rightarrow> 'd screen \<Rightarrow> 'd screen result" where
  "print_timer h l s =
     (case l of
        TimerQ t \<Rightarrow>
          say h ''Timer of %s\<newline>''
            [name_arg (names (kern s) (command (threads (kern s) (tm_thread (timers (kern s) t)))))] s
      | _ \<Rightarrow> Inl BadPointer)"

definition do_timers :: "'d hardware \<Rightarrow> 'd machine \<Rightarrow> 'd machine result" where
  "do_timers h = no_ints (display (each_node (print_timer h) KernelTimers))"

text \<open>\<^verbatim>\<open>slab\<close>: four small objects are written and read back, then freed; then one of 256 bytes is taken and
  freed four times, each time the address of the first is printed and freed.\<close>

fun take_four :: "nat list \<Rightarrow> kernel \<Rightarrow> (u32 list \<times> kernel) result" where
  "take_four [] k = Inr ([], k)"
| "take_four (i # is) k =
     res_bind (on_heap (salloc 4) k) (\<lambda>(p, k).
     res_bind (take_four is (put_word p (31 + word_of_nat i) k)) (\<lambda>(ps, k). Inr (p # ps, k)))"

definition free_obj :: "u32 \<Rightarrow> 'd machine \<Rightarrow> 'd machine result" where
  "free_obj p m = res_bind (on_krn (on_heap (sfree p)) m) (\<lambda>(_, m). Inr m)"

definition slab_again :: "'d hardware \<Rightarrow> u32 \<Rightarrow> 'd machine \<Rightarrow> 'd machine result" where
  "slab_again h b m =
     res_bind (on_krn (on_heap (salloc 256)) m) (\<lambda>(_, m).
     res_bind (display (say h ''256 - 0x%x\<newline>'' [Word b]) m) (free_obj b))"

definition do_slab :: "'d hardware \<Rightarrow> 'd machine \<Rightarrow> 'd machine result" where
  "do_slab h m =
     res_bind (on_krn (take_four [0..<4]) m) (\<lambda>(num, m).
     res_bind (display (\<lambda>s. calls (map (\<lambda>p. say h ''0x%x = %d \<newline>'' [Word p, Word (words (paging (kern s)) p)]) num) s) m) (\<lambda>m.
     res_bind (display (say h ''\<newline>'' []) m) (\<lambda>m.
     res_bind (calls (map free_obj num) m) (\<lambda>m.
     res_bind (on_krn (on_heap (salloc 256)) m) (\<lambda>(b, m).
     res_bind (display (say h ''256 - 0x%x\<newline>'' [Word b]) m) (\<lambda>m.
     res_bind (free_obj b m) (calls [slab_again h b, slab_again h b, slab_again h b])))))))"

text \<open>\<^verbatim>\<open>si\<close>: the slabs of the three lists.\<close>

definition print_slab :: "'d hardware \<Rightarrow> snode \<Rightarrow> 'd screen result \<Rightarrow> 'd screen result \<times> bool" where
  "print_slab h l r =
     (case r of Inl e \<Rightarrow> (Inl e, True) | Inr s \<Rightarrow>
     (case l of
        SlabHead a \<Rightarrow>
          let b = slabs (kheap (paging (kern s))) a in
          (calls
            [quiet (if s_pinned b then setTextColor RED else (\<lambda>s. s)),
             say h ''- Cache: %d %d/%d\<newline>'' [Word (s_size b), Word (s_alloc b), Word (s_tot b)],
             quiet resetScreenColors] s, False)
      | _ \<Rightarrow> (Inl BadPointer, True)))"

definition print_slabs :: "'d hardware \<Rightarrow> snode \<Rightarrow> 'd screen \<Rightarrow> 'd screen result" where
  "print_slabs h head s =
     res_bind (returns (list_for_each_safe
         (\<lambda>r. case r of Inr s \<Rightarrow> nxt (cache (kheap (paging (kern s)))) | Inl _ \<Rightarrow> (\<lambda>n. n))
         (print_slab h) head (Inr s))) (\<lambda>r. r)"

definition do_si :: "'d hardware \<Rightarrow> 'd machine \<Rightarrow> 'd machine result" where
  "do_si h = display (calls
     [say h ''Free:\<newline>'' [], print_slabs h CacheFree, say h ''Used:\<newline>'' [], print_slabs h CacheUsed,
      say h ''Empty:\<newline>'' [], print_slabs h CacheEmpty])"

text \<open>\<^verbatim>\<open>tb\<close> and \<^verbatim>\<open>tbk\<close>: 3000 allocations that are never freed; \<^verbatim>\<open>bi\<close>: the free blocks.\<close>

fun take_fast :: "nat \<Rightarrow> kernel \<Rightarrow> kernel result" where
  "take_fast 0 k = Inr k"
| "take_fast (Suc n) k = res_bind (on_pages (fmalloc 100) k) (\<lambda>(_, k). take_fast n k)"

fun take_random :: "nat \<Rightarrow> kernel \<Rightarrow> kernel result" where
  "take_random 0 k = Inr k"
| "take_random (Suc n) k =
     (let (r, x) = rand (rand_next k)
      in res_bind (on_heap (kmalloc (r mod 8192)) (k\<lparr>rand_next := x\<rparr>)) (\<lambda>(_, k). take_random n k))"

definition print_fast :: "'d hardware \<Rightarrow> 'd screen \<Rightarrow> 'd screen result" where
  "print_fast h s = print_all_orders h (fast_buddy_new (pages (kheap (paging (kern s))))) s"

definition print_kernel :: "'d hardware \<Rightarrow> 'd screen \<Rightarrow> 'd screen result" where
  "print_kernel h s = print_all_orders h (kernel_buddy_new (pages (kheap (paging (kern s))))) s"

definition do_tb :: "'d hardware \<Rightarrow> 'd machine \<Rightarrow> 'd machine result" where
  "do_tb h = no_ints (calls
     [do_krn (take_fast ALLOC_NUM), display (print_fast h),
      display (kprintfColor h PURPLE (cstr ''Allocs done: %d\<newline>'') [Word allocs_done])])"

definition do_tbk :: "'d hardware \<Rightarrow> 'd machine \<Rightarrow> 'd machine result" where
  "do_tbk h = no_ints (calls
     [do_krn (take_random ALLOC_NUM), display (print_kernel h),
      display (kprintfColor h PURPLE (cstr ''Allocs done: %d\<newline>'') [Word allocs_done])])"

definition do_bi :: "'d hardware \<Rightarrow> 'd machine \<Rightarrow> 'd machine result" where
  "do_bi h = calls
     [no_ints (display (calls [say h ''Fast Mem: \<newline>'' [], print_fast h, say h ''Kernel Mem: \<newline>'' [], print_kernel h])),
      display (\<lambda>s. kprintfColor h GREEN (cstr ''Allocs done: %d TotalPackets: %d\<newline>'')
        [Word allocs_done, Word (total_packets (kern s))] s)]"

section \<open>Programs\<close>

text \<open>The addresses of the functions that threads run and of the program image, with its headers.\<close>

record images =
  fn_top :: u32
  fn_ps :: u32
  fn_k_simple_proc :: u32
  fn_u_simple_proc :: u32
  files_start :: u32
  files_header :: Elf32_Ehdr
  stack_flags :: u32

text \<open>A command ends (\<open>True\<close>) or has switched to another thread, waiting for one it started.\<close>

type_synonym 'd command = "'d machine \<Rightarrow> (bool \<times> 'd machine) result"

definition ends :: "('d machine \<Rightarrow> 'd machine result) \<Rightarrow> 'd command" where
  "ends f m = res_bind (f m) (\<lambda>m. Inr (True, m))"

definition run_and_wait :: "u32 \<Rightarrow> string \<Rightarrow> 'd command" where
  "run_and_wait f name m =
     res_bind (on_krn (create_kernel_thread f (cstr name)) m) (\<lambda>(p, m).
     res_bind (do_krn (\<lambda>k. Inr (wake_up_thread p (upd_thread p (\<lambda>x. x\<lparr>nice := 0\<rparr>) k))) m) (\<lambda>m.
     res_bind (on_krn (\<lambda>k. sys_wait4 (ucast (th_pid (threads k p))) k) m) (\<lambda>(r, m). Inr (r \<noteq> None, m))))"

definition do_k :: "u32 \<Rightarrow> kernel \<Rightarrow> kernel result" where
  "do_k f k =
     res_bind (create_kernel_thread f (cstr ''k-extra'') k) (\<lambda>(p, k).
       Inr (wake_up_thread p (upd_thread p (\<lambda>x. x\<lparr>nice := 10\<rparr>) k)))"

text \<open>\<^verbatim>\<open>f\<close> loads and starts the program 3000 times.\<close>

fun load_files :: "images \<Rightarrow> nat \<Rightarrow> kernel \<Rightarrow> kernel result" where
  "load_files im 0 k = Inr k"
| "load_files im (Suc n) k =
     res_bind (load_elf (stack_flags im) (files_start im) (files_header im) k) (\<lambda>(run_me, k).
       load_files im n (wake_up_thread run_me k))"

text \<open>\<^verbatim>\<open>u\<close> creates 3000 user threads and wakes the last one.\<close>

definition user_thread :: "u32 \<Rightarrow> kernel \<Rightarrow> (u32 \<times> kernel) result" where
  "user_thread f k =
     res_bind (new_mem k) (\<lambda>(thread_mem, k).
     res_bind (create_user_thread f thread_mem NULL (cstr ''u-extra'') k) (\<lambda>(p, k).
       let k = upd_thread p (\<lambda>x. x\<lparr>nice := 10\<rparr>) k
       in res_bind (add_stack_area 0 thread_mem p k) (\<lambda>k. Inr (p, k))))"

fun user_threads :: "u32 \<Rightarrow> nat \<Rightarrow> u32 \<Rightarrow> kernel \<Rightarrow> (u32 \<times> kernel) result" where
  "user_threads f 0 p k = Inr (p, k)"
| "user_threads f (Suc n) p k = res_bind (user_thread f k) (\<lambda>(p, k). user_threads f n p k)"

definition do_u :: "u32 \<Rightarrow> kernel \<Rightarrow> kernel result" where
  "do_u f k = res_bind (user_threads f ALLOC_NUM NULL k) (\<lambda>(p, k). Inr (wake_up_thread p k))"

section \<open>The flag\<close>

definition stripe :: "'d hardware \<Rightarrow> u8 \<Rightarrow> nat \<Rightarrow> 'd screen \<Rightarrow> 'd screen result" where
  "stripe h c n = calls
     ([quiet resetScreenColors, colours c c] @ replicate n (say h '' '' []))"

definition itaFlag :: "'d hardware \<Rightarrow> 'd screen \<Rightarrow> 'd screen result" where
  "itaFlag h = calls
     ([clearScreen h, quiet (setCursorPos h 1 0)] @
      concat (replicate (nat VGA_ROWS)
        [stripe h GREEN 26, stripe h WHITE 27, stripe h RED 26, say h ''\<newline>'' []]) @
      [quiet resetScreenColors])"

definition set_ints :: "bool \<Rightarrow> 'd machine \<Rightarrow> 'd machine result" where
  "set_ints b = do_krn (\<lambda>k. Inr (k\<lparr>ints := b\<rparr>))"

section \<open>The other commands\<close>

definition print_fd :: "'d hardware \<Rightarrow> knode \<Rightarrow> 'd screen \<Rightarrow> 'd screen result" where
  "print_fd h l s =
     (case l of
        FdK f \<Rightarrow>
          let x = files (kern s) f in
          say h ''%s - %d Size: %d Avail: %d\<newline>''
            [name_arg (f_name x), Word (f_fd x), Word (f_size x), Word (f_available x)] s
      | _ \<Rightarrow> Inl BadPointer)"

definition do_ip :: "'d hardware \<Rightarrow> 'd net \<Rightarrow> 'd net result" where
  "do_ip h n =
     res_bind (create_ipv4_header [0, 0, 0, 0] [255, 255, 255, 255] 20 n) (\<lambda>(ip, n). send_ip_packet h ip n)"

definition do_mods :: "'d hardware \<Rightarrow> 'd machine \<Rightarrow> 'd machine result" where
  "do_mods h m =
     res_bind (getModule (store (netw m)) (kMultiBootInfo m)) (\<lambda>t.
       case t of
         None \<Rightarrow> Inl BadPointer
       | Some t \<Rightarrow> display (printModuleInfo h (module_at (store (netw m)) t)) m)"

definition shutdown :: "'d hardware \<Rightarrow> 'd screen \<Rightarrow> 'd screen result" where
  "shutdown h = calls
     [quiet (on_devices (outw h 0x604 0x2000)), colours WHITE RED,
      say h ''Error - Shutdown doesn't work on real machine!'' [], quiet resetScreenColors]"

definition do_reboot :: "'d hardware \<Rightarrow> 'd machine \<Rightarrow> 'd machine result" where
  "do_reboot h = on_netw (\<lambda>n. res_bind (returns (reboot h (dvs n))) (\<lambda>d. Inr (n\<lparr>dvs := d\<rparr>)))"

definition print_id :: "'d hardware \<Rightarrow> 'd screen \<Rightarrow> 'd screen result" where
  "print_id h s =
     (let u = users (kern s) (owner (threads (kern s) (current_thread (kern s)))) in
      say h ''user: %s uid: %d gid: %d\<newline>'' [name_arg (username u), Word (uid u), Word (gid u)] s)"

definition boot_info :: "'d hardware \<Rightarrow> bool \<Rightarrow> 'd machine \<Rightarrow> 'd machine result" where
  "boot_info h onlyMem m =
     display (printMultibootInfo h (store (netw m)) (kMultiBootInfo m) onlyMem) m"

text \<open>The table of the comparisons, in their order.\<close>

definition commands :: "'d hardware \<Rightarrow> images \<Rightarrow> (string \<times> 'd command) list" where
  "commands h im =
     [(''help'', ends (display (printHelp h))),
      (''clear'', ends (display (clearScreen h))),
      (''timers'', ends (do_timers h)),
      (''slab'', ends (do_slab h)),
      (''si'', ends (do_si h)),
      (''exit'', ends (do_krn (sys_exit 0))),
      (''f'', ends (do_krn (load_files im ALLOC_NUM))),
      (''flag'', ends (calls [set_ints False, display (itaFlag h), set_ints True])),
      (''free'', \<lambda>m. ends (display (printFree h (boot_mmap m))) m),
      (''tb'', ends (do_tb h)),
      (''tbk'', ends (do_tbk h)),
      (''bi'', ends (do_bi h)),
      (''mac'', \<lambda>m. ends (display (print_mac_address h (mac_addr (nic (netw m))))) m),
      (''tx'', ends (on_netw (send_arp_request h [192, 168, 1, 254]))),
      (''ip'', ends (on_netw (do_ip h))),
      (''dhcp'', ends (on_netw (send_dchp_discovery h))),
      (''date'', \<lambda>m. ends (display (print_date h (rtc_globals m))) m),
      (''lsof'', ends (display (each_node (print_fd h) FileDescriptors))),
      (''top'', run_and_wait (fn_top im) ''top''),
      (''ps'', run_and_wait (fn_ps im) ''ps''),
      (''k'', ends (do_krn (do_k (fn_k_simple_proc im)))),
      (''u'', ends (do_krn (do_u (fn_u_simple_proc im)))),
      (''boot-info'', ends (boot_info h False)),
      (''boot-mmap'', ends (boot_info h True)),
      (''gdt'', \<lambda>m. ends (display (printGdt h (cpu_tables m))) m),
      (''uptime'', ends (display (printUptime h))),
      (''mods'', ends (do_mods h)),
      (''shutdown'', ends (display (shutdown h))),
      (''reboot'', ends (do_reboot h)),
      (''id'', ends (display (print_id h)))]"

section \<open>The line\<close>

text \<open>The word that \<^verbatim>\<open>user_input\<close> puts into \<^verbatim>\<open>input\<close>. The two pages are as they were found.\<close>

definition command_name ::
  "'d hardware \<Rightarrow> u8 list \<Rightarrow> u8 list \<Rightarrow> u8 list \<Rightarrow> 'd screen \<Rightarrow> (u8 list \<times> 'd screen) result" where
  "command_name h line input args s =
     res_bind (strtokn (Some line) args 32 0) (\<lambda>(n, args).
       if n = 0 then
         res_bind (strlen line) (\<lambda>k. res_bind (copy_array (k + 1) line input) (\<lambda>input. Inr (input, s)))
       else
         res_bind (say h ''\<newline>'' [] s) (\<lambda>s.
         res_bind (strtokn (Some line) args 32 0) (\<lambda>(n, args).
           if n \<noteq> 0 then
             res_bind (say h ''[%d] %s\<newline>'' [Word 0, name_arg args] s) (\<lambda>s.
             res_bind (strlen args) (\<lambda>k.
             res_bind (copy_array (k + 1) args input) (\<lambda>input. Inr (input, s))))
           else Inr (input, s))))"

fun dispatch :: "(string \<times> 'd command) list \<Rightarrow> 'd command \<Rightarrow> u8 list \<Rightarrow> 'd command" where
  "dispatch [] unknown input m = unknown m"
| "dispatch ((name, f) # cs) unknown input m =
     res_bind (strcmp input (cstr name)) (\<lambda>d. if d = 0 then f m else dispatch cs unknown input m)"

definition unknown_command :: "'d hardware \<Rightarrow> u8 list \<Rightarrow> 'd command" where
  "unknown_command h input = ends (display (say h ''Command '%s' not found!\<newline>'' [name_arg input]))"

text \<open>What is left when the command has ended, at once or when the shell runs again.\<close>

definition user_input_end :: "u32 \<Rightarrow> u32 \<Rightarrow> 'd machine \<Rightarrow> 'd machine result" where
  "user_input_end input args =
     calls [do_krn (pages_do (kfree_page input)), do_krn (pages_do (kfree_page args))]"

text \<open>\<open>in0\<close> and \<open>args0\<close> are what the two new pages hold.\<close>

definition user_input ::
  "'d hardware \<Rightarrow> images \<Rightarrow> u8 list \<Rightarrow> u8 list \<Rightarrow> u8 list \<Rightarrow> 'd command" where
  "user_input h im in0 args0 line m =
     res_bind (display (say h ''\<newline>'' []) m) (\<lambda>m.
     res_bind (on_krn (on_pages (kalloc_page 0)) m) (\<lambda>(input, m).
     res_bind (on_krn (on_pages (kalloc_page 0)) m) (\<lambda>(args, m).
     res_bind (command_name h line in0 args0 (screen_of m)) (\<lambda>(name, s).
     res_bind (display (\<lambda>_. Inr s) m) (\<lambda>m.
     res_bind (dispatch (commands h im) (unknown_command h name) name m) (\<lambda>(done, m).
       if done then ends (user_input_end input args) m else Inr (False, m)))))))"

end
