(* ===== verification/Entry.thy ===== *)
theory Entry
  imports Commands
begin

text \<open>
  The kernel from its entry to the running system: \<^verbatim>\<open>kernel_main\<close> (\<^verbatim>\<open>kernel/kernel.c\<close>) with the
  parts of the start that no other theory has, the interrupts that drive the system afterwards
  (\<^verbatim>\<open>cpu/isr.c\<close>, \<^verbatim>\<open>mem/paging.c\<close>, \<^verbatim>\<open>drivers/keyboard.c\<close>, \<^verbatim>\<open>drivers/timer.c\<close>) and one round of each thread
  that the system starts (\<^verbatim>\<open>bin/\<close>).
\<close>

section \<open>The system\<close>

text \<open>\<open>layout\<close> has the addresses that the linker gives and the stack register, and \<open>bridges\<close> bounds
  the depth of the search for the card.\<close>

record layout =
  gdt_addr :: u32
  tss_addr :: u32
  stack_address :: u32
  isr_entry :: "nat \<Rightarrow> u32"
  irq_entry :: "nat \<Rightarrow> u32"
  fn_init :: u32
  fn_keyboard_callback :: u32
  fn_scheduler_handler :: u32
  fn_packet_handler :: u32
  esp_register :: u32
  bridges :: nat

record 'd system =
  mach :: "'d machine"
  stack_pointer :: u32
  idt :: "idt_gate list"
  interrupt_handlers :: "nat \<Rightarrow> u32"

definition on_mach :: "('d machine \<Rightarrow> 'd machine result) \<Rightarrow> 'd system \<Rightarrow> 'd system result" where
  "on_mach f s = res_bind (f (mach s)) (\<lambda>m. Inr (s\<lparr>mach := m\<rparr>))"

definition printing :: "('d screen \<Rightarrow> 'd screen result) \<Rightarrow> 'd system \<Rightarrow> 'd system result" where
  "printing f = on_mach (display f)"

definition ok :: "'d hardware \<Rightarrow> string \<Rightarrow> 'd system \<Rightarrow> 'd system result" where
  "ok h t = printing (kPrintOKMessage h (map of_char t))"

definition on_devs :: "('d \<Rightarrow> 'd) \<Rightarrow> 'd machine \<Rightarrow> 'd machine" where
  "on_devs f m = m\<lparr>netw := (netw m)\<lparr>dvs := f (dvs (netw m))\<rparr>\<rparr>"

section \<open>Memory\<close>

text \<open>\<^verbatim>\<open>gdt_install\<close> is called first: the stack pointer it puts into the task state segment is read
  before \<^verbatim>\<open>init_memory_ptrs\<close> sets it.\<close>

definition install_gdt :: "layout \<Rightarrow> 'd system \<Rightarrow> 'd system result" where
  "install_gdt lay s =
     res_bind (gdt_install (gdt_addr lay) (tss_addr lay) (stack_pointer s) (cpu_tables (mach s))) (\<lambda>c.
       Inr (s\<lparr>mach := (mach s)\<lparr>cpu_tables := c\<rparr>\<rparr>))"

definition init_memory_ptrs :: "'d hardware \<Rightarrow> layout \<Rightarrow> 'd system \<Rightarrow> 'd system result" where
  "init_memory_ptrs h lay s =
     (let s = s\<lparr>stack_pointer := stack_address lay\<rparr> in
      res_bind (printing (say h ''Stack Pointer: 0x%x\<newline>'' [Word (stack_pointer s)]) s) (\<lambda>s.
      res_bind (on_mach (do_krn (pages_do (\<lambda>p. Inr (p\<lparr>free_mem_addr := stack_pointer s\<rparr>)))) s)
        (printing (\<lambda>x. say h ''Free memory address: 0x%x\<newline>''
          [Word (free_mem_addr (pages (kheap (paging (kern x)))))] x))))"

text \<open>\<^verbatim>\<open>save_multiboot2_info\<close> and \<^verbatim>\<open>parse_multiboot_info\<close> with what they print.\<close>

definition save_boot_info :: "'d hardware \<Rightarrow> u32 \<Rightarrow> u32 \<Rightarrow> 'd machine \<Rightarrow> 'd machine result" where
  "save_boot_info h addr magic m =
     res_bind (display (say h ''Bootinfo address in save: 0x%x Magic:  0x%x Size: %d\<newline>''
       [Word addr, Word magic, Word (ucast (read16 (store (netw m)) addr))]) m) (\<lambda>m.
       let (info, mem, a) =
             save_multiboot2_info addr magic (store (netw m)) (free_mem_addr (pages (heap_of m)))
       in do_krn (pages_do (\<lambda>p. Inr (p\<lparr>free_mem_addr := a\<rparr>)))
            (m\<lparr>netw := (netw m)\<lparr>store := mem\<rparr>, kMultiBootInfo := info\<rparr>))"

definition parse_boot_info :: "'d hardware \<Rightarrow> 'd machine \<Rightarrow> 'd machine result" where
  "parse_boot_info h m =
     res_bind (parse_multiboot_info (store (netw m)) (kMultiBootInfo m) (boot_mmap m)) (\<lambda>(r, b).
       let m = m\<lparr>boot_mmap := b\<rparr> in
       if r \<noteq> 0 then display (say h ''Invalid magic number: 0x%x\<newline>'' [Word (mbi_magic (kMultiBootInfo m))]) m
       else display (calls
         [say h ''High mem addr: %x\<newline>'' [Word (highest_mem_addess b)],
          say h ''Total usable bytes %u\<newline>'' [Word (highest_mem_addess b)],
          say h ''Total pages [0 - %u]\<newline>'' [Word (total_pages b)]]) m)"

text \<open>\<^verbatim>\<open>init_memory_alloc\<close> with its messages. They do not change memory or its counters: all are printed
  at the end, those that the code prints early with the values they had then.\<close>

definition init_alloc :: "'d hardware \<Rightarrow> 'd machine \<Rightarrow> 'd machine result" where
  "init_alloc h m =
     (let used = (\<lambda>m. total_used_memory (pages (heap_of m)) div 1024 div 1024);
          before = used m in
      res_bind (do_krn (pages_do (init_memory_alloc (total_pages (boot_mmap m)))) m) (\<lambda>m.
        let p = pages (heap_of m);
            first = PA (free_mem_addr p) div PAGE_SIZE + 1 in
        display (calls
          [say h ''Total kernel pages %d\<newline>Total normal pages %d\<newline>Total fast pages %d\<newline>''
             [Word (total_kernel_pages p), Word (total_normal_pages p), Word (total_fast_pages p)],
           say h ''Alloc kernel buddy system\<newline>'' [],
           say h ''Alloc fast buddy system\<newline>'' [],
           say h ''Alloc normal buddy system\<newline>'' [],
           say h ''Total free memory=%dMb\<newline>'' [Word before],
           say h ''You've used the first %d pages, allocating now %d 4Mb pages...\<newline>''
             [Word first, Word (first div word_of_nat (PAGES_PER_BLOCK 10) + 1)],
           say h ''Total free memory=%dMb\<newline>'' [Word (used m)]]) m))"

text \<open>The allocators of the lower layers keep the state words of their two locks themselves.\<close>

definition init_locks :: "kernel \<Rightarrow> kernel result" where
  "init_locks k =
     res_bind (init_kernel_locks k) (\<lambda>(_, k).
     res_bind (pages_do (\<lambda>p. Inr (p\<lparr>kmem_lock := LOCK_FREE\<rparr>)) k)
       (heap_do (\<lambda>p. Inr (p\<lparr>slab_lock := LOCK_FREE\<rparr>))))"

definition upd_mem :: "u32 \<Rightarrow> (mem_desc \<Rightarrow> mem_desc) \<Rightarrow> kernel \<Rightarrow> kernel" where
  "upd_mem a f k = k\<lparr>mems := (mems k)(a := f (mems k a))\<rparr>"

definition init_kernel_vma :: "kernel \<Rightarrow> kernel result" where
  "init_kernel_vma k =
     res_bind (on_heap (kmalloc 52) k) (\<lambda>(m, k).
       let k = upd_mem m (\<lambda>x. x\<lparr>areas_count := 1\<rparr>) (k\<lparr>kernel_mem := m\<rparr>);
           k = on_areas (LIST_INIT (VmAreas m)) k in
     res_bind (on_paging (create_vmregion KERNEL_VIRTUAL_ADDRESS_BASE 0xFFFFFFFF
         (PA KERNEL_VIRTUAL_ADDRESS_BASE) 0 VMA_REG) k) (\<lambda>(v, k).
       let k = on_areas (list_add_tail (VmAreas m) (VmArea v)) k
       in Inr (upd_mem m (\<lambda>x. x\<lparr>usage_counter := 1\<rparr>) k)))"

text \<open>\<^verbatim>\<open>init_kernel_paging\<close>; the directory is then loaded by routines in assembly.\<close>

definition init_paging :: "'d hardware \<Rightarrow> 'd machine \<Rightarrow> 'd machine result" where
  "init_paging h m =
     (let num_entries = drop_bit 10 (total_kernel_pages (pages (heap_of m))) in
      calls
       [display (say h ''Setting up kernel paging...\<newline>'' []),
        do_krn (\<lambda>k. res_bind (init_kernel_paging (paging k)) (\<lambda>p. Inr (k\<lparr>paging := p\<rparr>))),
        display (say h ''Total kernel paging system size: %d Kb\<newline>'' [Word (num_entries * 4096 div 1024)]),
        display (say h ''Max kernel  size: %d Mb\<newline>'' [Word (num_entries * 4)])] m)"

section \<open>Interrupts\<close>

definition install_isr :: "'d hardware \<Rightarrow> layout \<Rightarrow> 'd system \<Rightarrow> 'd system result" where
  "install_isr h lay s =
     res_bind (isr_install (isr_entry lay) (irq_entry lay) (idt s)) (\<lambda>g.
       Inr (s\<lparr>idt := g, mach := on_devs (remap_pic h) (mach s)\<rparr>))"

definition register :: "u8 \<Rightarrow> u32 \<Rightarrow> 'd system \<Rightarrow> 'd system" where
  "register n f s = s\<lparr>interrupt_handlers := register_interrupt_handler n f (interrupt_handlers s)\<rparr>"

definition IRQ1 :: u32 where "IRQ1 = 33"

definition init_keyboard :: "layout \<Rightarrow> 'd system \<Rightarrow> 'd system" where
  "init_keyboard lay = register (ucast IRQ1) (fn_keyboard_callback lay)"

definition init_scheduler_timer :: "'d hardware \<Rightarrow> layout \<Rightarrow> 'd system \<Rightarrow> 'd system" where
  "init_scheduler_timer h lay s =
     (let s = s\<lparr>mach := on_devs (set_timer_phase h (word_of_nat RTC_PHASE)) (mach s)\<rparr>;
          s = register (ucast IRQ8) (fn_scheduler_handler lay) s
      in s\<lparr>mach := (mach s)\<lparr>cpu_tables := (cpu_tables (mach s))\<lparr>tss_esp0 := esp_register lay, tss_ss0 := 0x10\<rparr>\<rparr>\<rparr>)"

text \<open>The driver's messages follow its initialisation here.\<close>

definition init_networking :: "'d hardware \<Rightarrow> layout \<Rightarrow> 'd system \<Rightarrow> 'd system result" where
  "init_networking h lay s =
     res_bind (rtl8139_init (bridges lay) h (netw (mach s))) (\<lambda>(net_irq, n).
       let s = s\<lparr>mach := (mach s)\<lparr>netw := n\<rparr>\<rparr>; dev = nic n in
     res_bind (printing (calls
       [say h ''rtl8139 use %s access (base: %x)\<newline>''
          [Text (Some (map of_char (if bar_type dev = 0 then ''mem based'' else ''port based''))),
           Word (if bar_type dev \<noteq> 0 then ucast (io_base dev) else mem_base dev)],
        print_mac_address h (mac_addr dev),
        say h ''IRQ Number: %d\<newline>'' [Word net_irq]]) s) (\<lambda>s.
       Inr (register (ucast (net_irq + 32)) (fn_packet_handler lay) s)))"

definition irq_install :: "'d hardware \<Rightarrow> layout \<Rightarrow> 'd system \<Rightarrow> 'd system result" where
  "irq_install h lay = calls
     [quiet (init_keyboard lay), printing (quiet (init_cursor h)),
      quiet (init_scheduler_timer h lay), init_networking h lay,
      on_mach (do_krn (\<lambda>k. Inr (enable_int True k)))]"

section \<open>\<^verbatim>\<open>kernel_main\<close>\<close>

text \<open>\<^verbatim>\<open>pci_init\<close> fills a constant table (\<^const>\<open>pci_size_map\<close>).\<close>

definition kernel_main :: "'d hardware \<Rightarrow> layout \<Rightarrow> u32 \<Rightarrow> u32 \<Rightarrow> 'd system \<Rightarrow> 'd system result" where
  "kernel_main h lay magic addr = calls
     [printing (clearScreen h),
      printing (quiet (setTextColor WHITE)),
      printing (say h ''Installing GDT...\<newline>'' []),
      install_gdt lay,
      ok h ''GTD Installed!\<newline>'',
      init_memory_ptrs h lay,
      on_mach (save_boot_info h addr magic),
      on_mach (parse_boot_info h),
      ok h ''Installing IRQs/ISRs...\<newline>'',
      install_isr h lay,
      ok h ''IRQs/ISRs installed!\<newline>'',
      ok h ''Init Buddy...\<newline>'',
      on_mach (init_alloc h),
      on_mach (do_krn init_locks),
      on_mach (do_krn (heap_do init_slab_cache)),
      ok h ''Buddy initialized!\<newline>'',
      on_mach (do_krn init_kernel_vma),
      ok h ''Enabling kernel paging...'',
      on_mach (init_paging h),
      ok h ''Kernel paging enabled!'',
      on_mach (do_krn init_files),
      ok h ''Enabling kernel procs...'',
      on_mach (do_krn (init_kernel_proc (fn_init lay))),
      on_mach (do_krn (\<lambda>k. Inr (init_work_queue k))),
      ok h ''Kernel procs enabled!'',
      ok h ''Kernel inizialized!'',
      printing (quiet resetScreenColors),
      irq_install h lay,
      on_mach (do_krn (\<lambda>k. Inr (k\<lparr>rand_next := srand (ucast (ticks k))\<rparr>)))]"

text \<open>The processor is halted after \<^verbatim>\<open>panic\<close>.\<close>

definition panic :: "'d hardware \<Rightarrow> u8 list \<Rightarrow> 'd machine \<Rightarrow> 'd machine result" where
  "panic h s = calls
     [display (kprintfColor h RED s []), do_krn (\<lambda>k. Inr (snd (disable_int k)))]"

section \<open>Exceptions\<close>

text \<open>\<^verbatim>\<open>exception_messages\<close> is not used by any function.\<close>

definition exception_messages :: "string list" where
  "exception_messages =
     [''Division By Zero'', ''Debug'', ''Non Maskable Interrupt'', ''Breakpoint'',
      ''Into Detected Overflow'', ''Out of Bounds'', ''Invalid Opcode'', ''No Coprocessor'',
      ''Double Fault'', ''Coprocessor Segment Overrun'', ''Bad TSS'', ''Segment Not Present'',
      ''Stack Fault'', ''General Protection Fault'', ''Page Fault'', ''Unknown Interrupt'',
      ''Coprocessor Fault'', ''Alignment Check'', ''Machine Check''] @ replicate 13 ''Reserved''"

definition get_sig_name :: "u32 \<Rightarrow> string" where
  "get_sig_name sig_num =
     (if sig_num = SIGKILL then ''SIGKILL'' else if sig_num = SIGCKO then ''SIGCKO'' else ''UNKSIG'')"

record trap =
  regs_of :: registers
  trap_no :: u32
  trap_err :: u32
  trap_cs :: u32

definition end_current :: "kernel \<Rightarrow> kernel result" where
  "end_current k = res_bind (kill_process (current_thread k) k) reschedule"

definition gpFaultHandler :: "'d hardware \<Rightarrow> trap \<Rightarrow> 'd machine \<Rightarrow> 'd machine result" where
  "gpFaultHandler h t m =
     (let c = current_thread (krn (netw m)); r = regs_of t in
      calls
       [display (colours WHITE RED),
        display (if c \<noteq> NULL then printProcSimple h c else Inr),
        display (say h ''GP Fault CS:EIP 0x%x:0x%x ErrNo: %d Syscall: %d\<newline>''
          [Word (trap_cs t), Word (r_eip r), Word (trap_err t), Word (r_ebx r)]),
        display (quiet resetScreenColors),
        do_krn end_current] m)"

definition bit_arg :: "bool \<Rightarrow> arg" where "bit_arg b = Word (if b then 1 else 0)"

text \<open>The label \<^verbatim>\<open>bad_area\<close> of \<^verbatim>\<open>pageFaultHandler\<close>.\<close>

definition bad_area :: "'d hardware \<Rightarrow> u32 \<Rightarrow> trap \<Rightarrow> 'd machine \<Rightarrow> 'd machine result" where
  "bad_area h fault_address t m =
     (let e = trap_err t; k = krn (netw m) in
      calls
       [display (colours WHITE RED),
        display (say h ''Page fault CS:EIP 0x%x:0x%x Code: %d\<newline>''
          [Word (trap_cs t), Word (r_eip (regs_of t)), Word e]),
        display (say h ''Addr: 0x%x, UMode: %d, PermVio: %d, W: %d\<newline>''
          [Word fault_address, bit_arg (e AND PF_U \<noteq> 0), bit_arg (e AND PF_P \<noteq> 0), bit_arg (e AND PF_W \<noteq> 0)]),
        display (say h ''Killing PID: %d\<newline>'' [pid_arg (current_thread k) k]),
        display (quiet resetScreenColors),
        do_krn end_current] m)"

definition running :: "kernel \<Rightarrow> pthread option" where
  "running k =
     (if current_thread k = NULL then None
      else let t = threads k (current_thread k) in Some \<lparr>t_page_dir = th_page_dir t, t_mem = th_mem t\<rparr>)"

definition page_fault :: "'d hardware \<Rightarrow> u32 \<Rightarrow> trap \<Rightarrow> 'd machine \<Rightarrow> 'd machine result" where
  "page_fault h fault_address t m =
     (let k = krn (netw m) in
      res_bind (pageFaultHandler fault_address (trap_err t) (running k) (paging k)) (\<lambda>(out, p).
        let m = m\<lparr>netw := (netw m)\<lparr>krn := k\<lparr>paging := p\<rparr>\<rparr>\<rparr>
        in if out = BadArea then bad_area h fault_address t m else Inr m))"

text \<open>\<^verbatim>\<open>sys_printf\<close> prints the text of the caller as a format, without arguments.\<close>

definition sys_printf :: "'d hardware \<Rightarrow> u8 list \<Rightarrow> 'd machine \<Rightarrow> 'd machine result" where
  "sys_printf h s = display (kprintf h s [])"

definition sys_sleepms :: "u32 \<Rightarrow> kernel \<Rightarrow> kernel result" where
  "sys_sleepms millis = sleep_ms millis"

text \<open>An exception. \<open>fault_address\<close> is the register CR2, \<open>text\<close> reads the caller's memory. The second
  component of the result are the caller's registers, \<open>None\<close> when another thread runs.\<close>

definition exception ::
  "'d hardware \<Rightarrow> call_env \<Rightarrow> (u32 \<Rightarrow> u8 list) \<Rightarrow> u32 \<Rightarrow> trap \<Rightarrow> 'd machine \<Rightarrow> (registers option \<times> 'd machine) result" where
  "exception h env user_text fault_address t m =
     (case isr_handler (trap_no t) (trap_err t) of
        PageFault \<Rightarrow> res_bind (page_fault h fault_address t m) (\<lambda>m. Inr (Some (regs_of t), m))
      | SystemCall \<Rightarrow>
          if r_eax (regs_of t) = SYS_PRINTF then
            res_bind (sys_printf h (user_text (r_ebx (regs_of t))) m) (\<lambda>m. Inr (Some (next_insn (regs_of t)), m))
          else on_krn (syscall_handler env (regs_of t)) m
      | ProtectionFault \<Rightarrow> res_bind (gpFaultHandler h t m) (\<lambda>m. Inr (None, m))
      | Ignored \<Rightarrow> Inr (Some (regs_of t), m))"

section \<open>Device interrupts\<close>

text \<open>The devices as the hardware of the whole machine.\<close>

definition on_dev_read :: "('d \<Rightarrow> 'a \<times> 'd) \<Rightarrow> 'd machine \<Rightarrow> 'a \<times> 'd machine" where
  "on_dev_read f m = (let (v, d) = f (dvs (netw m)) in (v, m\<lparr>netw := (netw m)\<lparr>dvs := d\<rparr>\<rparr>))"

definition machine_hardware :: "'d hardware \<Rightarrow> 'd machine hardware" where
  "machine_hardware h =
     \<lparr>hw_in8 = \<lambda>p. on_dev_read (hw_in8 h p), hw_out8 = \<lambda>p v. on_devs (hw_out8 h p v),
      hw_in16 = \<lambda>p. on_dev_read (hw_in16 h p), hw_out16 = \<lambda>p v. on_devs (hw_out16 h p v),
      hw_in32 = \<lambda>p. on_dev_read (hw_in32 h p), hw_out32 = \<lambda>p v. on_devs (hw_out32 h p v)\<rparr>"

definition keyboard_interrupt :: "'d hardware \<Rightarrow> 'd machine \<Rightarrow> 'd machine result" where
  "keyboard_interrupt h m =
     (let m = on_devs (outb h 0x20 0x20) m;
          (scancode, d) = inb h 0x60 (dvs (netw m));
          m = on_devs (\<lambda>_. d) m
      in do_krn (keyboard_callback scancode) m)"

text \<open>The card's handler with its message for a packet sent; the message of \<^verbatim>\<open>receive_packet\<close> after a
  hundred packets in one interrupt is left out.\<close>

definition TOK :: u16 where "TOK = 4"

definition packet_interrupt :: "'d hardware \<Rightarrow> 'd machine \<Rightarrow> 'd machine result" where
  "packet_interrupt h m =
     (let base = io_base (nic (netw m));
          (status, d) = inw h (base + 0x3e) (dvs (netw m));
          m = on_devs (\<lambda>_. d) m in
      res_bind (if status AND TOK \<noteq> 0 then display (say h ''Packet sent\<newline>'' []) m else Inr m) (\<lambda>m.
      res_bind (if status AND ROK \<noteq> 0 then on_netw (receive_packet h) m else Inr m) (\<lambda>m.
        Inr (on_devs (outw h (base + 0x3E) 0x5) m))))"

text \<open>Register C of the clock is read so that it interrupts again. A switch to another thread also
  ends the interrupt at the controllers before it.\<close>

definition clock_ack :: "'d hardware \<Rightarrow> 'd \<Rightarrow> 'd" where
  "clock_ack h d = snd (inb h 0x71 (outb h 0x70 0x0C d))"

definition clock_interrupt :: "'d hardware \<Rightarrow> u32 \<Rightarrow> 'd machine \<Rightarrow> 'd machine result" where
  "clock_interrupt h int_no m =
     (let c = current_thread (krn (netw m)) in
      res_bind (do_krn scheduler_handler m) (\<lambda>m.
        let m = on_devs (clock_ack h) m in
        Inr (if current_thread (krn (netw m)) \<noteq> c \<and> int_no \<ge> IRQ8
             then on_devs (outb h 0x20 0x20) (on_devs (outb h 0xA0 0x20) m) else m)))"

definition run_handler :: "'d hardware \<Rightarrow> layout \<Rightarrow> u32 \<Rightarrow> u32 \<Rightarrow> 'd machine \<Rightarrow> 'd machine result" where
  "run_handler h lay int_no f m =
     (if f = fn_keyboard_callback lay then keyboard_interrupt h m
      else if f = fn_scheduler_handler lay then clock_interrupt h int_no m
      else if f = fn_packet_handler lay then packet_interrupt h m
      else Inl BadPointer)"

definition interrupt :: "'d hardware \<Rightarrow> layout \<Rightarrow> u32 \<Rightarrow> 'd system \<Rightarrow> 'd system result" where
  "interrupt h lay int_no s =
     on_mach (irq_handler (machine_hardware h) (interrupt_handlers s) (run_handler h lay int_no) int_no) s"

end
