(* ===== verification/Programs.thy ===== *)
theory Programs
  imports Entry
begin

text \<open>
  What threads run: the library of user programs (\<^verbatim>\<open>external/libc.c\<close>) with its system calls, the
  program \<^verbatim>\<open>external/prog.c\<close>, the demonstration threads of \<^verbatim>\<open>bin/simple_k_thread.c\<close> and
  \<^verbatim>\<open>bin/simple_u_thread.c\<close>, and the rounds of the system's own threads (\<^verbatim>\<open>bin/idle.c\<close>, \<^verbatim>\<open>bin/gui.c\<close>,
  \<^verbatim>\<open>bin/screen.c\<close>, \<^verbatim>\<open>bin/kswap.c\<close>, \<^verbatim>\<open>bin/init.c\<close>). A thread is the sequence of its calls: every call may
  switch to another thread, and the rest runs when the thread is back.
\<close>

section \<open>Programs\<close>

text \<open>\<open>Sys\<close> is \<^verbatim>\<open>int 31\<close> with the registers it is entered with; what follows depends on the value it
  returns. \<open>Do\<close> is a call of a kernel function. A loop for ever is one round of it.\<close>

datatype 'd program =
    Sys u32 u32 u32 u32 "u32 \<Rightarrow> 'd program"
  | Do "'d machine \<Rightarrow> (u32 \<times> 'd machine) result" "u32 \<Rightarrow> 'd program"
  | Done

text \<open>One call of the thread that runs. What is left starts from the value of the system call, which
  a caller that was switched away from gets later (\<open>None\<close>).\<close>

definition call_trap :: "u32 \<Rightarrow> u32 \<Rightarrow> u32 \<Rightarrow> u32 \<Rightarrow> registers \<Rightarrow> trap" where
  "call_trap num p1 p2 p3 r =
     \<lparr>regs_of = r\<lparr>r_eax := num, r_ebx := p1, r_ecx := p2, r_edx := p3\<rparr>, trap_no = 13, trap_err = 250,
      trap_cs = USER_CS\<rparr>"

fun step_program ::
  "'d hardware \<Rightarrow> call_env \<Rightarrow> (u32 \<Rightarrow> u8 list) \<Rightarrow> registers \<Rightarrow> 'd program \<Rightarrow> 'd machine \<Rightarrow>
   (u32 option \<times> (u32 \<Rightarrow> 'd program) \<times> 'd machine) result" where
  "step_program h env user_text r (Sys num p1 p2 p3 rest) m =
     res_bind (exception h env user_text 0 (call_trap num p1 p2 p3 r) m) (\<lambda>(out, m).
       Inr (map_option r_eax out, rest, m))"
| "step_program h env user_text r (Do f rest) m = res_bind (f m) (\<lambda>(v, m). Inr (Some v, rest, m))"
| "step_program h env user_text r Done m = Inr (None, (\<lambda>_. Done), m)"

section \<open>The library\<close>

text \<open>Arguments that a call does not have are left as they were, 0 here.\<close>

definition exit_call :: "u32 \<Rightarrow> 'd program" where
  "exit_call code = Sys SYS_EXIT code 0 0 (\<lambda>_. Done)"

definition sleepms :: "u32 \<Rightarrow> 'd program \<Rightarrow> 'd program" where
  "sleepms ms rest = Sys SYS_SLEEPMS ms 0 0 (\<lambda>_. rest)"

definition random :: "u32 \<Rightarrow> (u32 \<Rightarrow> 'd program) \<Rightarrow> 'd program" where
  "random limit = Sys SYS_RANDOM limit 0 0"

definition write_call :: "u32 \<Rightarrow> u32 \<Rightarrow> u32 \<Rightarrow> (u32 \<Rightarrow> 'd program) \<Rightarrow> 'd program" where
  "write_call fd buf len = Sys SYS_WRITE fd buf len"

definition getpid :: "(u32 \<Rightarrow> 'd program) \<Rightarrow> 'd program" where
  "getpid = Sys SYS_GETPID 0 0 0"

definition clone :: "u32 \<Rightarrow> (u32 \<Rightarrow> 'd program) \<Rightarrow> 'd program" where
  "clone flags = Sys SYS_CLONE flags 0 0"

definition wait4_call :: "u32 \<Rightarrow> 'd program \<Rightarrow> 'd program" where
  "wait4_call pid rest = Sys SYS_WAIT4 pid 0 0 (\<lambda>_. rest)"

definition kill_call :: "u32 \<Rightarrow> u32 \<Rightarrow> (u32 \<Rightarrow> 'd program) \<Rightarrow> 'd program" where
  "kill_call pid sig = Sys SYS_KILL pid sig 0"

definition printf :: "u32 \<Rightarrow> 'd program \<Rightarrow> 'd program" where
  "printf s rest = Sys SYS_PRINTF s 0 0 (\<lambda>_. rest)"

text \<open>\<^verbatim>\<open>printChar\<close> writes the character and its attribute from its stack, at the addresses \<open>ca\<close> and \<open>aa\<close>
  of its two arguments; \<^verbatim>\<open>printf1\<close> each character of a text and a fixed attribute.\<close>

definition lib_printChar :: "u32 \<Rightarrow> u32 \<Rightarrow> 'd program \<Rightarrow> 'd program" where
  "lib_printChar ca aa rest = write_call 1 ca 1 (\<lambda>_. write_call 1 aa 1 (\<lambda>_. rest))"

fun printf1_loop :: "u32 \<Rightarrow> u32 \<Rightarrow> nat list \<Rightarrow> 'd program \<Rightarrow> 'd program" where
  "printf1_loop s att [] rest = rest"
| "printf1_loop s att (i # is) rest =
     write_call 1 (s + word_of_nat i) 1 (\<lambda>_. write_call 1 att 1 (\<lambda>_. printf1_loop s att is rest))"

definition printf1 :: "u32 \<Rightarrow> nat \<Rightarrow> u32 \<Rightarrow> 'd program \<Rightarrow> 'd program" where
  "printf1 s l att rest = printf1_loop s att [0..<l] rest"

text \<open>\<^verbatim>\<open>itoa\<close> works in the caller's buffer: it writes the digits from the last one on, ends them and
  reverses them where they are.\<close>

function digit_loop :: "u8 list \<Rightarrow> nat \<Rightarrow> u32 \<Rightarrow> u32 \<Rightarrow> (u8 list \<times> nat) result" where
  "digit_loop buf p ud divisor =
     (let remainder = ud mod divisor;
          c = ucast (if sint remainder < 10 then remainder + 48 else remainder + 97 - 10);
          ud' = ud div divisor in
      res_bind (arr_set buf p c) (\<lambda>buf.
        if divisor > 1 \<and> ud' \<noteq> 0 then digit_loop buf (p + 1) ud' divisor else Inr (buf, p + 1)))"
  by pat_completeness auto
termination
  by (relation "measure (\<lambda>(_, _, ud, _). unat ud)")
    (auto simp: unat_div word_less_nat_alt unat_gt_0 intro!: div_less_dividend)

declare digit_loop.simps [simp del]

function swap_loop :: "u8 list \<Rightarrow> nat \<Rightarrow> nat \<Rightarrow> u8 list result" where
  "swap_loop buf p1 p2 =
     (if p1 < p2 then
        res_bind (arr_get buf p1) (\<lambda>tmp.
        res_bind (arr_get buf p2) (\<lambda>x.
        res_bind (arr_set buf p1 x) (\<lambda>buf.
        res_bind (arr_set buf p2 tmp) (\<lambda>buf. swap_loop buf (p1 + 1) (p2 - 1)))))
      else Inr buf)"
  by pat_completeness auto
termination by (relation "measure (\<lambda>(_, p1, p2). p2 - p1)") auto

declare swap_loop.simps [simp del]

definition lib_itoa :: "u8 list \<Rightarrow> u8 \<Rightarrow> u32 \<Rightarrow> u8 list result" where
  "lib_itoa buf base d =
     res_bind
       (if base = 100 \<and> sint d < 0 then res_bind (arr_set buf 0 45) (\<lambda>buf. Inr (buf, 1, - d, 10))
        else if base = 120 then Inr (buf, 0, d, 16)
        else Inr (buf, 0, d, 10)) (\<lambda>(buf, start, ud, divisor).
     res_bind (digit_loop buf start ud divisor) (\<lambda>(buf, p).
     res_bind (arr_set buf p 0) (\<lambda>buf. swap_loop buf start (p - 1))))"

text \<open>\<^verbatim>\<open>printfLib\<close>: the characters it prints, each with \<^verbatim>\<open>printChar\<close>. The arguments are words, strings are
  addresses whose text \<open>user_text\<close> gives; the buffer of 40 bytes is as it was found.\<close>

definition number_text :: "u8 list \<Rightarrow> u8 \<Rightarrow> u32 \<Rightarrow> u8 list result" where
  "number_text buf c w = res_bind (lib_itoa buf c w) (\<lambda>b. Inr (takeWhile (\<lambda>x. x \<noteq> 0) b))"

definition lib_convert ::
  "(u32 \<Rightarrow> u8 list) \<Rightarrow> u8 list \<Rightarrow> bool \<Rightarrow> nat \<Rightarrow> u8 \<Rightarrow> u32 list \<Rightarrow> (u8 list \<times> u32 list) result" where
  "lib_convert user_text buf pad0 pad c args =
     (case args of
        [] \<Rightarrow> Inl BadPointer
      | w # args \<Rightarrow>
          if c \<in> {100, 117, 120} then
            res_bind (number_text buf c w) (\<lambda>p. Inr (padded pad0 pad p, args))
          else if c = 115 then
            Inr (padded pad0 pad (if w = 0 then null_text else user_text w), args)
          else Inr ([ucast w], args))"

definition lib_directive ::
  "(u32 \<Rightarrow> u8 list) \<Rightarrow> u8 list \<Rightarrow> u8 list \<Rightarrow> u32 list \<Rightarrow> (u8 list \<times> u8 list \<times> u32 list) result" where
  "lib_directive user_text buf fmt args =
     res_bind (arr_get fmt 0) (\<lambda>c.
     res_bind (if c = 48 then res_bind (arr_get fmt 1) (\<lambda>d. Inr (True, d, tl fmt)) else Inr (False, c, fmt))
       (\<lambda>(pad0, c, fmt).
     res_bind (if 48 \<le> sint c \<and> sint c \<le> 57
               then res_bind (arr_get fmt 1) (\<lambda>d. Inr (unat c - 48, d, tl fmt)) else Inr (0, c, fmt))
       (\<lambda>(pad, c, fmt).
     res_bind (lib_convert user_text buf pad0 pad c args) (\<lambda>(txt, args). Inr (txt, tl fmt, args)))))"

lemma lib_directive_length:
  assumes "lib_directive user_text buf fmt args = Inr (txt, fmt', args')"
  shows "length fmt' \<le> length fmt"
  using assms
  by (auto simp: lib_directive_def res_bind_Inr_iff arr_get_Inr_iff
      split: if_splits list.splits prod.splits)

function printfLib :: "(u32 \<Rightarrow> u8 list) \<Rightarrow> u8 list \<Rightarrow> u8 list \<Rightarrow> u32 list \<Rightarrow> u8 list result" where
  "printfLib user_text buf fmt args =
     res_bind (arr_get fmt 0) (\<lambda>c.
       if c = 0 then Inr []
       else if c \<noteq> 37 then res_bind (printfLib user_text buf (tl fmt) args) (\<lambda>r. Inr (c # r))
       else res_bind (lib_directive user_text buf (tl fmt) args) (\<lambda>(t, fmt, args).
         res_bind (printfLib user_text buf fmt args) (\<lambda>r. Inr (t @ r))))"
  by pat_completeness auto
termination
  by (relation "measure (\<lambda>(_, _, fmt, _). length fmt)")
    (auto simp: arr_get_Inr_iff neq_Nil_conv dest!: lib_directive_length)

declare printfLib.simps [simp del]

section \<open>The program\<close>

fun child_loop :: "nat \<Rightarrow> 'd program" where
  "child_loop 0 = exit_call 0"
| "child_loop (Suc n) = sleepms 1000 (child_loop n)"

definition start_program :: "'d program" where
  "start_program =
     sleepms 3000 (clone CLONE_VM (\<lambda>pid.
       if pid = 0 then child_loop 10
       else sleepms 1000 (wait4_call pid (exit_call 0))))"

section \<open>Demonstration threads\<close>

definition krn_do :: "(kernel \<Rightarrow> kernel result) \<Rightarrow> 'd program \<Rightarrow> 'd program" where
  "krn_do f rest = Do (\<lambda>m. res_bind (do_krn f m) (\<lambda>m. Inr (0, m))) (\<lambda>_. rest)"

definition rand_below :: "u32 \<Rightarrow> (u32 \<Rightarrow> kernel \<Rightarrow> kernel result) \<Rightarrow> kernel \<Rightarrow> kernel result" where
  "rand_below n f k = (let (r, x) = rand (rand_next k) in f (r mod n) (k\<lparr>rand_next := x\<rparr>))"

definition k_child_proc :: "'d program" where
  "k_child_proc = krn_do (rand_below 5000 sleep_ms) (krn_do (sys_exit 0) Done)"

text \<open>The creation of a child and of a loaded program, to which the thread then switches.\<close>

definition spawn_child :: "u32 \<Rightarrow> kernel \<Rightarrow> kernel result" where
  "spawn_child f k =
     res_bind (create_kernel_thread f (cstr ''k-child'') k) (\<lambda>(t, k).
       Inr (wake_up_thread t (upd_thread t (\<lambda>x. x\<lparr>nice := 9\<rparr>) k)))"

definition spawn_and_switch :: "u32 \<Rightarrow> images \<Rightarrow> kernel \<Rightarrow> kernel result" where
  "spawn_and_switch f im k =
     res_bind (spawn_child f k) (\<lambda>k.
     res_bind (load_elf (stack_flags im) (files_start im) (files_header im) k) (\<lambda>(run_me, k).
       Inr (switch_to_thread run_me (wake_up_thread run_me k))))"

fun repeat_call :: "nat \<Rightarrow> (kernel \<Rightarrow> kernel result) \<Rightarrow> 'd program \<Rightarrow> 'd program" where
  "repeat_call 0 f rest = rest"
| "repeat_call (Suc n) f rest = krn_do f (repeat_call n f rest)"

definition k_simple_start :: "'d program" where
  "k_simple_start = krn_do (rand_below 300 sleep_ms) Done"

definition k_simple_round :: "u32 \<Rightarrow> images \<Rightarrow> 'd program" where
  "k_simple_round k_child im =
     krn_do (sleep_ms 2000)
       (repeat_call 10 (spawn_and_switch k_child im)
         (krn_do (\<lambda>k. res_bind (sys_wait4all k) (\<lambda>(_, k). Inr k))
           (krn_do (sleep_ms 30000) Done)))"

definition u_child_proc :: "'d program" where
  "u_child_proc = sleepms 2000 (exit_call 0)"

text \<open>The two children of the user thread have no memory descriptor (NULL). The report names the second
  one. After five rounds more than the first the thread ends.\<close>

definition spawn_user :: "u32 \<Rightarrow> kernel \<Rightarrow> (u32 \<times> kernel) result" where
  "spawn_user f k =
     res_bind (create_user_thread f NULL NULL (cstr ''child'') k) (\<lambda>(t, k).
       Inr (t, wake_up_thread t (upd_thread t (\<lambda>x. x\<lparr>nice := 9\<rparr>) k)))"

definition report_children :: "'d hardware \<Rightarrow> u32 \<Rightarrow> 'd machine \<Rightarrow> (u32 \<times> 'd machine) result" where
  "report_children h t m =
     res_bind (display (\<lambda>s. say h ''%d -> Children %d exited! Quitting...\<newline>''
       [pid_arg (current_thread (kern s)) (kern s), pid_arg t (kern s)] s) m) (\<lambda>m. Inr (0, m))"

definition u_simple_end :: "'d hardware \<Rightarrow> u32 \<Rightarrow> u32 \<Rightarrow> 'd program" where
  "u_simple_end h u_child r =
     Do (on_krn (spawn_user u_child)) (\<lambda>_. Do (on_krn (spawn_user u_child)) (\<lambda>t.
       Sys SYS_WAIT4ALL r 0 0 (\<lambda>_.
         Do (report_children h t) (\<lambda>_. sleepms 1000 (exit_call 0)))))"

fun u_rounds :: "'d hardware \<Rightarrow> u32 \<Rightarrow> nat \<Rightarrow> 'd program" where
  "u_rounds h u_child 0 = random 1000 (\<lambda>r. sleepms r (u_simple_end h u_child r))"
| "u_rounds h u_child (Suc n) = random 1000 (\<lambda>r. sleepms r (u_rounds h u_child n))"

definition u_simple_proc :: "'d hardware \<Rightarrow> u32 \<Rightarrow> 'd program" where
  "u_simple_proc h u_child = u_rounds h u_child 5"

section \<open>The threads of the system\<close>

definition idle_round :: "'d program" where
  "idle_round = krn_do reschedule Done"

text \<open>After \<open>init\<close> the first thread only sleeps.\<close>

definition init_round :: "'d program" where
  "init_round = krn_do (\<lambda>k. reschedule (sleep_thread (current_thread k) k)) Done"

text \<open>The line of \<^verbatim>\<open>gui\<close> at the top of the screen. The fourth argument and those after it are read from the clock.\<close>

definition gui_title :: string where
  "gui_title = '' Up: %4ds         '' @
     ''              K:%3d/%3d                %2d/%02d/%4d - %02d:%02d:%02d ''"

definition gui_args :: "rtc \<Rightarrow> kernel \<Rightarrow> arg list" where
  "gui_args t k =
     (let p = pages (kheap (paging k)) in
      [Word (get_uptime k div 1000), Word (total_kused_memory p div 1024 div 1024),
       Word (total_kernel_pages p * 4096 div 1024 div 1024), Word (ucast (rtc_day t)),
       Word (ucast (rtc_month t)), Word (rtc_year t), Word (ucast (rtc_hour t)),
       Word (ucast (rtc_minute t)), Word (ucast (rtc_second t))])"

definition gui_draw :: "'d hardware \<Rightarrow> 'd machine \<Rightarrow> 'd machine result" where
  "gui_draw h m =
     (let prevTextColor = colour m;
          (prevPos, s) = getCursorOffset h (screen_of m);
          s = setTextColor YELLOW (setBackgroundColor BLUE (setCursorPos h 0 0 s)) in
      res_bind (returns (read_rtc h (devices s))) (\<lambda>(t, d).
        display (\<lambda>_. res_bind (say h gui_title (gui_args t (kern s)) (s\<lparr>devices := d\<rparr>)) (\<lambda>s.
          Inr ((setCursorOffset h prevPos s)\<lparr>textColor := prevTextColor\<rparr>))) (m\<lparr>rtc_globals := t\<rparr>)))"

definition gui_round :: "'d hardware \<Rightarrow> 'd program" where
  "gui_round h = Do (\<lambda>m. res_bind (gui_draw h m) (\<lambda>m. Inr (0, m))) (\<lambda>_. krn_do (sleep_ms 200) Done)"

definition screen_round :: "'d program" where
  "screen_round =
     Do (\<lambda>m. res_bind (display screen_refresh m) (\<lambda>m. Inr (0, m))) (\<lambda>_. krn_do (sleep_ms 16) Done)"

text \<open>\<^verbatim>\<open>kswap\<close>: its start, whose inner loop is never left, and the rounds of it and of the thread it starts.\<close>

definition kswap_start :: "u32 \<Rightarrow> 'd program" where
  "kswap_start exterminate_fn =
     krn_do (sleep_ms 1000) (krn_do (\<lambda>k.
       res_bind (create_kernel_thread exterminate_fn (cstr ''exterminator'') k) (\<lambda>(t, k).
         Inr (wake_up_thread t (upd_thread t (\<lambda>x. x\<lparr>nice := MIN_PRIORITY\<rparr>) k)))) Done)"

definition kswap_round :: "'d program" where
  "kswap_round = krn_do (sleep_ms 10000) (krn_do (heap_do kswap_sweep) Done)"

definition exterminate_round :: "'d program" where
  "exterminate_round = krn_do exterminate (krn_do (sleep_ms 5000) Done)"

end
