(* ===== verification/Strings_Props.thy ===== *)
theory Strings_Props
  imports Strings
begin

text \<open>
  What the string routines do to the text an array holds, and the round trip of the conversion
  of numbers.
\<close>

section \<open>The chars of an array\<close>

definition chars :: "u8 list \<Rightarrow> u8 list" where
  "chars s = takeWhile (\<lambda>c. c \<noteq> 0) s"

definition terminated :: "u8 list \<Rightarrow> bool" where
  "terminated s \<longleftrightarrow> 0 \<in> set s"

lemma chars_split:
  assumes "terminated s"
  shows "\<exists>r. s = chars s @ 0 # r \<and> 0 \<notin> set (chars s)"
proof -
  from assms have "dropWhile (\<lambda>c. c \<noteq> 0) s \<noteq> []" by (auto simp: terminated_def dropWhile_eq_Nil_conv)
  then obtain c r where d: "dropWhile (\<lambda>c. c \<noteq> 0) s = c # r" by (cases "dropWhile (\<lambda>c. c \<noteq> 0) s") auto
  then have "c = 0" by (metis (mono_tags) dropWhile_eq_Cons_conv)
  with d have "s = chars s @ 0 # r" unfolding chars_def by (metis takeWhile_dropWhile_id)
  moreover have "0 \<notin> set (chars s)" unfolding chars_def by (auto dest: set_takeWhileD)
  ultimately show ?thesis by blast
qed

lemma chars_terminated:
  assumes "0 \<notin> set t"
  shows "chars (t @ 0 # r) = t" "terminated (t @ 0 # r)"
  using assms unfolding chars_def terminated_def by (auto simp: takeWhile_append)

lemma strlen_loop_text:
  "0 \<notin> set t \<Longrightarrow> strlen_loop (u @ t @ 0 # r) (length u) = Inr (length u + length t)"
proof (induction t arbitrary: u)
  case Nil
  then show ?case by (subst strlen_loop.simps) (simp add: nth_append)
next
  case (Cons c t)
  from Cons.IH[of "u @ [c]"] Cons.prems have
    "strlen_loop (u @ (c # t) @ 0 # r) (length u + 1) = Inr (length u + length (c # t))" by simp
  then show ?case using Cons.prems by (subst strlen_loop.simps) (simp add: nth_append)
qed

lemma strlen_text: "0 \<notin> set t \<Longrightarrow> strlen (t @ 0 # r) = Inr (length t)"
  using strlen_loop_text[of t "[]" r] by (simp add: strlen_def)

lemma strlen_loop_runs_off: "0 \<notin> set s \<Longrightarrow> strlen_loop s i = Inl OutOfBounds"
proof (induction s i rule: strlen_loop.induct)
  case (1 s i)
  show ?case
  proof (cases "i < length s")
    case True
    then have "s ! i \<noteq> 0" using "1.prems" by (metis nth_mem)
    then show ?thesis using "1.IH"[of "s ! i"] "1.prems" True by (subst strlen_loop.simps) simp
  next
    case False
    then show ?thesis by (subst strlen_loop.simps) (simp add: arr_get_def)
  qed
qed

text \<open>
  \<^verbatim>\<open>strlen\<close> returns the length of the chars of a terminated array, and reads past the end of
  an array that is not.
\<close>

theorem strlen_spec:
  "strlen s = (if terminated s then Inr (length (chars s)) else Inl OutOfBounds)"
proof (cases "terminated s")
  case True
  from chars_split[OF this] obtain r where "s = chars s @ 0 # r" "0 \<notin> set (chars s)" by blast
  then show ?thesis using True strlen_text by metis
next
  case False
  then show ?thesis using strlen_loop_runs_off by (simp add: strlen_def terminated_def)
qed

section \<open>append, backspace and reverse\<close>

lemma append_text:
  assumes "0 \<notin> set t" "r \<noteq> []"
  shows "append (t @ 0 # r) n = Inr (t @ n # 0 # tl r)"
  using assms by (cases r) (simp_all add: append_def strlen_text list_update_append nth_append)

lemma append_full:
  assumes "0 \<notin> set t"
  shows "append (t @ [0]) n = Inl OutOfBounds"
  using assms strlen_text[of t "[]"] by (simp add: append_def arr_set_def)

lemma backspace_text:
  assumes "0 \<notin> set t"
  shows "backspace (t @ 0 # r) = Inr (if t = [] then 0 # r else butlast t @ 0 # 0 # r)"
  using assms strlen_text[of t r]
  by (cases t rule: rev_cases) (simp_all add: backspace_def list_update_append)

lemma reverse_loop_text:
  "reverse_loop (int (length u)) (int (length u + length t) - 1) (u @ t @ v) = Inr (u @ rev t @ v)"
proof (induction "length t" arbitrary: t u v rule: less_induct)
  case less
  show ?case
  proof (cases "length t \<le> 1")
    case True
    then have "rev t = t" by (cases t) auto
    with True show ?thesis by (subst reverse_loop.simps) simp
  next
    case False
    then obtain a m b where t: "t = a # m @ [b]"
      by (metis One_nat_def Suc_le_mono append_butlast_last_id append_is_Nil_conv le0 length_Cons
          list.exhaust list.size(3) not_less_eq_eq rev.simps(1) append_Nil)
    let ?s = "u @ t @ v"
    have len: "length t = length m + 2" using t by simp
    have at: "?s ! length u = a" "?s ! (length u + length m + 1) = b" by (simp_all add: t nth_append)
    have upd: "?s[length u := b, length u + length m + 1 := a] = u @ (b # m @ [a]) @ v"
      by (simp add: t list_update_append)
    have e: "nat (int (length u + length t) - 1) = length u + length m + 1" using len by linarith
    have "reverse_loop (int (length (u @ [b]))) (int (length (u @ [b]) + length m) - 1) ((u @ [b]) @ m @ [a] @ v) =
        Inr ((u @ [b]) @ rev m @ [a] @ v)" by (rule less) (simp add: t)
    then have "reverse_loop (int (length u) + 1) (int (length u + length t) - 1 - 1) (u @ (b # m @ [a]) @ v) =
        Inr (u @ rev t @ v)" using len by (simp add: t algebra_simps)
    then show ?thesis
      using len at upd e by (subst reverse_loop.simps) simp
  qed
qed

lemma reverse_text:
  assumes "0 \<notin> set t"
  shows "reverse (t @ 0 # r) = Inr (rev t @ 0 # r)"
  using reverse_loop_text[of "[]" t "0 # r"] strlen_text[OF assms] by (simp add: reverse_def)

text \<open>
  C31: on a terminated array \<^verbatim>\<open>append\<close> adds its character to the chars when there is room for it and
  writes past the end otherwise; \<^verbatim>\<open>backspace\<close> drops the last character and \<^verbatim>\<open>reverse\<close> reverses the
  text; all three leave the array terminated.
\<close>

theorem edit_text:
  assumes "terminated s" "n \<noteq> 0"
  shows "(case append s n of
       Inr s' \<Rightarrow> length (chars s) + 1 < length s \<and> chars s' = chars s @ [n] \<and> terminated s'
     | Inl e \<Rightarrow> e = OutOfBounds \<and> length s = length (chars s) + 1) \<and>
     (\<exists>s'. backspace s = Inr s' \<and> chars s' = butlast (chars s) \<and> terminated s') \<and>
     (\<exists>s'. reverse s = Inr s' \<and> chars s' = rev (chars s) \<and> terminated s')"
proof -
  from chars_split[OF assms(1)] obtain r where s: "s = chars s @ 0 # r" and t: "0 \<notin> set (chars s)" by blast
  define t where "t = chars s"
  note s = s[folded t_def] and t = t[folded t_def]
  have A: "case append s n of
       Inr s' \<Rightarrow> length t + 1 < length s \<and> chars s' = t @ [n] \<and> terminated s'
     | Inl e \<Rightarrow> e = OutOfBounds \<and> length s = length t + 1"
  proof (cases "r = []")
    case True
    then show ?thesis using append_full[OF t, of n] s by simp
  next
    case False
    then have "append s n = Inr ((t @ [n]) @ 0 # tl r)" using append_text[OF t, of r n] s by simp
    moreover have "0 \<notin> set (t @ [n])" using t assms(2) by simp
    ultimately show ?thesis using chars_terminated[of "t @ [n]" "tl r"] s False by simp
  qed
  have b: "0 \<notin> set (butlast t)" using t by (auto dest: in_set_butlastD)
  have "backspace s = Inr (butlast t @ 0 # (if t = [] then r else 0 # r))"
    using backspace_text[OF t, of r] s by simp
  then have B: "\<exists>s'. backspace s = Inr s' \<and> chars s' = butlast t \<and> terminated s'"
    using chars_terminated[OF b] by blast
  have "\<exists>s'. reverse s = Inr s' \<and> chars s' = rev t \<and> terminated s'"
    using reverse_text[OF t, of r] chars_terminated[of "rev t" r] t s by simp
  with A B show ?thesis unfolding t_def by blast
qed

theorem edit_text_witness:
  "terminated [72, 105, 0, 0] \<and> reverse [72, 105, 0, 0] = Inr [105, 72, 0, 0 :: u8] \<and>
   chars [72, 105, 0, 0 :: u8] = [72, 105]"
proof -
  have t: "terminated [72, 105, 0, 0]" "chars [72, 105, 0, 0 :: u8] = [72, 105]"
    by (simp_all add: terminated_def chars_def)
  obtain s' where "reverse [72, 105, 0, 0] = Inr s'"
    using edit_text[OF t(1), of 1] by auto
  moreover have "reverse ([72, 105] @ 0 # [0 :: u8]) = Inr (rev [72, 105] @ 0 # [0])"
    by (rule reverse_text) simp
  ultimately show ?thesis using t by simp
qed

section \<open>strcmp\<close>

lemma scast_u8_inj: "(scast (a :: u8) :: u32) = scast b \<longleftrightarrow> a = b"
proof
  assume "(scast a :: u32) = scast b"
  then have "(word_of_int (sint a - sint b) :: u32) = 0" by simp
  then have "4294967296 dvd sint a - sint b"
    by (subst (asm) word_of_int_eq_0_iff) simp
  moreover have "\<bar>sint a - sint b\<bar> < 4294967296"
    using sint_range_size[of a] sint_range_size[of b] by (simp add: word_size abs_less_iff)
  ultimately have "sint a - sint b = 0"
    using dvd_imp_le_int[of "sint a - sint b" 4294967296] by fastforce
  then show "a = b" by (simp add: signed_word_eqI)
qed simp

lemma scast_u8_0: "(scast (a :: u8) :: u32) = 0 \<longleftrightarrow> a = 0"
  using scast_u8_inj[of a 0] by simp

lemma strcmp_loop_chars:
  assumes "0 \<notin> set t1" "0 \<notin> set t2"
  shows "\<exists>d. strcmp_loop (u @ t1 @ 0 # r1) (u @ t2 @ 0 # r2) (length u) = Inr d \<and> (d = 0 \<longleftrightarrow> t1 = t2)"
  using assms
proof (induction t1 arbitrary: t2 u)
  case Nil
  show ?case
  proof (cases t2)
    case Nil
    then show ?thesis by (subst strcmp_loop.simps) (simp add: nth_append)
  next
    case (Cons b bs)
    then have "b \<noteq> 0" using Nil.prems by auto
    then show ?thesis using Cons by (subst strcmp_loop.simps) (simp add: nth_append scast_u8_0)
  qed
next
  case (Cons a as)
  then have a: "a \<noteq> 0" by auto
  show ?case
  proof (cases "\<exists>bs. t2 = a # bs")
    case True
    then obtain bs where t2: "t2 = a # bs" by blast
    from Cons.IH[of bs "u @ [a]"] Cons.prems t2 a show ?thesis
      by (subst strcmp_loop.simps) (simp add: nth_append)
  next
    case False
    obtain b where b: "(u @ t2 @ 0 # r2) ! length u = b" "length u < length (u @ t2 @ 0 # r2)" "b \<noteq> a" "a # as \<noteq> t2"
      using False a by (cases t2) (auto simp: nth_append)
    then show ?thesis by (subst strcmp_loop.simps) (simp add: nth_append scast_u8_inj)
  qed
qed

lemma strcmp_chars:
  assumes "terminated s1" "terminated s2"
  shows "\<exists>d. strcmp s1 s2 = Inr d \<and> (d = 0 \<longleftrightarrow> chars s1 = chars s2)"
proof -
  obtain r1 r2 where "s1 = chars s1 @ 0 # r1" "0 \<notin> set (chars s1)" "s2 = chars s2 @ 0 # r2" "0 \<notin> set (chars s2)"
    using chars_split assms by metis
  then show ?thesis using strcmp_loop_chars[of "chars s1" "chars s2" "[]" r1 r2] by (simp add: strcmp_def)
qed

text \<open>
  C32: \<^verbatim>\<open>strcmp\<close> of two terminated arrays returns, with 0 just when they hold the same text.
\<close>

theorem strcmp_equal:
  assumes "terminated s1" "terminated s2"
  shows "\<exists>d. strcmp s1 s2 = Inr d \<and> (d = 0 \<longleftrightarrow> chars s1 = chars s2)"
  by (rule strcmp_chars[OF assms])

theorem strcmp_equal_witness:
  "\<exists>d. strcmp [104, 105, 0] [104, 111, 0, 0] = Inr d \<and> d \<noteq> 0"
  using strcmp_equal[of "[104, 105, 0]" "[104, 111, 0, 0]"]
  by (simp add: terminated_def chars_def)

section \<open>Numbers\<close>

text \<open>The decimal digits of a number, and the number a sequence of digits stands for.\<close>

fun decimal :: "nat \<Rightarrow> u8 list" where
  "decimal n = (if n < 10 then [word_of_nat (48 + n)]
     else decimal (n div 10) @ [word_of_nat (48 + n mod 10)])"

declare decimal.simps [simp del]

definition digits_value :: "u8 list \<Rightarrow> nat" where
  "digits_value ds = foldl (\<lambda>v c. 10 * v + (unat c - 48)) 0 ds"

definition parse_int :: "u8 list \<Rightarrow> int" where
  "parse_int t = (case t of c # ds \<Rightarrow> if c = 45 then - int (digits_value ds) else int (digits_value t) | [] \<Rightarrow> 0)"

lemma unat_digit: "d < 10 \<Longrightarrow> unat (word_of_nat (48 + d) :: u8) = 48 + d"
  by (simp add: unat_of_nat take_bit_eq_mod del: of_nat_add)

lemma decimal_value: "digits_value (decimal n) = n"
proof (induction n rule: decimal.induct)
  case (1 n)
  show ?case
  proof (cases "n < 10")
    case True
    then show ?thesis by (simp add: decimal.simps digits_value_def unat_digit del: of_nat_add)
  next
    case False
    with 1 show ?thesis
      by (subst decimal.simps) (simp add: digits_value_def unat_digit del: of_nat_add)
  qed
qed

lemma decimal_digits: "c \<in> set (decimal n) \<Longrightarrow> 48 \<le> unat c"
proof (induction n rule: decimal.induct)
  case (1 n)
  then show ?case
    by (subst (asm) (2) decimal.simps) (auto simp: unat_digit simp del: of_nat_add split: if_splits)
qed

lemma decimal_no_nul: "0 \<notin> set (decimal n)" "decimal n \<noteq> []" "hd (decimal n) \<noteq> 45"
proof -
  show "0 \<notin> set (decimal n)" using decimal_digits[of 0 n] by auto
  show "decimal n \<noteq> []" by (subst decimal.simps) simp
  then have "hd (decimal n) \<in> set (decimal n)" by simp
  from decimal_digits[OF this] show "hd (decimal n) \<noteq> 45" by auto
qed

lemma decimal_length: "0 < k \<Longrightarrow> n < 10 ^ k \<Longrightarrow> length (decimal n) \<le> k"
proof (induction k arbitrary: n)
  case (Suc k)
  show ?case
  proof (cases "n < 10")
    case True
    then show ?thesis by (subst decimal.simps) simp
  next
    case False
    with Suc.prems have "0 < k" by (cases k) auto
    moreover have "n div 10 < 10 ^ k" using Suc.prems by (simp add: less_mult_imp_div_less mult.commute)
    ultimately show ?thesis using Suc.IH[of "n div 10"] False by (subst decimal.simps) simp
  qed
qed simp

lemma c_div_nonneg: "0 \<le> n \<Longrightarrow> c_div n 10 = n div 10" "0 \<le> n \<Longrightarrow> c_mod n 10 = n mod 10"
proof -
  show d: "0 \<le> n \<Longrightarrow> c_div n 10 = n div 10" by (cases "n = 0") (simp_all add: c_div_def sgn_if)
  then show "0 \<le> n \<Longrightarrow> c_mod n 10 = n mod 10"
    by (simp add: c_mod_def minus_mult_div_eq_mod)
qed

lemma put_digits_decimal:
  assumes "length (decimal n) \<le> length w"
  shows "put_digits (int n) (length u) (u @ w) =
     Inr (length u + length (decimal n), u @ rev (decimal n) @ drop (length (decimal n)) w)"
  using assms
proof (induction n arbitrary: u w rule: decimal.induct)
  case (1 n)
  have w: "w \<noteq> []" using "1.prems" decimal_no_nul(2)[of n] by auto
  then obtain x w' where w': "w = x # w'" by (cases w) auto
  have dig: "(word_of_int (int n mod 10 + 48) :: u8) = word_of_nat (48 + n mod 10)"
  proof -
    have "int n mod 10 + 48 = int (48 + n mod 10)" by (simp add: zmod_int)
    then show ?thesis by (simp only: of_int_of_nat_eq)
  qed
  show ?case
  proof (cases "n < 10")
    case True
    then show ?thesis using dig w'
      by (subst put_digits.simps) (simp add: c_div_nonneg decimal.simps list_update_append del: of_nat_add)
  next
    case False
    have d: "decimal n = decimal (n div 10) @ [word_of_nat (48 + n mod 10)]"
      using False by (subst decimal.simps) simp
    let ?c = "word_of_nat (48 + n mod 10) :: u8"
    have "put_digits (int (n div 10)) (length (u @ [?c])) ((u @ [?c]) @ w') =
        Inr (length (u @ [?c]) + length (decimal (n div 10)),
          (u @ [?c]) @ rev (decimal (n div 10)) @ drop (length (decimal (n div 10))) w')"
      by (rule "1.IH") (use False "1.prems" d w' in simp_all)
    moreover have "0 < int n div 10" using False by (simp add: pos_imp_zdiv_pos_iff)
    ultimately show ?thesis using dig w'
      by (subst put_digits.simps)
        (simp add: Let_def c_div_nonneg d list_update_append zdiv_int del: of_nat_add)
  qed
qed

text \<open>
  C33: \<^verbatim>\<open>intToAscii\<close> writes, into an array of at least 12 bytes, the decimal text of every \<^verbatim>\<open>int\<close> but
  the least one, and the text reads back as the number.
\<close>

theorem int_to_ascii_roundtrip:
  assumes "- (2 ^ 31) < n" "n < 2 ^ 31" "12 \<le> length str"
  shows "\<exists>s. intToAscii n str = Inr s \<and> terminated s \<and>
     chars s = (if n < 0 then 45 # decimal (nat (- n)) else decimal (nat n)) \<and> parse_int (chars s) = n"
proof -
  define m where "m = nat \<bar>n\<bar>"
  define sgn where "sgn = (if n < 0 then [45 :: u8] else [])"
  have m: "(if n < 0 then int_neg n else n) = int m"
  proof (cases "n < 0")
    case True
    then have "sint (word_of_int (- n) :: u32) = - n" using assms(1)
      unfolding sint_sbintrunc' by (intro signed_take_bit_int_eq_self) auto
    then show ?thesis using True by (simp add: int_neg_def m_def)
  qed (simp add: m_def)
  have len: "length (decimal m) \<le> 10"
    by (rule decimal_length) (use assms in \<open>auto simp: m_def\<close>)
  let ?d = "decimal m" and ?k = "length (decimal m)"
  have put: "put_digits (int m) 0 str = Inr (?k, rev ?d @ drop ?k str)"
    using put_digits_decimal[of m str "[]"] len assms(3) by simp
  define r where "r = drop (?k + length sgn + 1) str"
  obtain x y where str: "drop ?k str = (if n < 0 then [x, y] else [x]) @ r"
  proof (cases "n < 0")
    case True
    have "drop ?k str = str ! ?k # str ! (?k + 1) # drop (?k + 2) str"
      using len assms(3) by (simp add: Cons_nth_drop_Suc)
    with True that[of "str ! ?k" "str ! (?k + 1)"] show ?thesis by (simp add: r_def sgn_def)
  next
    case False
    have "drop ?k str = str ! ?k # drop (?k + 1) str" using len assms(3) by (simp add: Cons_nth_drop_Suc)
    with False that[of "str ! ?k" 0] show ?thesis by (simp add: r_def sgn_def)
  qed
  have no0: "0 \<notin> set (rev ?d @ sgn)" "0 \<notin> set (rev (rev ?d @ sgn))"
    using decimal_no_nul(1)[of m] by (auto simp: sgn_def)
  have "intToAscii n str = reverse ((rev ?d @ sgn) @ 0 # r)"
    using put m str by (simp add: intToAscii_def Let_def sgn_def list_update_append)
  also have "\<dots> = Inr (rev (rev ?d @ sgn) @ 0 # r)" by (rule reverse_text[OF no0(1)])
  finally have i: "intToAscii n str = Inr ((sgn @ ?d) @ 0 # r)" by (auto simp: sgn_def)
  have c: "chars ((sgn @ ?d) @ 0 # r) = sgn @ ?d" "terminated ((sgn @ ?d) @ 0 # r)"
    using chars_terminated[of "sgn @ ?d" r] no0 by (auto simp: sgn_def)
  have "parse_int (sgn @ ?d) = n"
    using decimal_no_nul[of m] decimal_value[of m]
    by (cases ?d) (auto simp: parse_int_def sgn_def m_def)
  then show ?thesis using i c by (auto simp: sgn_def m_def)
qed

theorem int_to_ascii_roundtrip_witness:
  "\<exists>s. intToAscii (- 42) (replicate 12 0) = Inr s \<and> parse_int (chars s) = - 42"
  using int_to_ascii_roundtrip[of "- 42" "replicate 12 0"] by auto

section \<open>Tokens\<close>

lemma strtokn_scan:
  "0 \<notin> set w \<Longrightarrow> delim \<notin> set w \<Longrightarrow>
   strtokn_loop (p @ w @ q) delim k (length p) count start found out =
   strtokn_loop (p @ w @ q) delim k (length p + length w) count start found out"
proof (induction w arbitrary: p)
  case (Cons c w)
  have "strtokn_loop (p @ (c # w) @ q) delim k (length p) count start found out =
      strtokn_loop (p @ (c # w) @ q) delim k (length p + 1) count start found out"
    using Cons.prems by (subst strtokn_loop.simps) (auto simp: nth_append)
  then show ?case using Cons.IH[of "p @ [c]"] Cons.prems by simp
qed simp

lemma copy_out_text:
  "length w \<le> length o' \<Longrightarrow> copy_out (p @ v @ w @ q) (length p) (length v) (length w) (u @ o') = Inr (u @ w @ drop (length w) o')"
  if "length u = length v" for u v
  using that
proof (induction w arbitrary: u v o')
  case (Cons c w)
  then obtain x o2 where o': "o' = x # o2" by (cases o') auto
  have "copy_out (p @ (v @ [c]) @ w @ q) (length p) (length (v @ [c])) (length w) ((u @ [c]) @ o2) =
      Inr ((u @ [c]) @ w @ drop (length w) o2)"
    by (rule Cons.IH) (use Cons.prems o' in auto)
  then show ?case using Cons.prems(2) o' by (simp add: nth_append list_update_append)
qed simp

lemma take_token_text:
  assumes "length w < length out"
  shows "take_token (p @ w @ q) (length p) (length p + length w) out =
    Inr (length w, w @ 0 # drop (length w + 1) out)"
proof -
  have "copy_out (p @ w @ q) (length p) 0 (length w) out = Inr (w @ drop (length w) out)"
    using copy_out_text[of "[]" "[]" w out p q] assms by simp
  moreover have "drop (length w) out = out ! length w # drop (length w + 1) out"
    using assms by (simp add: Cons_nth_drop_Suc)
  ultimately show ?thesis by (simp add: take_token_def list_update_append)
qed

lemma skip_one_delim:
  assumes "q \<noteq> []" "hd q \<noteq> delim"
  shows "skip_delims (p @ delim # q) delim (length p) = Inr (length p + 1)"
  using assms by (cases q) (subst skip_delims.simps, subst skip_delims.simps, simp add: nth_append)+

text \<open>
  Of two words with one delimiter between them \<^verbatim>\<open>strtokn\<close> returns the first as token 0 and the
  second as token 1, each with its length.
\<close>

theorem strtokn_two_words:
  assumes "0 \<notin> set (u @ v)" "delim \<notin> set (u @ v)" "delim \<noteq> 0" "v \<noteq> []"
    and "length u < length out" "length v < length out"
  shows "(\<exists>s. strtokn (Some (u @ delim # v @ [0])) out delim 0 = Inr (length u, s) \<and> chars s = u) \<and>
     (\<exists>s. strtokn (Some (u @ delim # v @ [0])) out delim 1 = Inr (length v, s) \<and> chars s = v)"
proof -
  let ?in = "u @ delim # v @ [0]"
  have first: "strtokn (Some ?in) out delim k = strtokn_loop ?in delim k (length u) 0 0 False out" for k
    using strtokn_scan[of u delim "[]" "delim # v @ [0]"] assms(1,2) by (simp add: strtokn_def)
  have "strtokn (Some ?in) out delim 0 = take_token ?in 0 (length u) out"
    unfolding first using assms(3) by (subst strtokn_loop.simps) (simp add: nth_append)
  also have "\<dots> = Inr (length u, u @ 0 # drop (length u + 1) out)"
    using take_token_text[of u out "[]" "delim # v @ [0]"] assms(5) by simp
  finally have t0: "strtokn (Some ?in) out delim 0 = Inr (length u, u @ 0 # drop (length u + 1) out)" .
  obtain c v' where v: "v = c # v'" using assms(4) by (cases v) auto
  have skip: "skip_delims ?in delim (length u) = Inr (length u + 1)"
    using assms(2) v by (intro skip_one_delim) auto
  have "strtokn (Some ?in) out delim 1 = strtokn_loop ?in delim 1 (length u + 2) 1 (length u + 1) True out"
    unfolding first using assms(3) skip by (subst strtokn_loop.simps) (simp add: nth_append)
  also have "\<dots> = strtokn_loop ?in delim 1 (length u + 1 + length v) 1 (length u + 1) True out"
    using strtokn_scan[of v' delim "u @ [delim, c]" "[0]" 1 1 "length u + 1" True out] assms(1,2) v by simp
  also have "\<dots> = take_token ?in (length u + 1) (length u + 1 + length v) out"
    using assms(3) by (subst strtokn_loop.simps) (simp add: nth_append)
  also have "\<dots> = Inr (length v, v @ 0 # drop (length v + 1) out)"
    using take_token_text[of v out "u @ [delim]" "[0]"] assms(6) by simp
  finally have t1: "strtokn (Some ?in) out delim 1 = Inr (length v, v @ 0 # drop (length v + 1) out)" .
  have "chars (u @ 0 # drop (length u + 1) out) = u" "chars (v @ 0 # drop (length v + 1) out) = v"
    using chars_terminated(1) assms(1) by auto
  with t0 t1 show ?thesis by blast
qed

theorem strtokn_two_words_witness:
  "\<exists>s. strtokn (Some [108, 115, 32, 97, 98, 0]) (replicate 8 0) 32 1 = Inr (2, s) \<and> chars s = [97, 98]"
proof -
  have "(\<exists>s. strtokn (Some ([108, 115] @ 32 # [97, 98] @ [0])) (replicate 8 0) 32 0 = Inr (length [108, 115 :: u8], s)
        \<and> chars s = [108, 115]) \<and>
      (\<exists>s. strtokn (Some ([108, 115] @ 32 # [97, 98] @ [0])) (replicate 8 0) 32 1 = Inr (length [97, 98 :: u8], s)
        \<and> chars s = [97, 98])"
    by (rule strtokn_two_words) simp_all
  then have "\<exists>s. strtokn (Some ([108, 115] @ 32 # [97, 98] @ [0])) (replicate 8 0) 32 1 = Inr (length [97, 98 :: u8], s)
        \<and> chars s = [97, 98]"
    by (rule conjunct2)
  moreover have "length [97, 98 :: u8] = 2" by simp
  ultimately show ?thesis by (simp only: append.simps)
qed



end
