(* ===== verification/Programs_Props.thy ===== *)
theory Programs_Props
  imports Programs Strings_Props
begin

text \<open>
  The library of user programs prints what the kernel prints: its \<^verbatim>\<open>itoa\<close>, which works in the
  caller's buffer, leaves the text of the kernel's conversion there, and \<^verbatim>\<open>printfLib\<close> prints the text of
  \<^verbatim>\<open>kprintf\<close>.
\<close>

section \<open>Numbers\<close>

lemma digit_loop_text:
  assumes "length u + length (itoa_digits ud dv) \<le> length u + length v"
  shows "digit_loop (u @ v) (length u) ud dv =
    Inr (u @ itoa_digits ud dv @ drop (length (itoa_digits ud dv)) v, length u + length (itoa_digits ud dv))"
  using assms
proof (induction ud dv arbitrary: u v rule: itoa_digits.induct)
  case (1 ud dv)
  define c :: u8 where "c = ucast (if sint (ud mod dv) < 10 then ud mod dv + 48 else ud mod dv + 97 - 10)"
  define more where "more \<longleftrightarrow> dv > 1 \<and> ud div dv \<noteq> 0"
  have d: "itoa_digits ud dv = c # (if more then itoa_digits (ud div dv) dv else [])"
    by (subst itoa_digits.simps) (simp add: Let_def c_def more_def)
  obtain x w where v: "v = x # w" using "1.prems" d by (cases v) auto
  have s: "arr_set (u @ v) (length u) c = Inr ((u @ [c]) @ w)" by (simp add: v)
  show ?case
  proof (cases more)
    case True
    have l: "length (u @ [c]) + length (itoa_digits (ud div dv) dv) \<le> length (u @ [c]) + length w"
      using "1.prems" True by (simp add: d v)
    have "digit_loop ((u @ [c]) @ w) (length (u @ [c])) (ud div dv) dv =
       Inr ((u @ [c]) @ itoa_digits (ud div dv) dv @ drop (length (itoa_digits (ud div dv) dv)) w,
         length (u @ [c]) + length (itoa_digits (ud div dv) dv))"
      using True "1.IH"[OF refl refl refl _ l] by (simp add: more_def)
    then show ?thesis
      using True s by (subst digit_loop.simps) (simp add: d v Let_def flip: c_def more_def)
  next
    case False
    then show ?thesis using s by (subst digit_loop.simps) (simp add: d v Let_def flip: c_def more_def)
  qed
qed

lemma swap_loop_text:
  "swap_loop (u @ t @ v) (length u) (length u + length t - 1) = Inr (u @ rev t @ v)"
proof (induction "length t" arbitrary: t u v rule: less_induct)
  case less
  show ?case
  proof (cases "length t \<le> 1")
    case True
    then have "rev t = t" by (cases t) auto
    moreover have "\<not> length u < length u + length t - 1" using True by linarith
    ultimately show ?thesis by (subst swap_loop.simps) (simp del: One_nat_def)
  next
    case False
    then obtain a m b where t: "t = a # m @ [b]"
      by (metis One_nat_def Suc_le_mono append_butlast_last_id append_is_Nil_conv le0 length_Cons
          list.exhaust list.size(3) not_less_eq_eq rev.simps(1) append_Nil)
    have upd: "(u @ t @ v)[length u := b, Suc (length u + length m) := a] = u @ (b # m @ [a]) @ v"
      by (simp add: t list_update_append)
    have "swap_loop ((u @ [b]) @ m @ [a] @ v) (length (u @ [b])) (length (u @ [b]) + length m - 1) =
        Inr ((u @ [b]) @ rev m @ [a] @ v)" by (rule less) (simp add: t)
    then have "swap_loop (u @ (b # m @ [a]) @ v) (Suc (length u)) (length u + length m) = Inr (u @ rev t @ v)"
      by (simp add: t)
    then show ?thesis
      using upd by (subst swap_loop.simps) (simp add: t nth_append)
  qed
qed

lemma itoa_digits_length:
  assumes "dv > 1" "unat ud < unat dv ^ n" "n > 0"
  shows "length (itoa_digits ud dv) \<le> n"
  using assms
proof (induction n arbitrary: ud)
  case (Suc n)
  show ?case
  proof (cases "ud div dv = 0")
    case True
    then show ?thesis by (subst itoa_digits.simps) (simp add: Let_def)
  next
    case False
    have q: "unat (ud div dv) < unat dv ^ n"
      using Suc.prems(2) by (simp add: unat_div less_mult_imp_div_less mult.commute)
    have "n > 0"
    proof (rule ccontr)
      assume "\<not> n > 0"
      then have "unat (ud div dv) = 0" using q by simp
      then show False using False by (simp add: unat_eq_0)
    qed
    then have "length (itoa_digits (ud div dv) dv) \<le> n" using Suc.IH Suc.prems(1) q by blast
    then show ?thesis by (subst itoa_digits.simps) (simp add: Let_def)
  qed
qed simp

lemma digit_char:
  assumes "unat (r :: u32) < 16"
  shows "(ucast (if sint r < 10 then r + 48 else r + 97 - 10) :: u8) \<noteq> 0"
proof -
  have "r \<in> set (map word_of_nat [0..<16])"
    using assms by (auto simp: image_iff intro!: bexI[of _ "unat r"])
  moreover have "\<forall>r \<in> set (map word_of_nat [0..<16] :: u32 list).
      (ucast (if sint r < 10 then r + 48 else r + 97 - 10) :: u8) \<noteq> 0" by (simp add: upt_rec)
  ultimately show ?thesis by blast
qed

lemma itoa_digits_nonzero:
  assumes "dv = 10 \<or> dv = 16"
  shows "0 \<notin> set (itoa_digits ud dv)"
  using assms
proof (induction ud dv rule: itoa_digits.induct)
  case (1 ud dv)
  have "unat (ud mod dv) < 16" using "1.prems" unat_mod[of ud dv] by (auto simp: unat_mod)
  then have "(ucast (if sint (ud mod dv) < 10 then ud mod dv + 48 else ud mod dv + 97 - 10) :: u8) \<noteq> 0"
    by (rule digit_char)
  then show ?case using 1 by (subst itoa_digits.simps) (auto simp: Let_def)
qed

lemma digits_fit:
  assumes "dv = 10 \<or> dv = 16"
  shows "length (itoa_digits ud dv) \<le> 10"
  using assms by (intro itoa_digits_length) (use unat_u32_less[of ud] in auto)

lemma lib_itoa_text:
  assumes "length buf \<ge> 12"
  shows "\<exists>r. lib_itoa buf base d = Inr (itoa base d @ 0 # r) \<and> 0 \<notin> set (itoa base d)"
proof -
  have main: "\<exists>r. res_bind (digit_loop (u @ v) (length u) ud dv) (\<lambda>(buf, p).
      res_bind (arr_set buf p 0) (\<lambda>buf. swap_loop buf (length u) (p - 1))) = Inr (u @ rev (itoa_digits ud dv) @ 0 # r)"
    if dv: "dv = 10 \<or> dv = 16" and v: "length v \<ge> 11" for u v ud dv
  proof -
    let ?t = "itoa_digits ud dv"
    have l: "length ?t \<le> 10" by (rule digits_fit[OF dv])
    then obtain x w where w: "drop (length ?t) v = x # w" using v by (cases "drop (length ?t) v") auto
    have "arr_set (u @ ?t @ x # w) (length u + length ?t) 0 = Inr (u @ ?t @ 0 # w)"
      by (simp add: list_update_append)
    then show ?thesis
      using digit_loop_text[of u ud dv v] swap_loop_text[of u ?t "0 # w"] l v w by auto
  qed
  obtain x v where buf: "buf = x # v" and v: "length v \<ge> 11" using assms by (cases buf) auto
  consider (neg) "base = 100 \<and> sint d < 0" | (hex) "\<not> (base = 100 \<and> sint d < 0)" "base = 120"
    | (dec) "\<not> (base = 100 \<and> sint d < 0)" "base \<noteq> 120" by blast
  then show ?thesis
  proof cases
    case neg
    then show ?thesis using main[of 10 v "[45]" "- d"] v itoa_digits_nonzero[of 10 "- d"]
      by (auto simp: lib_itoa_def itoa_def buf)
  next
    case hex
    then show ?thesis using main[of 16 buf "[]" d] v itoa_digits_nonzero[of 16 d]
      by (auto simp: lib_itoa_def itoa_def buf)
  next
    case dec
    then show ?thesis using main[of 10 buf "[]" d] v itoa_digits_nonzero[of 10 d]
      by (auto simp: lib_itoa_def itoa_def buf)
  qed
qed

lemma number_text_itoa: "length buf \<ge> 12 \<Longrightarrow> number_text buf base d = Inr (itoa base d)"
  using lib_itoa_text[of buf base d] by (auto simp: number_text_def takeWhile_append)

section \<open>Formats\<close>

text \<open>An argument of the kernel's \<^verbatim>\<open>kprintf\<close> and the word a user program passes for it.\<close>

fun same_arg :: "(u32 \<Rightarrow> u8 list) \<Rightarrow> arg \<Rightarrow> u32 \<Rightarrow> bool" where
  "same_arg user_text (Word w) x = (x = w)"
| "same_arg user_text (Text None) x = (x = 0)"
| "same_arg user_text (Text (Some p)) x = (x \<noteq> 0 \<and> user_text x = p)"

lemma lib_directive_same:
  assumes "list_all2 (same_arg user_text) args ws" "length buf \<ge> 12"
    and "directive fmt args = Inr (t, fmt', args')"
  shows "\<exists>ws'. lib_directive user_text buf fmt ws = Inr (t, fmt', ws') \<and> list_all2 (same_arg user_text) args' ws'"
proof -
  from assms(3) obtain c0 pad0 c fmt1 pad c2 fmt2 where
    1: "arr_get fmt 0 = Inr c0"
       "(if c0 = 48 then res_bind (arr_get fmt 1) (\<lambda>d. Inr (True, d, tl fmt)) else Inr (False, c0, fmt)) = Inr (pad0, c, fmt1)"
       "(if 48 \<le> sint c \<and> sint c \<le> 57
          then res_bind (arr_get fmt1 1) (\<lambda>d. Inr (unat c - 48, d, tl fmt1)) else Inr (0, c, fmt1)) = Inr (pad, c2, fmt2)"
    and 2: "(if c2 \<in> {100, 117, 120} then
         (case args of Word w # args \<Rightarrow> Inr (padded pad0 pad (itoa c2 w), tl fmt2, args) | _ \<Rightarrow> Inl BadPointer)
       else if c2 = 115 then
         (case args of
            Text p # args \<Rightarrow> Inr (padded pad0 pad (case p of None \<Rightarrow> null_text | Some p \<Rightarrow> p), tl fmt2, args)
          | _ \<Rightarrow> Inl BadPointer)
       else (case args of Word w # args \<Rightarrow> Inr ([ucast w], tl fmt2, args) | _ \<Rightarrow> Inl BadPointer)) = Inr (t, fmt', args')"
    unfolding directive_def by (auto simp: res_bind_Inr_iff)
  from 2 obtain a as where args: "args = a # as" by (auto split: if_splits list.splits)
  with assms(1) obtain w ws' where ws: "ws = w # ws'" "same_arg user_text a w" "list_all2 (same_arg user_text) as ws'"
    by (auto simp: list_all2_Cons1)
  have "lib_convert user_text buf pad0 pad c2 ws = Inr (t, ws') \<and> fmt' = tl fmt2 \<and> args' = as"
    using 2 ws(2) number_text_itoa[OF assms(2)]
    by (auto simp: lib_convert_def ws(1) args split: if_splits arg.splits option.splits)
  then show ?thesis using 1 ws(3) by (auto simp: lib_directive_def)
qed

lemma printfLib_same:
  assumes "list_all2 (same_arg user_text) args ws" "length buf \<ge> 12" "format_text fmt args = Inr t"
  shows "printfLib user_text buf fmt ws = Inr t"
  using assms
proof (induction fmt args arbitrary: ws t rule: format_text.induct)
  case (1 fmt args)
  from "1.prems"(3) obtain c where c: "arr_get fmt 0 = Inr c"
    by (subst (asm) format_text.simps) (auto simp: res_bind_Inr_iff)
  consider (e) "c = 0" | (p) "c \<noteq> 0" "c \<noteq> 37" | (d) "c = 37" by auto
  then show ?case
  proof cases
    case e
    then show ?thesis using c "1.prems"(3) by (subst printfLib.simps) (subst (asm) format_text.simps, simp)
  next
    case p
    with c "1.prems"(3) obtain r where r: "format_text (tl fmt) args = Inr r" "t = c # r"
      by (subst (asm) format_text.simps) (auto simp: res_bind_Inr_iff)
    show ?thesis using "1.IH"(1)[OF c p "1.prems"(1,2) r(1)] c p r(2) by (subst printfLib.simps) simp
  next
    case d
    with c "1.prems"(3) obtain u fmt' args' r where
      r: "directive (tl fmt) args = Inr (u, fmt', args')" "format_text fmt' args' = Inr r" "t = u @ r"
      by (subst (asm) format_text.simps) (auto simp: res_bind_Inr_iff)
    obtain ws' where w: "lib_directive user_text buf (tl fmt) ws = Inr (u, fmt', ws')"
        "list_all2 (same_arg user_text) args' ws'"
      using lib_directive_same[OF "1.prems"(1,2) r(1)] by blast
    have "printfLib user_text buf fmt' ws' = Inr r"
      using "1.IH"(2)[OF c _ _ r(1) refl refl w(2) "1.prems"(2) r(2)] d by simp
    then show ?thesis using c d w(1) r(3) by (subst printfLib.simps) simp
  qed
qed

text \<open>
  C19: whenever the kernel's \<^verbatim>\<open>kprintf\<close> has a text for a format and its arguments, \<^verbatim>\<open>printfLib\<close> of the user
  library prints the same text for the same format and the words that a program passes for the
  arguments, whatever its buffer held before; the \<^verbatim>\<open>itoa\<close> of the library never leaves the buffer, ends
  its text there, and the text is the one of the kernel.
\<close>

theorem printfLib_is_kprintf:
  assumes "length buf = 40" "list_all2 (same_arg user_text) args ws" "format_text fmt args = Inr t"
  shows "printfLib user_text buf fmt ws = Inr t \<and>
    (\<exists>r. lib_itoa buf base d = Inr (itoa base d @ 0 # r) \<and> 0 \<notin> set (itoa base d))"
  using printfLib_same[OF assms(2) _ assms(3)] lib_itoa_text[of buf base d] assms(1) by simp

theorem printfLib_is_kprintf_witness:
  "printfLib (\<lambda>_. [104, 105]) (replicate 40 7) (cstr ''%d %s'') [- 5, 4096] = Inr (map of_char ''-5 hi'') \<and>
   (\<exists>r. lib_itoa (replicate 40 7) 100 (- 5) = Inr (map of_char ''-5'' @ 0 # r))"
proof -
  have i: "itoa 100 (- 5) = map of_char ''-5''"
    by (simp add: itoa_def itoa_digits.simps)
  have f: "format_text (cstr ''%d %s'') [Word (- 5), Text (Some [104, 105])] = Inr (map of_char ''-5 hi'')"
    by (simp add: cstr_def format_text.simps directive_def padded_def i)
  show ?thesis
    using printfLib_is_kprintf[of "replicate 40 7" "\<lambda>_. [104, 105]" "[Word (- 5), Text (Some [104, 105])]"
      "[- 5, 4096]" "cstr ''%d %s''" "map of_char ''-5 hi''" 100 "- 5"] f i by simp
qed

end
