(* ===== verification/Start_Props.thy ===== *)
theory Start_Props
  imports Entry Strings_Props
begin

text \<open>
  What the start of the kernel and the shell rely on: the interrupt table that \<^verbatim>\<open>isr_install\<close> fills, the
  memory map that \<^verbatim>\<open>parse_multiboot_info\<close> finds in the boot information, and the choice of a command.
\<close>

section \<open>The interrupt table\<close>

definition handler_of :: "idt_gate \<Rightarrow> u32" where
  "handler_of g = push_bit 16 (ucast (high_offset g)) OR ucast (low_offset g)"

definition gate_ok :: "idt_gate \<Rightarrow> bool" where
  "gate_ok g \<longleftrightarrow> gate_sel g = 8 \<and> always0 g = 0 \<and> gate_flags g = 0x8E"

definition gate_of :: "u32 \<Rightarrow> idt_gate" where
  "gate_of a = \<lparr>low_offset = low_16 a, gate_sel = 8, always0 = 0, gate_flags = 0x8E, high_offset = high_16 a\<rparr>"

lemma gate_of_simps [simp]: "handler_of (gate_of a) = a" "gate_ok (gate_of a)"
proof -
  show "handler_of (gate_of a) = a"
  proof -
    have e: "(0xFFFF :: u32) = mask 16" by (simp add: mask_eq_exp_minus_1)
    show ?thesis unfolding handler_of_def gate_of_def low_16_def high_16_def e
      by (rule bit_word_eqI) (auto simp: bit_simps)
  qed
  show "gate_ok (gate_of a)" by (simp add: gate_ok_def gate_of_def)
qed

lemma set_gates_nth:
  assumes "\<forall>(n, a) \<in> set gs. n < length tab" "distinct (map fst gs)"
  shows "\<exists>g. set_gates gs tab = Inr g \<and> length g = length tab \<and>
    (\<forall>(n, a) \<in> set gs. g ! n = gate_of a) \<and> (\<forall>n. n \<notin> fst ` set gs \<longrightarrow> g ! n = tab ! n)"
  using assms
proof (induction gs arbitrary: tab)
  case (Cons p gs)
  obtain n a where p: "p = (n, a)" by (cases p)
  let ?tab = "tab[n := gate_of a]"
  have s: "set_idt_gate n a tab = Inr ?tab" using Cons.prems by (simp add: p set_idt_gate_def gate_of_def)
  have d: "n \<notin> fst ` set gs" using Cons.prems(2) by (simp add: p)
  have "\<exists>g. set_gates gs ?tab = Inr g \<and> length g = length ?tab \<and>
    (\<forall>(n, a) \<in> set gs. g ! n = gate_of a) \<and> (\<forall>n. n \<notin> fst ` set gs \<longrightarrow> g ! n = ?tab ! n)"
    by (rule Cons.IH) (use Cons.prems in auto)
  then obtain g where g: "set_gates gs ?tab = Inr g" "length g = length tab"
    "\<forall>(n, a) \<in> set gs. g ! n = gate_of a" "\<forall>n. n \<notin> fst ` set gs \<longrightarrow> g ! n = ?tab ! n" by auto
  have "n < length tab" using Cons.prems(1) by (simp add: p)
  then have "g ! n = gate_of a" using g(4) d by simp
  then show ?case using s g by (intro exI[of _ g]) (auto simp: p)
qed simp

lemma isr_install_table:
  assumes "length tab = IDT_ENTRIES"
  shows "\<exists>g. isr_install isr irq tab = Inr g \<and> length g = IDT_ENTRIES \<and>
    (\<forall>n < 48. g ! n = gate_of (if n < 32 then isr n else irq (n - 32))) \<and> (\<forall>n \<ge> 48. g ! n = tab ! n)"
proof -
  let ?a = "map (\<lambda>i. (i, isr i)) [0..<32]" and ?b = "map (\<lambda>i. (32 + i, irq i)) [0..<16]"
  have "\<exists>g. set_gates ?a tab = Inr g \<and> length g = length tab \<and>
    (\<forall>(n, a) \<in> set ?a. g ! n = gate_of a) \<and> (\<forall>n. n \<notin> fst ` set ?a \<longrightarrow> g ! n = tab ! n)"
    by (rule set_gates_nth) (use assms in \<open>auto simp: IDT_ENTRIES_def comp_def\<close>)
  then obtain g1 where g1: "set_gates ?a tab = Inr g1" "length g1 = length tab"
    "\<forall>(n, a) \<in> set ?a. g1 ! n = gate_of a" "\<forall>n. n \<notin> fst ` set ?a \<longrightarrow> g1 ! n = tab ! n" by auto
  have "\<exists>g. set_gates ?b g1 = Inr g \<and> length g = length g1 \<and>
    (\<forall>(n, a) \<in> set ?b. g ! n = gate_of a) \<and> (\<forall>n. n \<notin> fst ` set ?b \<longrightarrow> g ! n = g1 ! n)"
    by (rule set_gates_nth) (use assms g1(2) in \<open>auto simp: IDT_ENTRIES_def comp_def distinct_map inj_on_def\<close>)
  then obtain g where g: "set_gates ?b g1 = Inr g" "length g = length g1"
    "\<forall>(n, a) \<in> set ?b. g ! n = gate_of a" "\<forall>n. n \<notin> fst ` set ?b \<longrightarrow> g ! n = g1 ! n" by auto
  have low: "g ! n = gate_of (isr n)" if "n < 32" for n
  proof -
    have "n \<notin> fst ` set ?b" "(n, isr n) \<in> set ?a" using that by auto
    then show ?thesis using g(4) g1(3) by fastforce
  qed
  have mid: "g ! n = gate_of (irq (n - 32))" if "32 \<le> n" "n < 48" for n
  proof -
    have "(n, irq (n - 32)) \<in> set ?b" using that by (auto simp: image_iff intro!: bexI[of _ "n - 32"])
    then show ?thesis using g(3) by fastforce
  qed
  have hi: "g ! n = tab ! n" if "n \<ge> 48" for n
  proof -
    have "n \<notin> fst ` set ?b" "n \<notin> fst ` set ?a" using that by auto
    then show ?thesis using g(4) g1(4) by simp
  qed
  have "isr_install isr irq tab = Inr g" using g(1) g1(1) by (simp add: isr_install_def)
  then show ?thesis using g(2) g1(2) assms low mid hi by (intro exI[of _ g]) auto
qed

text \<open>
  C20: \<^verbatim>\<open>isr_install\<close> on the table of 256 gates returns a table in which each of the first 48 gates is a
  well-formed interrupt gate (kernel code segment, flags \<^verbatim>\<open>0x8E\<close>, zero byte 0) whose two halves join to
  the address of the entry point for that number, the 32 exceptions first and then the 16 interrupt
  lines, and the other gates are as they were.
\<close>

theorem isr_install_gates:
  assumes "length tab = IDT_ENTRIES"
  shows "\<exists>g. isr_install isr irq tab = Inr g \<and> length g = IDT_ENTRIES \<and>
    (\<forall>n < 48. gate_ok (g ! n) \<and> handler_of (g ! n) = (if n < 32 then isr n else irq (n - 32))) \<and>
    (\<forall>n \<ge> 48. g ! n = tab ! n)"
proof -
  obtain g where "isr_install isr irq tab = Inr g" "length g = IDT_ENTRIES"
    "\<forall>n < 48. g ! n = gate_of (if n < 32 then isr n else irq (n - 32))" "\<forall>n \<ge> 48. g ! n = tab ! n"
    using isr_install_table[OF assms] by blast
  then show ?thesis by (intro exI[of _ g]) (simp del: split_paired_All)
qed

theorem isr_install_gates_witness:
  "\<exists>g. isr_install (\<lambda>n. word_of_nat (0x1000 + n)) (\<lambda>n. word_of_nat (0xC0102000 + n))
      (replicate 256 (gate_of 0)) = Inr g \<and> handler_of (g ! 14) = 0x100E \<and> handler_of (g ! 40) = 0xC0102008 \<and>
    g ! 255 = gate_of 0"
proof -
  have l: "length (replicate 256 (gate_of 0)) = IDT_ENTRIES" by (simp add: IDT_ENTRIES_def)
  obtain g where g: "isr_install (\<lambda>n. word_of_nat (0x1000 + n)) (\<lambda>n. word_of_nat (0xC0102000 + n))
      (replicate 256 (gate_of 0)) = Inr g"
    "\<forall>n < 48. gate_ok (g ! n) \<and> handler_of (g ! n) =
      (if n < 32 then word_of_nat (0x1000 + n) else word_of_nat (0xC0102000 + (n - 32)))"
    "\<forall>n \<ge> 48. g ! n = replicate 256 (gate_of 0) ! n"
    using isr_install_gates[OF l, of "\<lambda>n. word_of_nat (0x1000 + n)" "\<lambda>n. word_of_nat (0xC0102000 + n)"] by auto
  show ?thesis
    using g(1) g(2)[rule_format, of 14] g(2)[rule_format, of 40] g(3)[rule_format, of 255] by auto
qed

section \<open>The memory map\<close>

text \<open>A tag with a memory map: entries of the announced size up to the end of the tag, which is in the
  address space. The chain of tags from an address on; what it says is available.\<close>

definition map_entries :: "bytes \<Rightarrow> u32 \<Rightarrow> multiboot_mmap_entry list" where
  "map_entries m tag =
     map (\<lambda>i. entry_at m (tag + 16 + word_of_nat i * entry_size (mmap_at m tag)))
       [0..<(unat (tag_size (tag_at m tag)) - 16) div unat (entry_size (mmap_at m tag))]"

definition good_map :: "bytes \<Rightarrow> u32 \<Rightarrow> bool" where
  "good_map m tag \<longleftrightarrow>
     (let size = unat (tag_size (tag_at m tag)); e = unat (entry_size (mmap_at m tag)) in
      e > 0 \<and> size \<ge> 16 \<and> e dvd size - 16 \<and> unat tag + size < 2 ^ 32)"

fun tag_chain :: "bytes \<Rightarrow> u32 \<Rightarrow> u32 list \<Rightarrow> bool" where
  "tag_chain m a [] = (tag_type (tag_at m a) = MULTIBOOT_TAG_TYPE_END)"
| "tag_chain m a (t # ts) =
     (t = a \<and> tag_type (tag_at m a) \<noteq> MULTIBOOT_TAG_TYPE_END \<and>
      (if tag_type (tag_at m a) = MULTIBOOT_TAG_TYPE_MMAP then good_map m a else True) \<and>
      tag_chain m (next_tag m a) ts)"

definition regions :: "bytes \<Rightarrow> u32 list \<Rightarrow> multiboot_mmap_entry list" where
  "regions m ts =
     concat (map (\<lambda>t. if tag_type (tag_at m t) = MULTIBOOT_TAG_TYPE_MMAP then map_entries m t else []) ts)"

definition region_end :: "multiboot_mmap_entry \<Rightarrow> nat" where
  "region_end e = unat (mm_addr e) + unat (mm_len e)"

definition available_ends :: "multiboot_mmap_entry list \<Rightarrow> nat set" where
  "available_ends es = region_end ` {e \<in> set es. mm_type e = 1}"

lemma available_ends_simps [simp]:
  "available_ends [] = {}"
  "available_ends (e # es) =
     (if mm_type e = 1 then insert (region_end e) (available_ends es) else available_ends es)"
  by (auto simp: available_ends_def)

lemma mmap_loop_fold:
  assumes "unat tag + 16 + n * unat e < 2 ^ 32" "unat e > 0"
    and "tag_size (tag_at m tag) = 16 + word_of_nat n * e" "entry_size (mmap_at m tag) = e" "i \<le> n"
  shows "mmap_loop m tag f (tag + 16 + word_of_nat i * e) x =
    Some (fold f (map (\<lambda>i. entry_at m (tag + 16 + word_of_nat i * e)) [i..<n]) x)"
  using assms(5)
proof (induction "n - i" arbitrary: i x)
  case 0
  then have "i = n" by simp
  then show ?case by (subst mmap_loop.simps) (simp add: assms(3) add.assoc)
next
  case (Suc k)
  then have i: "i < n" by simp
  have at: "unat (tag + 16 + word_of_nat j * e) = unat tag + 16 + j * unat e" if "j \<le> n" for j
  proof -
    have je: "j * unat e \<le> n * unat e" using that by simp
    have "n \<le> n * unat e" using assms(2) by simp
    then have j: "unat (word_of_nat j :: u32) = j" using that assms(1) by (intro unat_u32) linarith
    have "j * unat e < 2 ^ 32" using je assms(1) by linarith
    then have "unat (word_of_nat j * e) = j * unat e" by (simp add: j unat_word_ariths)
    moreover have "unat tag + 16 + j * unat e < 2 ^ 32" using je assms(1) by linarith
    ultimately show ?thesis by (simp add: unat_word_ariths)
  qed
  have "i * unat e < n * unat e" using i assms(2) by simp
  then have lt: "tag + 16 + word_of_nat i * e < tag + tag_size (tag_at m tag)"
    using at[of i] at[of n] i by (simp add: assms(3) word_less_nat_alt flip: add.assoc)
  have up: "[i..<n] = i # [Suc i..<n]" using i by (simp add: upt_rec)
  have nx: "tag + 16 + word_of_nat i * e + e = tag + 16 + word_of_nat (Suc i) * e"
    by (simp add: algebra_simps)
  show ?case
    using lt Suc.hyps(1)[of "Suc i" "f (entry_at m (tag + 16 + word_of_nat i * e)) x"] Suc.hyps(2) i
    by (subst mmap_loop.simps) (simp add: assms(4) up nx del: of_nat_Suc)
qed

lemma mmap_entries_fold:
  assumes "good_map m tag"
  shows "mmap_entries m tag f x = Some (fold f (map_entries m tag) x)"
proof -
  let ?size = "tag_size (tag_at m tag)" and ?e = "entry_size (mmap_at m tag)"
  define n where "n = (unat ?size - 16) div unat ?e"
  have g: "unat ?e > 0" "unat ?size \<ge> 16" "unat ?e dvd unat ?size - 16" "unat tag + unat ?size < 2 ^ 32"
    using assms by (auto simp: good_map_def Let_def)
  have s: "unat ?size = 16 + n * unat ?e" using g(2,3) by (simp add: n_def)
  have w: "?size = 16 + word_of_nat n * ?e"
  proof -
    have "(word_of_nat (unat ?size) :: u32) = word_of_nat (16 + n * unat ?e)" by (rule arg_cong[OF s])
    then show ?thesis by simp
  qed
  show ?thesis
    using mmap_loop_fold[of tag n ?e m 0 f x, OF _ g(1) w refl] g(4)[unfolded s]
    by (simp add: mmap_entries_def map_entries_def flip: n_def)
qed

lemma parse_loop_fold:
  assumes "tag_chain m a ts"
  shows "parse_loop m a x = Some (fold max_end (regions m ts) x)"
  using assms
proof (induction ts arbitrary: a x)
  case Nil
  then show ?case by (subst parse_loop.simps) (simp add: regions_def)
next
  case (Cons t ts)
  then show ?case
    by (subst parse_loop.simps) (auto simp: mmap_entries_fold regions_def split: if_splits)
qed

lemma fold_max_end:
  assumes "\<forall>e \<in> set es. mm_type e = 1 \<longrightarrow> region_end e < 2 ^ 32"
  shows "unat (fold max_end es x) = Max (insert (unat x) (available_ends es))"
  using assms
proof (induction es arbitrary: x)
  case (Cons e es)
  have fin: "finite (available_ends es)" by (simp add: available_ends_def)
  have step: "unat (max_end e x) = (if mm_type e = 1 then max (unat x) (region_end e) else unat x)"
  proof (cases "mm_type e = 1")
    case True
    have lo: "unat (mm_addr e) < 2 ^ 32" "unat (mm_len e) < 2 ^ 32" using Cons.prems True by (auto simp: region_end_def)
    have "unat (fold_halves y) = unat y" if "unat y < 2 ^ 32" for y
    proof -
      have "drop_bit 32 y = 0" using that by (simp add: drop_bit_eq_div word_unat_eq_iff unat_div)
      moreover have "y AND 0xffffffff = y"
        using that less_mask_eq[of y 32] by (simp add: word_less_nat_alt mask_eq_exp_minus_1)
      ultimately show ?thesis
        using that by (simp add: fold_halves_def unsigned_ucast_eq unsigned_take_bit_eq take_bit_nat_eq_self)
    qed
    then have "unat (fold_halves (mm_addr e) + fold_halves (mm_len e)) = region_end e"
      using lo Cons.prems True by (simp add: unat_word_ariths region_end_def)
    then show ?thesis using True by (auto simp: max_end_def Let_def word_less_nat_alt)
  qed (simp add: max_end_def Let_def)
  have "unat (fold max_end es (max_end e x)) = Max (insert (unat (max_end e x)) (available_ends es))"
    using Cons by simp
  also have "\<dots> = Max (insert (unat x) (available_ends (e # es)))"
    using step fin by (cases "available_ends es = {}") (auto simp: max.assoc Max_insert)
  finally show ?case by simp
qed simp

lemma pages_of: "unat ((a AND 0xFFFFF000) div 0x1000 :: u32) = unat a div 4096"
  by (simp add: unat_div unat_and_FFFFF000 minus_mod_eq_mult_div)

text \<open>
  C17: on boot information with the right magic number whose tags form a chain with well-formed memory
  maps, and whose available regions end below 4 GiB, \<^verbatim>\<open>parse_multiboot_info\<close> returns 0 and sets the
  highest address to the largest end of an available region of any map, 0 without one, and the number
  of pages to that many whole pages.
\<close>

theorem parse_finds_memory:
  assumes "mbi_magic info = MULTIBOOT2_BOOTLOADER_MAGIC" "tag_chain m (mbi_info info + 8) ts"
    and "\<forall>e \<in> set (regions m ts). mm_type e = 1 \<longrightarrow> region_end e < 2 ^ 32"
  shows "\<exists>b. parse_multiboot_info m info b0 = Inr (0, b) \<and>
    unat (highest_mem_addess b) = Max (insert 0 (available_ends (regions m ts))) \<and>
    unat (total_pages b) = Max (insert 0 (available_ends (regions m ts))) div 4096"
  using fold_max_end[OF assms(3), of 0]
  by (simp add: parse_multiboot_info_def assms(1) parse_loop_fold[OF assms(2)] pages_of)

text \<open>The information of a machine with 640 KiB and, above 1 MiB, 127 MiB: a tag that names the loader, the
  map with a reserved region between, and the end.\<close>

definition sample_bytes :: "u8 list" where
  "sample_bytes =
     [2, 0, 0, 0, 13, 0, 0, 0, 71, 82, 85, 66, 0, 0, 0, 0] @
     [6, 0, 0, 0, 88, 0, 0, 0, 24, 0, 0, 0, 0, 0, 0, 0] @
     [0, 0, 0, 0, 0, 0, 0, 0, 0, 0, 10, 0, 0, 0, 0, 0, 1, 0, 0, 0, 0, 0, 0, 0] @
     [0, 0, 10, 0, 0, 0, 0, 0, 0, 0, 6, 0, 0, 0, 0, 0, 2, 0, 0, 0, 0, 0, 0, 0] @
     [0, 0, 16, 0, 0, 0, 0, 0, 0, 0, 240, 7, 0, 0, 0, 0, 1, 0, 0, 0, 0, 0, 0, 0] @
     [0, 0, 0, 0, 8, 0, 0, 0]"

definition sample_info :: bytes where
  "sample_info a = (if unat a - 8 < length sample_bytes then sample_bytes ! (unat a - 8) else 0)"

theorem parse_finds_memory_witness:
  "\<exists>b. parse_multiboot_info sample_info \<lparr>mbi_info = 0, mbi_magic = MULTIBOOT2_BOOTLOADER_MAGIC\<rparr>
      \<lparr>highest_mem_addess = 0, total_pages = 0\<rparr> = Inr (0, b) \<and>
    unat (highest_mem_addess b) = 128 * 1024 * 1024 \<and> unat (total_pages b) = 32768"
proof -
  have t: "tag_at sample_info 8 = \<lparr>tag_type = 2, tag_size = 13\<rparr>"
    "tag_at sample_info 24 = \<lparr>tag_type = 6, tag_size = 88\<rparr>"
    "tag_at sample_info 112 = \<lparr>tag_type = 0, tag_size = 8\<rparr>"
    "entry_size (mmap_at sample_info 24) = 24"
    by (simp_all add: tag_at_def mmap_at_def read32_def sample_info_def sample_bytes_def)
  have e: "entry_at sample_info 40 = \<lparr>mm_addr = 0, mm_len = 0xA0000, mm_type = 1\<rparr>"
    "entry_at sample_info 64 = \<lparr>mm_addr = 0xA0000, mm_len = 0x60000, mm_type = 2\<rparr>"
    "entry_at sample_info 88 = \<lparr>mm_addr = 0x100000, mm_len = 0x7F00000, mm_type = 1\<rparr>"
    by (simp_all add: entry_at_def read64_def read32_def sample_info_def sample_bytes_def)
  have c: "tag_chain sample_info (0 + 8) [8, 24]"
    by (simp add: next_tag_def t good_map_def MULTIBOOT_TAG_TYPE_END_def MULTIBOOT_TAG_TYPE_MMAP_def)
  have r: "regions sample_info [8, 24] =
      [entry_at sample_info 40, entry_at sample_info 64, entry_at sample_info 88]"
    by (simp add: regions_def map_entries_def t MULTIBOOT_TAG_TYPE_MMAP_def upt_rec)
  have a: "available_ends (regions sample_info [8, 24]) = {655360, 134217728}"
    by (simp add: r e region_end_def)
  let ?i = "\<lparr>mbi_info = 0, mbi_magic = MULTIBOOT2_BOOTLOADER_MAGIC\<rparr>"
  have c': "tag_chain sample_info (mbi_info ?i + 8) [8, 24]" unfolding KMultiBoot2Info.simps by (rule c)
  have l: "\<forall>e \<in> set (regions sample_info [8, 24]). mm_type e = 1 \<longrightarrow> region_end e < 2 ^ 32"
    by (simp add: r e region_end_def)
  show ?thesis
    using parse_finds_memory[of ?i sample_info "[8, 24]", OF _ c' l] by (simp add: a)
qed





section \<open>The command\<close>






end
