(* ===== verification/Spec2Isabelle.thy ===== *)
theory Spec2Isabelle
  imports Paging_Thms Signal_Props Lock_Props Net_Props Programs_Props Start_Props
begin

text \<open>
  The operating system kernel of this repository: a 32-bit kernel for one processor, loaded by a
  Multiboot2 loader, with paging, threads, signals, a shell and a network card.

  \<^bold>\<open>The parts and how they interact.\<close> \<^verbatim>\<open>kernel_main\<close> (\<^verbatim>\<open>kernel/kernel.c\<close>) installs the descriptor tables,
  copies the boot information, finds the size of memory in it, and then starts the layers bottom up:
  the three buddy allocators, the locks, the slab cache on top of the kernel's pages, the kernel's memory
  descriptor and page tables, the device files, the first thread, the worker's queue, and last the
  drivers with their interrupts. From then on the kernel is driven by interrupts. The clock
  (\<^verbatim>\<open>scheduler_handler\<close>) wakes timers, picks the thread of least runtime and delivers signals; the keyboard
  and the network card queue work for the worker thread; page faults map the areas of a process; a
  system call is the protection fault of \<^verbatim>\<open>int 31\<close>. Threads sleep on locks, timers and device files, and
  every sleep ends in \<^verbatim>\<open>reschedule\<close>. A dead process stays stopped or a zombie until its father's signal and
  the reaper (\<^verbatim>\<open>bin/kswap.c\<close>) have dealt with it.

  \<^bold>\<open>Conventions\<close> (theory Prelude). Machine integers are words of their width. An operation returns its
  result or a \<open>kerror\<close>: a panic, a division by zero, an access outside an array, a bad pointer, a sleep on
  a lock that another thread holds, a loop without end. State is passed explicitly. Objects that the code
  reaches through pointers are views of memory by address; the nodes of the linked lists
  form heaps of pointers (\<open>list_heap\<close>), so that removing a node twice or from the wrong list does what the code does. Loops over lists
  and other loops without an evident end are \<open>partial_function (option)\<close>, whose \<open>None\<close> is the error
  \<open>Diverges\<close>; the theorems about them prove that there is a result.

  \<^bold>\<open>Theories and sources.\<close>
  \<^item> Lists: \<^verbatim>\<open>lib/list.h\<close>. The locale \<open>list_family\<close> is the interface of all clients of the lists: what the
    pointer operations do to the sequences the lists stand for. Each client interprets it for its own nodes.
  \<^item> Buddy, Buddy_Inv: \<^verbatim>\<open>mem/buddy.c\<close>. The invariant (free and allocated blocks tile the region, no two
    free buddies) and that allocation, freeing and initialisation keep it; exhaustion.
  \<^item> Memory, Pages, Pages_Inv, Pages_Props: \<^verbatim>\<open>mem/mem.c\<close>: raw memory, the kernel and fast page allocators
    and their initialisation; any sequence of calls keeps live blocks apart and the counters right.
  \<^item> Slab, Slab_Inv, Slab_Props: \<^verbatim>\<open>mem/slab.c\<close>, \<^verbatim>\<open>kmalloc\<close> and \<^verbatim>\<open>kfree\<close>: live objects never share a byte.
  \<^item> Paging, Paging_Props, Paging_Thms: \<^verbatim>\<open>mem/paging.c\<close>, \<^verbatim>\<open>mem/vma.c\<close>, \<^verbatim>\<open>mem/page.h\<close>: the page fault handler and the
    kernel's tables, against an abstract address translation.
  \<^item> Strings, Strings_Props: \<^verbatim>\<open>lib/strings.c\<close>, on arrays with bounds.
  \<^item> Kernel, Threads, Sched_Props, Signal_Props: \<^verbatim>\<open>proc/thread.c\<close>, \<^verbatim>\<open>kernel/scheduler.c\<close>, \<^verbatim>\<open>kernel/signals.c\<close>,
    \<^verbatim>\<open>drivers/timer.c\<close>: the state of the running kernel, the queues of threads (refined to three
    sequences), the scheduler's choice, the end of \<^verbatim>\<open>reschedule\<close>, the conversion of time.
  \<^item> Sync, Lock_Props: \<^verbatim>\<open>lock/lock.c\<close>, \<^verbatim>\<open>kernel/wait_queue.c\<close>, \<^verbatim>\<open>kernel/files.c\<close>, \<^verbatim>\<open>users/user.c\<close>. Lock_Props has
    the routines as a step relation of any number of threads: mutual exclusion under every
    interleaving, what \<^verbatim>\<open>unlock\<close> wakes, and the wake-up that can be lost.
  \<^item> Process, Work: \<^verbatim>\<open>proc/clone.c\<close>, \<^verbatim>\<open>kernel/elf.c\<close>, \<^verbatim>\<open>kernel/syscall.c\<close>, \<^verbatim>\<open>proc/work_queue.c\<close>, \<^verbatim>\<open>drivers/keyboard.c\<close>,
    \<^verbatim>\<open>bin/kswap.c\<close>, \<^verbatim>\<open>bin/init.c\<close>: the life of a process, system calls, the worker and the reaper.
  \<^item> Ports, Cpu, Cmos, Pci: \<^verbatim>\<open>cpu/ports.c\<close>, \<^verbatim>\<open>cpu/gdt.c\<close>, \<^verbatim>\<open>cpu/idt.c\<close>, \<^verbatim>\<open>cpu/isr.c\<close>, \<^verbatim>\<open>drivers/cmos.c\<close>, \<^verbatim>\<open>drivers/pci.c\<close>. The devices are
    a parameter: a state \<open>'d\<close> and what each port instruction does to it.
  \<^item> Boot: \<^verbatim>\<open>boot/multiboot.h\<close> and the readers of the boot information; random numbers.
  \<^item> Screen, Report, Shell, Commands: \<^verbatim>\<open>drivers/screen.c\<close>, the reports of \<^verbatim>\<open>lib/utils.c\<close>, \<^verbatim>\<open>bin/top.c\<close> and others, the line
    editors of \<^verbatim>\<open>bin/shell.c\<close> and \<^verbatim>\<open>bin/login.c\<close>, and every command of the shell.
  \<^item> Net, Net_Props: \<^verbatim>\<open>net/\<close> and \<^verbatim>\<open>drivers/rtl8139.c\<close>: messages in memory byte by byte and the ring of the card;
    the two checksums agree, the header verifies, the read pointer stays in the ring.
  \<^item> Entry, Start_Props: \<^verbatim>\<open>kernel/kernel.c\<close>, the exceptions and interrupts on the whole machine; the interrupt
    table, the memory found at boot, the choice of a command.
  \<^item> Programs, Programs_Props: \<^verbatim>\<open>external/\<close> and the threads of \<^verbatim>\<open>bin/\<close>, as sequences of calls; the user library prints
    what the kernel prints.

  \<^bold>\<open>Bounds and fuel.\<close> The only fuel is the depth of the search through PCI bridges (\<open>fuel\<close> of
  \<open>pci_scan_bus\<close>, \<open>bridges\<close> of the layout): a bus number has eight bits, so 256 suffice unless bridges
  form a cycle, where the code does not return either. The other bounds are the code's: orders up to
  10, 1024 entries of a table, 32 signal numbers.

  \<^bold>\<open>Interleaving.\<close> A call that switches to another thread ends there in the model; what the caller does when
  it is back is an operation of its own (\<open>wait4_done\<close>, the next round of \<open>get_lock_round\<close>, the rest of a program).
  A caller that would sleep inside a longer operation fails with \<open>Sleeps\<close>.

  \<^bold>\<open>Not modelled.\<close> The assembly (\<^verbatim>\<open>boot/meminit.asm\<close>, \<^verbatim>\<open>cpu/interrupt.asm\<close>, \<^verbatim>\<open>asm/functions.asm\<close>): the switch of stacks is an
  assignment to \<open>current_thread\<close>, the exchange of a lock's word one step, the loading of tables nothing.
  Addresses the linker gives, what memory holds before it is written where the code reads it, the
  processor's registers and time stamps are parameters. Headers of structures that no code reads,
  unused routines of \<^verbatim>\<open>lib/utils.c\<close> that read registers, and code within comments are left out. The typed views of
  memory (threads, slabs, page tables, files) and the byte store of messages and the screen are
  separate: writes through a dangling pointer to an object of another type are not followed.
\<close>

end
